(* ===== verification/CatJump_Prelude.thy ===== *)
theory CatJump_Prelude
  imports Complex_Main "HOL-Library.Stream"
begin

text \<open>
  Shared material of the Cat-Jump development: the collections of facts the
  component theories feed to the simplifier, the model of the host's random
  source, and the generic lemmas on floors, iteration and lists that several
  components use.

  \<^bold>\<open>Numbers.\<close> Every \<^verbatim>\<open>number\<close> of \<^verbatim>\<open>src/index.tsx\<close> that can take a fractional
  value (positions, sizes, velocities, the game speed) is a \<^typ>\<open>real\<close>; the
  counters that only ever hold non-negative integers (\<^verbatim>\<open>frame\<close>, \<^verbatim>\<open>score\<close>,
  \<^verbatim>\<open>highScore\<close>) are \<^typ>\<open>nat\<close>. JavaScript computes in IEEE-754 doubles, the
  model in exact arithmetic: sums of multiples of \<^verbatim>\<open>0.5\<close> and of integers are
  exact in both, sums of multiples of \<^verbatim>\<open>0.6\<close> (gravity) and \<^verbatim>\<open>1.2\<close> (the bird
  multiplier) differ from the doubles by rounding errors: along a jump the
  height the doubles hold and the height of the model differ by less than
  \<open>2 * 10\<^sup>-\<^sup>1\<^sup>3\<close>. The equalities the development states between such
  sums (the closed form of the jump in \<open>Cat_Player\<close>, the heights in the
  examples) are therefore statements of the exact model, which the doubles
  meet up to that error. The branches do not depend on it: where a theorem
  follows a comparison of the code on such a value, the two sides are
  further apart than the error (the landing test of a standing jump by 3.8
  pixels or more, the collision tests along the jumps of \<open>Playability\<close>,
  \<open>Timed_Round\<close> and \<open>Strategy\<close> by 0.01 pixels or more), so the doubles take
  the branch the model takes. The bounds of \<open>Spacing\<close> on the distances
  between obstacles, which involve the bird multiplier, are bounds of the
  exact model as well.

  \<^bold>\<open>Randomness.\<close> \<^verbatim>\<open>Math.random()\<close> is an endless source of draws from
  \<open>[0, 1)\<close>. The model threads a stream of reals through every function that
  draws: a call takes the head and leaves the tail. Which numbers the stream
  holds is left open; \<open>rng_ok\<close> states the contract of \<^verbatim>\<open>Math.random\<close>.
\<close>

section \<open>Fact collections\<close>

named_theorems game_consts "definitions of the configuration constants"
named_theorems cat_defs "definitions of the operations on the cat"
named_theorems obs_defs "definitions of the operations on obstacles"
named_theorems loop_defs "definitions of the stages of the game loop"
named_theorems inv_defs "definitions of the invariants"

section \<open>The random source\<close>

type_synonym rng = "real stream"

definition Math_random :: "rng \<Rightarrow> real \<times> rng" where
  "Math_random g = (shd g, stl g)"

definition rng_ok :: "rng \<Rightarrow> bool" where
  "rng_ok g \<longleftrightarrow> (\<forall>r \<in> sset g. 0 \<le> r \<and> r < 1)"

text \<open>
  The counting loop \<^verbatim>\<open>for (let i = i0; i < n; i++) body(i)\<close>, for a body that
  appends to an output: the function follows the loop, one call per test of the
  condition. The distance from the counter to the bound is its measure.
\<close>

function for_loop :: "int \<Rightarrow> int \<Rightarrow> (int \<Rightarrow> 'a list) \<Rightarrow> 'a list" where
  "for_loop i n body = (if i < n then body i @ for_loop (i + 1) n body else [])"
  by pat_completeness auto

termination for_loop
  by (relation "measure (\<lambda>(i, n, body). nat (n - i))") auto

declare for_loop.simps [simp del]

lemma Math_random_simps [simp]:
  "fst (Math_random g) = shd g" "snd (Math_random g) = stl g"
  by (simp_all add: Math_random_def)

lemma rng_ok_shd: "rng_ok g \<Longrightarrow> 0 \<le> shd g \<and> shd g < 1"
  by (simp add: rng_ok_def shd_sset)

lemma rng_ok_stl [intro, simp]: "rng_ok g \<Longrightarrow> rng_ok (stl g)"
  by (auto simp: rng_ok_def dest: stl_sset)

lemma rng_ok_sdrop [intro, simp]: "rng_ok g \<Longrightarrow> rng_ok (sdrop n g)"
  by (induction n arbitrary: g) auto

lemma rng_ok_sconst [simp]: "rng_ok (sconst r) \<longleftrightarrow> 0 \<le> r \<and> r < 1"
  by (simp add: rng_ok_def)

lemma rng_ok_SCons [simp]: "rng_ok (r ## g) \<longleftrightarrow> (0 \<le> r \<and> r < 1) \<and> rng_ok g"
  by (auto simp: rng_ok_def)

lemma rng_ok_shift [simp]:
  "rng_ok (rs @- g) \<longleftrightarrow> (\<forall>r \<in> set rs. 0 \<le> r \<and> r < 1) \<and> rng_ok g"
  by (induction rs) auto

lemma shd_nonneg [simp]: "rng_ok g \<Longrightarrow> 0 \<le> shd g"
  by (simp add: rng_ok_shd)

lemma shd_less_one [simp]: "rng_ok g \<Longrightarrow> shd g < 1"
  by (simp add: rng_ok_shd)

section \<open>Scaled draws\<close>

text \<open>
  \<^verbatim>\<open>Math.floor(Math.random() * n)\<close> picks one of \<open>0, \<dots>, n - 1\<close>, and
  \<^verbatim>\<open>a + Math.random() * d\<close> a point of \<open>[a, a + d)\<close>.
\<close>

lemma floor_scaled_range:
  fixes r :: real
  assumes "0 \<le> r" "r < 1" "0 < n"
  shows "\<lfloor>r * of_int n\<rfloor> \<in> {0..<n}"
proof -
  from assms have "0 \<le> r * of_int n" by simp
  moreover from assms have "r * of_int n < of_int n"
    by (simp add: mult_less_cancel_right1)
  ultimately show ?thesis by (simp add: floor_less_iff)
qed

lemma floor_draw3:
  assumes "rng_ok g"
  shows "\<lfloor>shd g * 3\<rfloor> \<in> {0, 1, 2}"
proof -
  define i where "i = \<lfloor>shd g * 3\<rfloor>"
  from assms have "i \<in> {0..<3}"
    using floor_scaled_range [of "shd g" 3] by (simp add: i_def)
  then have "i \<in> {0, 1, 2}" by auto
  then show ?thesis by (simp only: i_def)
qed

lemma floor_draw2:
  assumes "rng_ok g"
  shows "\<lfloor>shd g * 2\<rfloor> \<in> {0, 1}"
proof -
  define i where "i = \<lfloor>shd g * 2\<rfloor>"
  from assms have "i \<in> {0..<2}"
    using floor_scaled_range [of "shd g" 2] by (simp add: i_def)
  then have "i \<in> {0, 1}" by auto
  then show ?thesis by (simp only: i_def)
qed

lemma scaled_draw_range:
  fixes d :: real
  assumes "rng_ok g" "0 < d"
  shows "0 \<le> shd g * d \<and> shd g * d < d"
  using assms rng_ok_shd [of g] by (simp add: mult_less_cancel_right1)

section \<open>Iteration and lists\<close>

lemma for_loop_upto: "for_loop i n body = concat (map body [i..n - 1])"
proof (induction i n body rule: for_loop.induct)
  case (1 i n body)
  show ?case
  proof (cases "i < n")
    case True
    then have "for_loop i n body = body i @ for_loop (i + 1) n body"
      by (subst for_loop.simps) simp
    moreover from True have "for_loop (i + 1) n body = concat (map body [i + 1..n - 1])"
      by (rule 1)
    moreover from True have "i \<le> n - 1" by simp
    then have "[i..n - 1] = i # [i + 1..n - 1]"
      by (simp only: upto_rec1 [of i "n - 1"] if_True)
    ultimately show ?thesis by simp
  next
    case False
    then show ?thesis by (subst for_loop.simps) simp
  qed
qed

lemma for_loop_all:
  "list_all P (for_loop i n body) \<longleftrightarrow> (\<forall>j \<in> {i..<n}. list_all P (body j))"
  by (auto simp: for_loop_upto list_all_iff)

lemma for_loop_empty [simp]: "n \<le> i \<Longrightarrow> for_loop i n body = []"
  by (subst for_loop.simps) simp

lemma funpow_invariant:
  assumes "P x" and "\<And>y. P y \<Longrightarrow> P (f y)"
  shows "P ((f ^^ n) x)"
  using assms by (induction n) auto

lemma funpow_add_one: "(f ^^ Suc n) x = (f ^^ n) (f x)"
  by (simp add: funpow_swap1)

lemma last_snoc_in_filter:
  "P x \<Longrightarrow> filter P (xs @ [x]) \<noteq> [] \<and> last (filter P (xs @ [x])) = x"
  by simp

lemma list_all_filter_map:
  "list_all Q (map f xs) \<Longrightarrow> list_all Q (filter P (map f xs))"
  by (induction xs) auto

end
