(* ===== verification/Config.thy ===== *)
theory Config
  imports CatJump_Prelude
begin

text \<open>
  The configuration constants, the obstacle kinds and the input flags of
  \<^verbatim>\<open>src/index.tsx\<close> (lines 2 to 35). Each constant is a definition collected in
  \<open>game_consts\<close>, so that \<open>simp add: game_consts\<close> turns a statement about
  \<open>GROUND_Y\<close> or \<open>GRAVITY\<close> into one about numerals.
\<close>

section \<open>Game configuration constants\<close>

definition GAME_WIDTH :: real where
  "GAME_WIDTH = 800"

definition GAME_HEIGHT :: real where
  "GAME_HEIGHT = 200"

definition GROUND_Y :: real where
  "GROUND_Y = 175"

definition CAT_X :: real where
  "CAT_X = 50"

definition CAT_WIDTH :: real where
  "CAT_WIDTH = 44"

definition CAT_HEIGHT :: real where
  "CAT_HEIGHT = 40"

definition CAT_CROUCH_HEIGHT :: real where
  "CAT_CROUCH_HEIGHT = 25"

definition JUMP_FORCE :: real where
  "JUMP_FORCE = 11"

definition GRAVITY :: real where
  "GRAVITY = 0.6"

lemmas [game_consts] =
  GAME_WIDTH_def GAME_HEIGHT_def GROUND_Y_def CAT_X_def CAT_WIDTH_def
  CAT_HEIGHT_def CAT_CROUCH_HEIGHT_def JUMP_FORCE_def GRAVITY_def

section \<open>Obstacle types\<close>

datatype ObstacleType = CACTUS | TRASH_CAN | BIRD

section \<open>Input state\<close>

text \<open>
  The object \<^verbatim>\<open>keys\<close> holds one flag per key the game listens to. The key
  handlers write it, \<^verbatim>\<open>Cat.update\<close> reads it.
\<close>

record keys =
  Space :: bool
  ArrowUp :: bool
  ArrowDown :: bool

definition keys_init :: keys where
  "keys_init = \<lparr>Space = False, ArrowUp = False, ArrowDown = False\<rparr>"

text \<open>The two signals the cat reads: a jump key is down, the crouch key is down.\<close>

definition jumpHeld :: "keys \<Rightarrow> bool" where
  "jumpHeld k \<longleftrightarrow> Space k \<or> ArrowUp k"

definition crouchHeld :: "keys \<Rightarrow> bool" where
  "crouchHeld k \<longleftrightarrow> ArrowDown k"

lemma keys_init_simps [simp]:
  "\<not> jumpHeld keys_init" "\<not> crouchHeld keys_init"
  by (simp_all add: keys_init_def jumpHeld_def crouchHeld_def)

lemma game_consts_order:
  "CAT_CROUCH_HEIGHT < CAT_HEIGHT" "CAT_HEIGHT < GROUND_Y" "GROUND_Y < GAME_HEIGHT"
  "0 < GRAVITY" "0 < JUMP_FORCE" "0 < CAT_X" "CAT_X + CAT_WIDTH < GAME_WIDTH"
  by (simp_all add: game_consts)

end
