(* ===== verification/Cat_Player.thy ===== *)
theory Cat_Player
  imports Config
begin

text \<open>
  The player: class \<^verbatim>\<open>Cat\<close> of \<^verbatim>\<open>src/index.tsx\<close> (lines 37 to 90; its
  \<^verbatim>\<open>draw\<close> method belongs to the rendering).

  The record \<open>Cat\<close> has the fields of the class, prefixed by \<open>cat_\<close> where the
  source's name is a single letter (\<^verbatim>\<open>x\<close>, \<^verbatim>\<open>y\<close>, \<^verbatim>\<open>w\<close>, \<^verbatim>\<open>h\<close>, \<^verbatim>\<open>dy\<close>), since
  a record field is a constant and would capture every variable of that
  name. \<open>Cat_new\<close> is the constructor. The method \<^verbatim>\<open>update\<close> runs three blocks
  in sequence, and the model has one definition per block: \<open>crouch_logic\<close>,
  \<open>jump_logic\<close> and \<open>physics\<close>, composed in \<open>Cat_update\<close>. The flags the
  method reads from the global \<^verbatim>\<open>keys\<close> are its first argument.

  The lemmas show: the well-formedness invariant \<open>cat_wf\<close> and that the
  constructor establishes and every update re-establishes it; the behaviour
  of one update on each branch (grounded or airborne, jump or not, landing);
  that jump keys are ignored in the air; and the course of a whole jump.
\<close>

section \<open>State\<close>

record Cat =
  cat_x :: real
  cat_y :: real
  cat_w :: real
  cat_h :: real
  cat_dy :: real
  isGrounded :: bool
  isCrouching :: bool

definition Cat_new :: Cat where
  "Cat_new =
     \<lparr>cat_x = CAT_X, cat_y = GROUND_Y - CAT_HEIGHT, cat_w = CAT_WIDTH, cat_h = CAT_HEIGHT,
      cat_dy = 0, isGrounded = True, isCrouching = False\<rparr>"

section \<open>The update method\<close>

definition crouch_logic :: "keys \<Rightarrow> Cat \<Rightarrow> Cat" where
  "crouch_logic k c =
     (if ArrowDown k then
        (let c1 = c\<lparr>isCrouching := True, cat_h := CAT_CROUCH_HEIGHT\<rparr>
         in if isGrounded c1 then c1\<lparr>cat_y := GROUND_Y - CAT_CROUCH_HEIGHT\<rparr> else c1)
      else
        (let c1 = c\<lparr>isCrouching := False, cat_h := CAT_HEIGHT\<rparr>
         in if isGrounded c1 then c1\<lparr>cat_y := GROUND_Y - CAT_HEIGHT\<rparr> else c1))"

definition jump_logic :: "keys \<Rightarrow> Cat \<Rightarrow> Cat" where
  "jump_logic k c =
     (if (Space k \<or> ArrowUp k) \<and> isGrounded c
      then c\<lparr>cat_dy := - JUMP_FORCE, isGrounded := False\<rparr>
      else c)"

definition physics :: "Cat \<Rightarrow> Cat" where
  "physics c =
     (let c1 = c\<lparr>cat_y := cat_y c + cat_dy c\<rparr>
      in if cat_y c1 + cat_h c1 < GROUND_Y
         then c1\<lparr>cat_dy := cat_dy c1 + GRAVITY, isGrounded := False\<rparr>
         else c1\<lparr>cat_dy := 0, isGrounded := True, cat_y := GROUND_Y - cat_h c1\<rparr>)"

definition Cat_update :: "keys \<Rightarrow> Cat \<Rightarrow> Cat" where
  "Cat_update k c = physics (jump_logic k (crouch_logic k c))"

lemmas [cat_defs] =
  Cat_new_def crouch_logic_def jump_logic_def physics_def Cat_update_def

section \<open>Invariant\<close>

text \<open>
  What holds of the cat between two frames: it never moves sideways or
  changes width, its height is the one its crouch flag selects, its feet are
  never below the ground line, and it is grounded exactly when its feet are on
  the line, in which case it has no vertical velocity.
\<close>

definition cat_height :: "bool \<Rightarrow> real" where
  "cat_height crouching = (if crouching then CAT_CROUCH_HEIGHT else CAT_HEIGHT)"

definition cat_wf :: "Cat \<Rightarrow> bool" where
  "cat_wf c \<longleftrightarrow>
     cat_x c = CAT_X \<and> cat_w c = CAT_WIDTH \<and>
     cat_h c = cat_height (isCrouching c) \<and>
     cat_y c + cat_h c \<le> GROUND_Y \<and>
     (isGrounded c \<longleftrightarrow> cat_y c + cat_h c = GROUND_Y) \<and>
     (isGrounded c \<longrightarrow> cat_dy c = 0)"

lemmas [inv_defs] = cat_wf_def cat_height_def

text \<open>
  The branch \<^verbatim>\<open>physics\<close> takes: after the velocity is added, are the feet at
  or below the ground line?
\<close>

definition lands :: "Cat \<Rightarrow> bool" where
  "lands c \<longleftrightarrow> GROUND_Y \<le> cat_y c + cat_dy c + cat_h c"

section \<open>The three blocks, field by field\<close>

lemma crouch_logic_fields [simp]:
  "cat_x (crouch_logic k c) = cat_x c"
  "cat_w (crouch_logic k c) = cat_w c"
  "cat_dy (crouch_logic k c) = cat_dy c"
  "isGrounded (crouch_logic k c) = isGrounded c"
  "isCrouching (crouch_logic k c) = ArrowDown k"
  "cat_h (crouch_logic k c) = cat_height (ArrowDown k)"
  "cat_y (crouch_logic k c) =
     (if isGrounded c then GROUND_Y - cat_height (ArrowDown k) else cat_y c)"
  by (simp_all add: crouch_logic_def cat_height_def Let_def)

lemma jump_logic_fields [simp]:
  "cat_x (jump_logic k c) = cat_x c"
  "cat_w (jump_logic k c) = cat_w c"
  "cat_y (jump_logic k c) = cat_y c"
  "cat_h (jump_logic k c) = cat_h c"
  "isCrouching (jump_logic k c) = isCrouching c"
  "cat_dy (jump_logic k c) = (if jumpHeld k \<and> isGrounded c then - JUMP_FORCE else cat_dy c)"
  "isGrounded (jump_logic k c) = (isGrounded c \<and> \<not> jumpHeld k)"
  by (auto simp: jump_logic_def jumpHeld_def)

lemma physics_fields [simp]:
  "cat_x (physics c) = cat_x c"
  "cat_w (physics c) = cat_w c"
  "cat_h (physics c) = cat_h c"
  "isCrouching (physics c) = isCrouching c"
  "isGrounded (physics c) = lands c"
  "cat_dy (physics c) = (if lands c then 0 else cat_dy c + GRAVITY)"
  "cat_y (physics c) = (if lands c then GROUND_Y - cat_h c else cat_y c + cat_dy c)"
  by (auto simp: physics_def lands_def Let_def)

lemma Cat_update_frame [simp]:
  "cat_x (Cat_update k c) = cat_x c" "cat_w (Cat_update k c) = cat_w c"
  by (simp_all add: Cat_update_def)

lemma Cat_update_shape [simp]:
  "isCrouching (Cat_update k c) = ArrowDown k"
  "cat_h (Cat_update k c) = cat_height (ArrowDown k)"
  by (simp_all add: Cat_update_def)

section \<open>One update, branch by branch\<close>

lemma Cat_update_jump:
  assumes "isGrounded c" "jumpHeld k"
  shows "\<not> isGrounded (Cat_update k c) \<and>
         cat_dy (Cat_update k c) = GRAVITY - JUMP_FORCE \<and>
         cat_y (Cat_update k c) = GROUND_Y - cat_height (ArrowDown k) - JUMP_FORCE"
  using assms by (simp add: Cat_update_def lands_def game_consts)

lemma Cat_update_rest:
  assumes "isGrounded c" "\<not> jumpHeld k" "0 \<le> cat_dy c"
  shows "isGrounded (Cat_update k c) \<and> cat_dy (Cat_update k c) = 0 \<and>
         cat_y (Cat_update k c) = GROUND_Y - cat_height (ArrowDown k)"
  using assms by (simp add: Cat_update_def lands_def)

lemma Cat_update_fall:
  assumes "\<not> isGrounded c" "cat_y c + cat_dy c + cat_height (ArrowDown k) < GROUND_Y"
  shows "\<not> isGrounded (Cat_update k c) \<and>
         cat_dy (Cat_update k c) = cat_dy c + GRAVITY \<and>
         cat_y (Cat_update k c) = cat_y c + cat_dy c"
  using assms by (simp add: Cat_update_def lands_def)

lemma Cat_update_land:
  assumes "\<not> isGrounded c" "GROUND_Y \<le> cat_y c + cat_dy c + cat_height (ArrowDown k)"
  shows "isGrounded (Cat_update k c) \<and> cat_dy (Cat_update k c) = 0 \<and>
         cat_y (Cat_update k c) = GROUND_Y - cat_height (ArrowDown k)"
  using assms by (simp add: Cat_update_def lands_def)

section \<open>The invariant is established by every update\<close>

lemma cat_wf_new: "cat_wf Cat_new"
  by (simp add: cat_wf_def Cat_new_def cat_height_def)

lemma Cat_update_feet:
  "cat_y (Cat_update k c) + cat_h (Cat_update k c) \<le> GROUND_Y \<and>
   (isGrounded (Cat_update k c) \<longleftrightarrow>
      cat_y (Cat_update k c) + cat_h (Cat_update k c) = GROUND_Y) \<and>
   (isGrounded (Cat_update k c) \<longrightarrow> cat_dy (Cat_update k c) = 0)"
  by (auto simp: Cat_update_def lands_def)

lemma Cat_update_wf:
  assumes "cat_x c = CAT_X" "cat_w c = CAT_WIDTH"
  shows "cat_wf (Cat_update k c)"
  using assms Cat_update_feet [of k c] by (simp add: cat_wf_def)

text \<open>
  \<^bold>\<open>C2.\<close> Whatever the state of the cat before (as long as nobody moved it
  sideways), one call of \<^verbatim>\<open>update\<close> leaves it well formed: the height is
  the one the crouch key selects, the feet are on or above the ground line,
  the cat is grounded exactly when they are on it, and a grounded cat has no
  velocity.
\<close>

theorem update_establishes_cat_wf:
  assumes "cat_x c = CAT_X" and "cat_w c = CAT_WIDTH"
  shows "cat_wf (Cat_update k c)"
  using assms by (rule Cat_update_wf)

theorem update_establishes_cat_wf_witness:
  "cat_x Cat_new = CAT_X \<and> cat_w Cat_new = CAT_WIDTH \<and>
   cat_wf (Cat_update \<lparr>Space = True, ArrowUp = False, ArrowDown = True\<rparr> Cat_new)"
  using update_establishes_cat_wf [of Cat_new "\<lparr>Space = True, ArrowUp = False, ArrowDown = True\<rparr>"]
  by (simp add: Cat_new_def)

text \<open>
  \<^bold>\<open>C28.\<close> The whole of \<^verbatim>\<open>update\<close> on a well-formed cat, as one case
  distinction: a grounded cat with a jump key down takes off with the first
  gravity step already applied; a grounded cat without one rests; a cat in the
  air falls by its velocity, or lands when that would take its feet to the
  line. The height follows the crouch key in every case.
\<close>

theorem Cat_update_cases:
  assumes "cat_wf c"
  shows "Cat_update k c =
     c\<lparr>isCrouching := ArrowDown k, cat_h := cat_height (ArrowDown k),
       cat_y :=
         (if isGrounded c then
            (if jumpHeld k then GROUND_Y - cat_height (ArrowDown k) - JUMP_FORCE
             else GROUND_Y - cat_height (ArrowDown k))
          else if cat_y c + cat_dy c + cat_height (ArrowDown k) < GROUND_Y
            then cat_y c + cat_dy c
            else GROUND_Y - cat_height (ArrowDown k)),
       cat_dy :=
         (if isGrounded c then (if jumpHeld k then GRAVITY - JUMP_FORCE else 0)
          else if cat_y c + cat_dy c + cat_height (ArrowDown k) < GROUND_Y
            then cat_dy c + GRAVITY
            else 0),
       isGrounded :=
         (if isGrounded c then \<not> jumpHeld k
          else \<not> cat_y c + cat_dy c + cat_height (ArrowDown k) < GROUND_Y)\<rparr>"
proof (cases "isGrounded c")
  case True
  with assms have "cat_dy c = 0" by (simp add: cat_wf_def)
  with True show ?thesis
    using Cat_update_jump [of c k] Cat_update_rest [of c k]
    by (intro Cat.equality) auto
next
  case False
  then show ?thesis
    using Cat_update_fall [of c k] Cat_update_land [of c k]
    by (intro Cat.equality) auto
qed

theorem Cat_update_cases_witness:
  "cat_wf Cat_new \<and>
   Cat_update \<lparr>Space = False, ArrowUp = True, ArrowDown = False\<rparr> Cat_new =
     Cat_new\<lparr>cat_y := 124, cat_dy := - 10.4, isGrounded := False\<rparr>"
  using Cat_update_cases [OF cat_wf_new, of "\<lparr>Space = False, ArrowUp = True, ArrowDown = False\<rparr>"]
  by (simp add: cat_wf_new jumpHeld_def cat_height_def game_consts) (simp add: Cat_new_def game_consts)

text \<open>
  A jump starts only from the ground: while the cat is in the air
  the state of the two jump keys makes no difference to \<^verbatim>\<open>update\<close>.
\<close>

theorem jump_keys_ignored_in_air:
  assumes "\<not> isGrounded c"
  shows "Cat_update (k\<lparr>Space := a, ArrowUp := b\<rparr>) c = Cat_update k c"
  using assms by (simp add: Cat_update_def jump_logic_def crouch_logic_def Let_def)

theorem jump_keys_ignored_in_air_witness:
  "\<not> isGrounded (Cat_new\<lparr>cat_y := 100, cat_dy := 3, isGrounded := False\<rparr>) \<and>
   Cat_update (keys_init\<lparr>Space := True, ArrowUp := True\<rparr>)
       (Cat_new\<lparr>cat_y := 100, cat_dy := 3, isGrounded := False\<rparr>) =
     Cat_update keys_init (Cat_new\<lparr>cat_y := 100, cat_dy := 3, isGrounded := False\<rparr>)"
  using jump_keys_ignored_in_air
    [where c = "Cat_new\<lparr>cat_y := 100, cat_dy := 3, isGrounded := False\<rparr>"
       and k = keys_init and a = True and b = True]
  by simp

section \<open>The course of a jump\<close>

text \<open>
  A jump from the standing position with the key released after the first
  frame: \<open>flight n\<close> is the cat \<open>n\<close> frames after the frame of the take-off,
  \<open>flight_y n\<close> the height the closed form predicts.
\<close>

definition jump_keys :: keys where
  "jump_keys = \<lparr>Space = True, ArrowUp = False, ArrowDown = False\<rparr>"

definition flight :: "nat \<Rightarrow> Cat" where
  "flight n = (Cat_update keys_init ^^ n) (Cat_update jump_keys Cat_new)"

definition flight_y :: "nat \<Rightarrow> real" where
  "flight_y n = 124 - 10.4 * real n + 0.3 * real n * (real n - 1)"

lemma jump_keys_simps [simp]:
  "jumpHeld jump_keys" "\<not> ArrowDown jump_keys"
  by (simp_all add: jump_keys_def jumpHeld_def)

lemma keys_init_fields [simp]:
  "\<not> ArrowDown keys_init" "\<not> Space keys_init" "\<not> ArrowUp keys_init"
  by (simp_all add: keys_init_def)

lemma flight_y_Suc: "flight_y (Suc n) = flight_y n + (0.6 * real n - 10.4)"
  by (simp add: flight_y_def field_simps)

lemma flight_y_airborne:
  assumes "n \<le> 36"
  shows "flight_y n < 135"
proof -
  from assms have "real n * real n \<le> 36 * real n"
    by (intro mult_right_mono) simp_all
  with assms show ?thesis by (simp add: flight_y_def algebra_simps)
qed

lemmas cat_eval = Cat_update_def lands_def Cat_new_def cat_height_def game_consts

lemma flight_closed_form:
  assumes "n \<le> 36"
  shows "flight n =
    Cat_new\<lparr>cat_y := flight_y n, cat_dy := 0.6 * real n - 10.4, isGrounded := False\<rparr>"
  using assms
proof (induction n)
  case 0
  show ?case
    by (rule Cat.equality) (simp_all add: flight_def flight_y_def cat_eval)
next
  case (Suc n)
  then have IH: "flight n =
      Cat_new\<lparr>cat_y := flight_y n, cat_dy := 0.6 * real n - 10.4, isGrounded := False\<rparr>"
    by simp
  have air: "flight_y (Suc n) < 135"
    using Suc.prems by (rule flight_y_airborne)
  have step: "flight (Suc n) = Cat_update keys_init (flight n)"
    by (simp add: flight_def)
  show ?case unfolding step IH using air
    by (intro Cat.equality) (simp_all add: flight_y_Suc cat_eval algebra_simps)
qed

lemma flight_lands: "flight 37 = Cat_new"
proof -
  have "flight 37 = Cat_update keys_init (flight 36)"
    by (simp add: flight_def eval_nat_numeral)
  also have "\<dots> = Cat_new"
    by (subst flight_closed_form, simp, rule Cat.equality)
       (simp_all add: flight_y_def cat_eval)
  finally show ?thesis .
qed

text \<open>
  \<^bold>\<open>C34.\<close> A standing jump lasts 38 frames. For 37 frames the cat is in the
  air, at the height of the closed form \<open>124 - 10.4 n + 0.3 n (n - 1)\<close> and
  with velocity \<open>0.6 n - 10.4\<close>; the 38th call of \<^verbatim>\<open>update\<close> puts it back
  into the state the constructor builds.
\<close>

theorem standing_jump_course:
  "(\<forall>n\<le>36. flight n =
      Cat_new\<lparr>cat_y := flight_y n, cat_dy := 0.6 * real n - 10.4, isGrounded := False\<rparr>) \<and>
   flight 37 = Cat_new"
  by (simp add: flight_closed_form flight_lands)

theorem standing_jump_course_witness:
  "flight 18 = Cat_new\<lparr>cat_y := 28.6, cat_dy := 0.4, isGrounded := False\<rparr>"
  using standing_jump_course [THEN conjunct1, rule_format, of 18]
  by (simp add: flight_y_def)

section \<open>How high the cat can get\<close>

text \<open>
  While the cat is in the air each frame adds the velocity to the height and
  the gravity to the velocity. The quantity \<open>jump_energy\<close> is constant under
  that step (a discrete form of the energy of a thrown body), and no take-off
  starts with less of it than \<open>launch_energy\<close>. The invariant \<open>cat_inv\<close> adds
  this bound to \<open>cat_wf\<close>; it holds of every cat that the constructor and
  \<^verbatim>\<open>update\<close> can produce, under any sequence of key states, and it keeps the
  \<^verbatim>\<open>y\<close> coordinate of the cat at or above \<open>jump_apex\<close> (the axis points
  down: the cat is never higher on the screen than that).
\<close>

definition jump_energy :: "Cat \<Rightarrow> real" where
  "jump_energy c = cat_y c - cat_dy c * cat_dy c / (2 * GRAVITY) + cat_dy c / 2"

definition launch_energy :: real where
  "launch_energy =
     GROUND_Y - CAT_HEIGHT - (JUMP_FORCE * JUMP_FORCE / (2 * GRAVITY) + JUMP_FORCE / 2)"

definition jump_apex :: real where
  "jump_apex = launch_energy - GRAVITY / 8"

definition cat_inv :: "Cat \<Rightarrow> bool" where
  "cat_inv c \<longleftrightarrow> cat_wf c \<and> (\<not> isGrounded c \<longrightarrow> launch_energy \<le> jump_energy c)"

inductive cat_reach :: "Cat \<Rightarrow> bool" where
  cat_new: "cat_reach Cat_new"
| cat_step: "cat_reach c \<Longrightarrow> cat_reach (Cat_update k c)"

lemma physics_energy:
  assumes "\<not> lands c"
  shows "jump_energy (physics c) = jump_energy c"
  using assms by (simp add: jump_energy_def game_consts field_simps)

lemma jump_energy_cong:
  "cat_y c' = cat_y c \<Longrightarrow> cat_dy c' = cat_dy c \<Longrightarrow> jump_energy c' = jump_energy c"
  by (simp add: jump_energy_def)

lemma Cat_update_energy_physics:
  assumes "\<not> isGrounded (Cat_update k c)"
  shows "jump_energy (Cat_update k c) = jump_energy (jump_logic k (crouch_logic k c))"
  using assms by (simp add: Cat_update_def physics_energy)

lemma cat_inv_new: "cat_inv Cat_new"
  by (simp add: cat_inv_def cat_wf_new) (simp add: Cat_new_def)

lemma Cat_update_energy:
  assumes "cat_inv c" "\<not> isGrounded (Cat_update k c)"
  shows "launch_energy \<le> jump_energy (Cat_update k c)"
proof (cases "isGrounded c")
  case True
  have j: "jumpHeld k"
  proof (rule ccontr)
    assume "\<not> jumpHeld k"
    with True assms(1) have "isGrounded (Cat_update k c)"
      by (simp add: Cat_update_rest cat_inv_def cat_wf_def)
    with assms(2) show False by simp
  qed
  from True j have "jump_energy (jump_logic k (crouch_logic k c)) =
      GROUND_Y - cat_height (ArrowDown k) -
        (JUMP_FORCE * JUMP_FORCE / (2 * GRAVITY) + JUMP_FORCE / 2)"
    by (simp add: jump_energy_def)
  moreover have "cat_height (ArrowDown k) \<le> CAT_HEIGHT"
    by (simp add: cat_height_def game_consts)
  ultimately show ?thesis
    using Cat_update_energy_physics [OF assms(2)] by (simp add: launch_energy_def)
next
  case False
  with assms(1) have "launch_energy \<le> jump_energy c" by (simp add: cat_inv_def)
  moreover from False have "jump_energy (jump_logic k (crouch_logic k c)) = jump_energy c"
    by (intro jump_energy_cong) simp_all
  ultimately show ?thesis
    using Cat_update_energy_physics [OF assms(2)] by simp
qed

lemma Cat_update_inv:
  assumes "cat_inv c"
  shows "cat_inv (Cat_update k c)"
proof -
  from assms have "cat_x c = CAT_X" "cat_w c = CAT_WIDTH"
    by (simp_all add: cat_inv_def cat_wf_def)
  then have "cat_wf (Cat_update k c)" by (rule Cat_update_wf)
  with Cat_update_energy [OF assms, of k] show ?thesis
    by (simp add: cat_inv_def)
qed

lemma cat_reach_inv: "cat_reach c \<Longrightarrow> cat_inv c"
  by (induction rule: cat_reach.induct) (simp_all add: cat_inv_new Cat_update_inv)

lemma cat_reach_wf: "cat_reach c \<Longrightarrow> cat_wf c"
  by (drule cat_reach_inv) (simp add: cat_inv_def)

lemma jump_energy_apex: "jump_energy c - GRAVITY / 8 \<le> cat_y c"
proof -
  have "0 \<le> (cat_dy c - GRAVITY / 2) * (cat_dy c - GRAVITY / 2)" by simp
  then show ?thesis
    by (simp add: jump_energy_def game_consts field_simps)
qed

lemma cat_inv_apex:
  assumes "cat_inv c"
  shows "jump_apex \<le> cat_y c"
proof (cases "isGrounded c")
  case True
  with assms have "cat_y c = GROUND_Y - cat_height (isCrouching c)"
    by (auto simp: cat_inv_def cat_wf_def)
  then show ?thesis
    by (simp add: jump_apex_def launch_energy_def cat_height_def game_consts)
next
  case False
  with assms have "launch_energy \<le> jump_energy c" by (simp add: cat_inv_def)
  with jump_energy_apex [of c] show ?thesis by (simp add: jump_apex_def)
qed

lemma jump_apex_value: "jump_apex = 3431 / 120"
  by (simp add: jump_apex_def launch_energy_def game_consts)

text \<open>
  \<^bold>\<open>C29.\<close> The cat never leaves the field. Whatever keys are held in whatever
  frames, the top edge of the cat never comes closer to the top of the canvas
  than \<open>jump_apex\<close> (about 28.59 pixels), and its feet stay on or above the
  ground line, which is inside the canvas. The bound is sharp to a hundredth
  of a pixel: the standing jump reaches 28.6.
\<close>

theorem cat_stays_in_field:
  assumes "cat_reach c"
  shows "0 < jump_apex \<and> jump_apex \<le> cat_y c \<and>
         cat_y c + cat_h c \<le> GROUND_Y \<and> GROUND_Y < GAME_HEIGHT"
proof -
  from assms have "cat_inv c" by (rule cat_reach_inv)
  then have "jump_apex \<le> cat_y c" "cat_y c + cat_h c \<le> GROUND_Y"
    by (simp_all add: cat_inv_apex cat_inv_def cat_wf_def)
  then show ?thesis by (simp add: jump_apex_value game_consts)
qed

theorem cat_stays_in_field_witness:
  "cat_reach (Cat_update jump_keys Cat_new) \<and>
   jump_apex \<le> cat_y (Cat_update jump_keys Cat_new) \<and>
   cat_y (Cat_update jump_keys Cat_new) = 124 \<and> 28.59 < jump_apex \<and> jump_apex < 28.6"
proof -
  have r: "cat_reach (Cat_update jump_keys Cat_new)"
    by (intro cat_reach.intros)
  from cat_stays_in_field [OF r] r show ?thesis
    by (simp add: jump_apex_value) (simp add: cat_eval)
qed

end
