(* ===== verification/Obstacles.thy ===== *)
theory Obstacles
  imports Config
begin

text \<open>
  The obstacles: class \<^verbatim>\<open>Obstacle\<close> of \<^verbatim>\<open>src/index.tsx\<close> (lines 155 to 216; the
  \<^verbatim>\<open>draw\<close> methods belong to the rendering).

  The record \<open>Obstacle\<close> has the fields of the class, with \<^verbatim>\<open>x\<close>, \<^verbatim>\<open>y\<close>, \<^verbatim>\<open>w\<close>,
  \<^verbatim>\<open>h\<close> and \<^verbatim>\<open>type\<close> prefixed by \<open>obs_\<close>. The constructor \<open>Obstacle_new\<close> takes
  the random source and returns what is left of it: a cactus and a trash can
  take two draws (group size, then height), a bird one (its altitude). The
  \<^verbatim>\<open>default\<close> branch of the constructor's \<^verbatim>\<open>switch\<close> has no counterpart: the
  type \<^verbatim>\<open>ObstacleType\<close> has three members and the datatype three constructors.
  \<open>Obstacle_update\<close> is the method \<^verbatim>\<open>update\<close>; the global \<^verbatim>\<open>gameSpeed\<close> it reads
  is its first argument.

  The lemmas show: the geometry of a new obstacle lies in the range of its
  type (\<open>obs_wf\<close>) and \<^verbatim>\<open>update\<close> keeps it there; how many draws the
  constructor takes; the position after any number of updates; and that the
  deletion mark is set exactly when the right edge has left the field and is
  never cleared.
\<close>

section \<open>State\<close>

record Obstacle =
  obs_x :: real
  obs_y :: real
  obs_w :: real
  obs_h :: real
  obs_type :: ObstacleType
  markedForDeletion :: bool
  groupSize :: int

section \<open>Constructor\<close>

fun Obstacle_new :: "real \<Rightarrow> ObstacleType \<Rightarrow> rng \<Rightarrow> Obstacle \<times> rng" where
  "Obstacle_new x0 CACTUS g =
     (let (r1, g1) = Math_random g;
          n = \<lfloor>r1 * 3\<rfloor> + 1;
          (r2, g2) = Math_random g1;
          h = 35 + r2 * 20
      in (\<lparr>obs_x = x0, obs_y = GROUND_Y - h, obs_w = 20 * of_int n, obs_h = h,
           obs_type = CACTUS, markedForDeletion = False, groupSize = n\<rparr>, g2))"
| "Obstacle_new x0 TRASH_CAN g =
     (let (r1, g1) = Math_random g;
          n = \<lfloor>r1 * 2\<rfloor> + 1;
          (r2, g2) = Math_random g1;
          h = 30 + r2 * 10
      in (\<lparr>obs_x = x0, obs_y = GROUND_Y - h, obs_w = 30 * of_int n, obs_h = h,
           obs_type = TRASH_CAN, markedForDeletion = False, groupSize = n\<rparr>, g2))"
| "Obstacle_new x0 BIRD g =
     (let (r1, g1) = Math_random g
      in (\<lparr>obs_x = x0, obs_y = GROUND_Y - 50 - r1 * 20, obs_w = 40, obs_h = 25,
           obs_type = BIRD, markedForDeletion = False, groupSize = 1\<rparr>, g1))"

section \<open>The update method\<close>

definition speedMultiplier :: "ObstacleType \<Rightarrow> real" where
  "speedMultiplier ty = (if ty = BIRD then 1.2 else 1.0)"

definition Obstacle_update :: "real \<Rightarrow> Obstacle \<Rightarrow> Obstacle" where
  "Obstacle_update speed ob =
     (let ob1 = ob\<lparr>obs_x := obs_x ob - speed * speedMultiplier (obs_type ob)\<rparr>
      in if obs_x ob1 + obs_w ob1 < 0 then ob1\<lparr>markedForDeletion := True\<rparr> else ob1)"

lemmas [obs_defs] = speedMultiplier_def Obstacle_update_def

section \<open>Geometry by type\<close>

text \<open>
  The ranges the constructor draws from. A cactus or a trash can stands on
  the ground line; a bird hangs with its top edge between 70 (exclusive) and
  50 (inclusive) pixels above it.
\<close>

fun type_geometry :: "ObstacleType \<Rightarrow> int \<Rightarrow> real \<Rightarrow> real \<Rightarrow> real \<Rightarrow> bool" where
  "type_geometry CACTUS n w h y \<longleftrightarrow>
     n \<in> {1, 2, 3} \<and> w = 20 * of_int n \<and> 35 \<le> h \<and> h < 55 \<and> y = GROUND_Y - h"
| "type_geometry TRASH_CAN n w h y \<longleftrightarrow>
     n \<in> {1, 2} \<and> w = 30 * of_int n \<and> 30 \<le> h \<and> h < 40 \<and> y = GROUND_Y - h"
| "type_geometry BIRD n w h y \<longleftrightarrow>
     n = 1 \<and> w = 40 \<and> h = 25 \<and> GROUND_Y - 70 < y \<and> y \<le> GROUND_Y - 50"

definition obs_wf :: "Obstacle \<Rightarrow> bool" where
  "obs_wf ob \<longleftrightarrow>
     type_geometry (obs_type ob) (groupSize ob) (obs_w ob) (obs_h ob) (obs_y ob)"

lemmas [inv_defs] = obs_wf_def

section \<open>The constructor, case by case\<close>

lemma Obstacle_new_CACTUS:
  "Obstacle_new x0 CACTUS g =
     (\<lparr>obs_x = x0, obs_y = GROUND_Y - (35 + shd (stl g) * 20),
       obs_w = 20 * of_int (\<lfloor>shd g * 3\<rfloor> + 1), obs_h = 35 + shd (stl g) * 20,
       obs_type = CACTUS, markedForDeletion = False, groupSize = \<lfloor>shd g * 3\<rfloor> + 1\<rparr>,
      stl (stl g))"
  by (simp add: Math_random_def Let_def)

lemma Obstacle_new_TRASH_CAN:
  "Obstacle_new x0 TRASH_CAN g =
     (\<lparr>obs_x = x0, obs_y = GROUND_Y - (30 + shd (stl g) * 10),
       obs_w = 30 * of_int (\<lfloor>shd g * 2\<rfloor> + 1), obs_h = 30 + shd (stl g) * 10,
       obs_type = TRASH_CAN, markedForDeletion = False, groupSize = \<lfloor>shd g * 2\<rfloor> + 1\<rparr>,
      stl (stl g))"
  by (simp add: Math_random_def Let_def)

lemma Obstacle_new_BIRD:
  "Obstacle_new x0 BIRD g =
     (\<lparr>obs_x = x0, obs_y = GROUND_Y - 50 - shd g * 20, obs_w = 40, obs_h = 25,
       obs_type = BIRD, markedForDeletion = False, groupSize = 1\<rparr>,
      stl g)"
  by (simp add: Math_random_def Let_def)

lemmas Obstacle_new_eqs = Obstacle_new_CACTUS Obstacle_new_TRASH_CAN Obstacle_new_BIRD

declare Obstacle_new.simps [simp del]

lemma Obstacle_new_fields [simp]:
  "obs_x (fst (Obstacle_new x0 ty g)) = x0"
  "obs_type (fst (Obstacle_new x0 ty g)) = ty"
  "\<not> markedForDeletion (fst (Obstacle_new x0 ty g))"
  by (cases ty; simp add: Obstacle_new_eqs)+

lemma Obstacle_new_rng [simp]:
  "snd (Obstacle_new x0 ty g) = (if ty = BIRD then stl g else stl (stl g))"
  by (cases ty) (simp_all add: Obstacle_new_eqs)

lemma Obstacle_new_wf:
  assumes "rng_ok g"
  shows "obs_wf (fst (Obstacle_new x0 ty g))"
proof (cases ty)
  case CACTUS
  from assms have "rng_ok (stl g)" by simp
  then have "0 \<le> shd (stl g) * 20 \<and> shd (stl g) * 20 < 20"
    by (intro scaled_draw_range) simp_all
  with CACTUS floor_draw3 [OF assms] show ?thesis
    by (auto simp: Obstacle_new_eqs obs_wf_def)
next
  case TRASH_CAN
  from assms have "rng_ok (stl g)" by simp
  then have "0 \<le> shd (stl g) * 10 \<and> shd (stl g) * 10 < 10"
    by (intro scaled_draw_range) simp_all
  with TRASH_CAN floor_draw2 [OF assms] show ?thesis
    by (auto simp: Obstacle_new_eqs obs_wf_def)
next
  case BIRD
  from assms have "0 \<le> shd g * 20 \<and> shd g * 20 < 20"
    by (intro scaled_draw_range) simp_all
  with BIRD show ?thesis
    by (simp add: Obstacle_new_eqs obs_wf_def)
qed

text \<open>
  \<^bold>\<open>C5.\<close> Every obstacle the constructor builds has the geometry of its
  type: a cactus is a group of 1 to 3 units of width 20 and a height in
  \<open>[35, 55)\<close>, a trash can a group of 1 or 2 units of width 30 and a height in
  \<open>[30, 40)\<close>, both standing on the ground line; a bird is 40 by 25 with its
  top edge in \<open>(GROUND_Y - 70, GROUND_Y - 50]\<close>. It starts at the column it
  was given, unmarked, and the draws left over are again draws from \<open>[0, 1)\<close>.
\<close>

theorem new_obstacle_geometry:
  assumes "rng_ok g"
  shows "obs_wf (fst (Obstacle_new x0 ty g)) \<and> obs_x (fst (Obstacle_new x0 ty g)) = x0 \<and>
         obs_type (fst (Obstacle_new x0 ty g)) = ty \<and>
         \<not> markedForDeletion (fst (Obstacle_new x0 ty g)) \<and>
         rng_ok (snd (Obstacle_new x0 ty g))"
  using assms by (simp add: Obstacle_new_wf)

theorem new_obstacle_geometry_witness:
  "rng_ok (sconst (1 / 2)) \<and>
   obs_wf (fst (Obstacle_new 800 CACTUS (sconst (1 / 2)))) \<and>
   fst (Obstacle_new 800 CACTUS (sconst (1 / 2))) =
     \<lparr>obs_x = 800, obs_y = 130, obs_w = 40, obs_h = 45, obs_type = CACTUS,
      markedForDeletion = False, groupSize = 2\<rparr>"
  using new_obstacle_geometry [of "sconst (1 / 2)" 800 CACTUS]
  by (simp add: Obstacle_new_eqs game_consts)

text \<open>
  The constructor takes one draw for a bird and two for a cactus or
  a trash can, whatever their values.
\<close>

theorem constructor_draws:
  "snd (Obstacle_new x0 ty g) = sdrop (if ty = BIRD then 1 else 2) g"
  by (simp add: numeral_2_eq_2)

section \<open>The update method, field by field\<close>

lemma Obstacle_update_fields [simp]:
  "obs_x (Obstacle_update s ob) = obs_x ob - s * speedMultiplier (obs_type ob)"
  "obs_y (Obstacle_update s ob) = obs_y ob"
  "obs_w (Obstacle_update s ob) = obs_w ob"
  "obs_h (Obstacle_update s ob) = obs_h ob"
  "obs_type (Obstacle_update s ob) = obs_type ob"
  "groupSize (Obstacle_update s ob) = groupSize ob"
  "markedForDeletion (Obstacle_update s ob) \<longleftrightarrow>
     markedForDeletion ob \<or> obs_x ob - s * speedMultiplier (obs_type ob) + obs_w ob < 0"
  by (simp_all add: Obstacle_update_def Let_def)

lemma Obstacle_update_wf [simp]: "obs_wf (Obstacle_update s ob) = obs_wf ob"
  by (simp add: obs_wf_def)

lemma speedMultiplier_pos [simp]:
  "0 < speedMultiplier ty" "0 \<le> speedMultiplier ty" "1 \<le> speedMultiplier ty"
  by (simp_all add: speedMultiplier_def)

lemma obs_wf_width: "obs_wf ob \<Longrightarrow> 20 \<le> obs_w ob \<and> obs_w ob \<le> 60"
  by (cases "obs_type ob") (auto simp: obs_wf_def)

lemma obs_wf_height: "obs_wf ob \<Longrightarrow> 25 \<le> obs_h ob \<and> obs_h ob < 55"
  by (cases "obs_type ob") (auto simp: obs_wf_def)

lemma obs_wf_bottom:
  "obs_wf ob \<Longrightarrow> obs_y ob + obs_h ob =
     (if obs_type ob = BIRD then obs_y ob + 25 else GROUND_Y)"
  by (cases "obs_type ob") (auto simp: obs_wf_def)

lemma Obstacle_update_funpow_x:
  "obs_x ((Obstacle_update s ^^ n) ob) = obs_x ob - real n * s * speedMultiplier (obs_type ob)"
proof (induction n)
  case 0 show ?case by simp
next
  case (Suc n)
  have "obs_type ((Obstacle_update s ^^ n) ob) = obs_type ob"
    by (induction n) simp_all
  with Suc show ?case by (simp add: algebra_simps)
qed

lemma marked_stays:
  "markedForDeletion ob \<Longrightarrow> markedForDeletion ((Obstacle_update s ^^ n) ob)"
  by (induction n) simp_all

section \<open>Movement and retirement\<close>

lemma Obstacle_update_eq:
  "Obstacle_update s ob =
     ob\<lparr>obs_x := obs_x ob - s * speedMultiplier (obs_type ob),
        markedForDeletion :=
          markedForDeletion ob \<or> obs_x ob - s * speedMultiplier (obs_type ob) + obs_w ob < 0\<rparr>"
  by (rule Obstacle.equality) simp_all

lemma Obstacle_update_funpow_fields [simp]:
  "obs_y ((Obstacle_update s ^^ n) ob) = obs_y ob"
  "obs_w ((Obstacle_update s ^^ n) ob) = obs_w ob"
  "obs_h ((Obstacle_update s ^^ n) ob) = obs_h ob"
  "obs_type ((Obstacle_update s ^^ n) ob) = obs_type ob"
  "groupSize ((Obstacle_update s ^^ n) ob) = groupSize ob"
  by (induction n) simp_all

lemma Obstacle_update_funpow_marked:
  assumes "0 \<le> s"
  shows "markedForDeletion ((Obstacle_update s ^^ n) ob) \<longleftrightarrow>
     markedForDeletion ob \<or>
     (0 < n \<and> obs_x ob + obs_w ob < real n * s * speedMultiplier (obs_type ob))"
proof (induction n)
  case 0 show ?case by simp
next
  case (Suc n)
  have mono: "real n * s * speedMultiplier (obs_type ob) \<le> real (Suc n) * s * speedMultiplier (obs_type ob)"
    using assms by (simp add: algebra_simps)
  show ?case
    using Suc mono by (auto simp: Obstacle_update_funpow_x algebra_simps)
qed

lemma every_obstacle_retires:
  assumes "0 < s"
  shows "\<exists>n. markedForDeletion ((Obstacle_update s ^^ n) ob)"
proof -
  let ?v = "s * speedMultiplier (obs_type ob)"
  have v: "0 < ?v" using assms by simp
  then obtain n :: nat where "obs_x ob + obs_w ob < real n * ?v"
    using reals_Archimedean3 by blast
  with v have "obs_x ob + obs_w ob < real (Suc n) * s * speedMultiplier (obs_type ob)"
    by (simp add: algebra_simps)
  then have "markedForDeletion ((Obstacle_update s ^^ Suc n) ob)"
    using assms by (subst Obstacle_update_funpow_marked) simp_all
  then show ?thesis ..
qed

text \<open>
  One call of \<^verbatim>\<open>update\<close> moves the obstacle left by the game speed,
  times 1.2 for a bird, and sets the deletion mark when the right edge is then
  left of the field; it changes nothing else and never clears the mark.
\<close>

theorem update_moves_and_marks:
  "Obstacle_update s ob =
     ob\<lparr>obs_x := obs_x ob - s * (if obs_type ob = BIRD then 1.2 else 1),
        markedForDeletion :=
          markedForDeletion ob \<or>
          obs_x ob - s * (if obs_type ob = BIRD then 1.2 else 1) + obs_w ob < 0\<rparr>"
  by (simp add: Obstacle_update_eq speedMultiplier_def)

text \<open>
  \<^bold>\<open>C31.\<close> Retirement. At a speed that is not negative, an unmarked obstacle
  is marked after \<open>n\<close> updates exactly when \<open>n\<close> steps take its right edge
  past the left edge of the field; the mark, once set, stays.
\<close>

theorem retired_exactly_when_off_field:
  assumes "0 \<le> s"
  shows "markedForDeletion ((Obstacle_update s ^^ n) ob) \<longleftrightarrow>
     markedForDeletion ob \<or>
     (0 < n \<and> obs_x ob + obs_w ob < real n * s * speedMultiplier (obs_type ob))"
  using assms by (rule Obstacle_update_funpow_marked)

theorem retired_exactly_when_off_field_witness:
  "(0::real) \<le> 5 \<and>
   \<not> markedForDeletion ((Obstacle_update 5 ^^ 168) (fst (Obstacle_new 800 CACTUS (sconst (1 / 2))))) \<and>
   markedForDeletion ((Obstacle_update 5 ^^ 169) (fst (Obstacle_new 800 CACTUS (sconst (1 / 2)))))"
  using retired_exactly_when_off_field [of 5 168 "fst (Obstacle_new 800 CACTUS (sconst (1 / 2)))"]
    retired_exactly_when_off_field [of 5 169 "fst (Obstacle_new 800 CACTUS (sconst (1 / 2)))"]
  by (simp add: Obstacle_new_eqs speedMultiplier_def)

text \<open>
  \<^bold>\<open>C35.\<close> Every obstacle leaves: at any positive speed there is a number of
  updates after which the obstacle is marked for deletion.
\<close>

theorem obstacle_eventually_retired:
  assumes "0 < s"
  shows "\<exists>n. markedForDeletion ((Obstacle_update s ^^ n) ob)"
  using assms by (rule every_obstacle_retires)

theorem obstacle_eventually_retired_witness:
  "(0::real) < 5 \<and>
   (\<exists>n. markedForDeletion ((Obstacle_update 5 ^^ n) (fst (Obstacle_new 800 BIRD (sconst 0)))))"
  using obstacle_eventually_retired [of 5 "fst (Obstacle_new 800 BIRD (sconst 0))"] by simp

end
