(* ===== verification/Collision.thy ===== *)
theory Collision
  imports Cat_Player Obstacles
begin

text \<open>
  The collision test: function \<^verbatim>\<open>checkCollision\<close> of \<^verbatim>\<open>src/index.tsx\<close> (lines
  370 to 382), an overlap test of two axis-aligned boxes, the cat's shrunk by
  5 pixels on every side and the obstacle's by 4.

  \<open>checkCollision\<close> is the function as written. Its specification is stated
  over boxes: \<open>shrink\<close> moves every side of a box inwards, \<open>inside\<close> says that a
  point lies strictly within a box, \<open>overlaps\<close> that two boxes intersect in
  both axes. The lemmas show that the function is the overlap test of the two
  shrunk boxes, that for well-formed cats and obstacles this is the existence
  of a common inner point, that the test is symmetric and strict at the
  margins, and what it means for the game: which obstacles a cat on the
  ground hits, and that a retired obstacle is never hit.
\<close>

section \<open>The function\<close>

definition catMargin :: real where
  "catMargin = 5"

definition obsMargin :: real where
  "obsMargin = 4"

definition checkCollision :: "Cat \<Rightarrow> Obstacle \<Rightarrow> bool" where
  "checkCollision c ob \<longleftrightarrow>
     cat_x c + catMargin < obs_x ob + obs_w ob - obsMargin \<and>
     cat_x c + cat_w c - catMargin > obs_x ob + obsMargin \<and>
     cat_y c + catMargin < obs_y ob + obs_h ob - obsMargin \<and>
     cat_y c + cat_h c - catMargin > obs_y ob + obsMargin"

lemmas [game_consts] = catMargin_def obsMargin_def

section \<open>Boxes\<close>

text \<open>A box is its left edge, its top edge, its width and its height.\<close>

type_synonym box = "real \<times> real \<times> real \<times> real"

fun shrink :: "real \<Rightarrow> box \<Rightarrow> box" where
  "shrink m (x, y, w, h) = (x + m, y + m, w - 2 * m, h - 2 * m)"

fun inside :: "box \<Rightarrow> real \<times> real \<Rightarrow> bool" where
  "inside (x, y, w, h) (p, q) \<longleftrightarrow> x < p \<and> p < x + w \<and> y < q \<and> q < y + h"

fun overlaps :: "box \<Rightarrow> box \<Rightarrow> bool" where
  "overlaps (x1, y1, w1, h1) (x2, y2, w2, h2) \<longleftrightarrow>
     x1 < x2 + w2 \<and> x2 < x1 + w1 \<and> y1 < y2 + h2 \<and> y2 < y1 + h1"

definition cat_box :: "Cat \<Rightarrow> box" where
  "cat_box c = (cat_x c, cat_y c, cat_w c, cat_h c)"

definition obs_box :: "Obstacle \<Rightarrow> box" where
  "obs_box ob = (obs_x ob, obs_y ob, obs_w ob, obs_h ob)"

definition proper :: "box \<Rightarrow> bool" where
  "proper b \<longleftrightarrow> (case b of (x, y, w, h) \<Rightarrow> 0 < w \<and> 0 < h)"

text \<open>
  The columns in which an obstacle can touch the cat: the horizontal half of
  the test for a cat that stands at its fixed column.
\<close>

definition hits_x :: "Obstacle \<Rightarrow> bool" where
  "hits_x ob \<longleftrightarrow> CAT_X + catMargin + obsMargin - obs_w ob < obs_x ob \<and>
     obs_x ob < CAT_X + CAT_WIDTH - catMargin - obsMargin"

section \<open>Specification and consequences\<close>

lemma overlaps_sym: "overlaps a b = overlaps b a"
  by (cases a; cases b) auto

lemma overlaps_common_point:
  assumes "proper a" "proper b"
  shows "overlaps a b \<longleftrightarrow> (\<exists>pt. inside a pt \<and> inside b pt)"
proof
  assume ov: "overlaps a b"
  obtain x1 y1 w1 h1 where a: "a = (x1, y1, w1, h1)" by (cases a)
  obtain x2 y2 w2 h2 where b: "b = (x2, y2, w2, h2)" by (cases b)
  let ?p = "(max x1 x2 + min (x1 + w1) (x2 + w2)) / 2"
  let ?q = "(max y1 y2 + min (y1 + h1) (y2 + h2)) / 2"
  from ov assms have "inside a (?p, ?q) \<and> inside b (?p, ?q)"
    unfolding a b proper_def by (auto simp: max_def min_def field_simps)
  then show "\<exists>pt. inside a pt \<and> inside b pt" by blast
next
  assume "\<exists>pt. inside a pt \<and> inside b pt"
  then obtain p q where "inside a (p, q)" "inside b (p, q)" by auto
  then show "overlaps a b" by (cases a; cases b) auto
qed

lemma checkCollision_overlaps:
  "checkCollision c ob = overlaps (shrink catMargin (cat_box c)) (shrink obsMargin (obs_box ob))"
  by (auto simp: checkCollision_def cat_box_def obs_box_def)

lemma proper_cat: "cat_wf c \<Longrightarrow> proper (shrink catMargin (cat_box c))"
  by (simp add: proper_def cat_box_def cat_wf_def cat_height_def game_consts)

lemma proper_obs: "obs_wf ob \<Longrightarrow> proper (shrink obsMargin (obs_box ob))"
  using obs_wf_width [of ob] obs_wf_height [of ob]
  by (simp add: proper_def obs_box_def game_consts)

lemma checkCollision_touching:
  assumes "cat_x c + cat_w c - catMargin = obs_x ob + obsMargin \<or>
           obs_x ob + obs_w ob - obsMargin = cat_x c + catMargin \<or>
           cat_y c + cat_h c - catMargin = obs_y ob + obsMargin \<or>
           obs_y ob + obs_h ob - obsMargin = cat_y c + catMargin"
  shows "\<not> checkCollision c ob"
  using assms by (auto simp: checkCollision_def)

lemma checkCollision_grounded:
  assumes "cat_wf c" "isGrounded c" "obs_wf ob"
  shows "checkCollision c ob \<longleftrightarrow>
     hits_x ob \<and> (obs_type ob = BIRD \<longrightarrow> \<not> isCrouching c \<and> GROUND_Y - 56 < obs_y ob)"
  using assms
  by (cases "obs_type ob")
     (auto simp: checkCollision_def hits_x_def cat_wf_def cat_height_def obs_wf_def game_consts
           split: if_splits)

lemma checkCollision_off_field:
  assumes "cat_x c = CAT_X" "obs_x ob + obs_w ob < 0"
  shows "\<not> checkCollision c ob"
  using assms by (simp add: checkCollision_def game_consts)

text \<open>
  \<^verbatim>\<open>checkCollision\<close> is the overlap test of the cat's box shrunk by 5
  and the obstacle's box shrunk by 4, and the test does not depend on the
  order of the two boxes.
\<close>

theorem collision_is_box_overlap:
  "checkCollision c ob =
     overlaps (shrink catMargin (cat_box c)) (shrink obsMargin (obs_box ob)) \<and>
   checkCollision c ob =
     overlaps (shrink obsMargin (obs_box ob)) (shrink catMargin (cat_box c))"
  using overlaps_sym checkCollision_overlaps by simp

text \<open>
  \<^bold>\<open>C3.\<close> For a well-formed cat and a well-formed obstacle, a collision is
  reported exactly when some point lies strictly inside both shrunk boxes.
\<close>

theorem collision_iff_common_point:
  assumes "cat_wf c" and "obs_wf ob"
  shows "checkCollision c ob \<longleftrightarrow>
     (\<exists>pt. inside (shrink catMargin (cat_box c)) pt \<and>
           inside (shrink obsMargin (obs_box ob)) pt)"
  using assms
  by (simp add: checkCollision_overlaps overlaps_common_point proper_cat proper_obs)

theorem collision_iff_common_point_witness:
  "cat_wf Cat_new \<and> obs_wf (fst (Obstacle_new 60 CACTUS (sconst (1 / 2)))) \<and>
   checkCollision Cat_new (fst (Obstacle_new 60 CACTUS (sconst (1 / 2)))) \<and>
   (\<exists>pt. inside (shrink catMargin (cat_box Cat_new)) pt \<and>
         inside (shrink obsMargin (obs_box (fst (Obstacle_new 60 CACTUS (sconst (1 / 2)))))) pt)"
proof -
  have wf: "obs_wf (fst (Obstacle_new 60 CACTUS (sconst (1 / 2))))"
    by (rule Obstacle_new_wf) simp
  have hit: "checkCollision Cat_new (fst (Obstacle_new 60 CACTUS (sconst (1 / 2))))"
    by (simp add: checkCollision_def Obstacle_new_eqs Cat_new_def game_consts)
  from collision_iff_common_point [OF cat_wf_new wf] hit cat_wf_new wf
  show ?thesis by simp
qed

text \<open>
  The margins are strict: when an edge of the shrunk cat box lies
  exactly on the facing edge of the shrunk obstacle box, in either axis, no
  collision is reported.
\<close>

theorem no_collision_at_margin:
  assumes "cat_x c + cat_w c - catMargin = obs_x ob + obsMargin \<or>
           obs_x ob + obs_w ob - obsMargin = cat_x c + catMargin \<or>
           cat_y c + cat_h c - catMargin = obs_y ob + obsMargin \<or>
           obs_y ob + obs_h ob - obsMargin = cat_y c + catMargin"
  shows "\<not> checkCollision c ob"
  using assms by (rule checkCollision_touching)

theorem no_collision_at_margin_witness:
  "cat_x Cat_new + cat_w Cat_new - catMargin =
     obs_x (fst (Obstacle_new 85 CACTUS (sconst (1 / 2)))) + obsMargin \<and>
   \<not> checkCollision Cat_new (fst (Obstacle_new 85 CACTUS (sconst (1 / 2)))) \<and>
   checkCollision Cat_new (fst (Obstacle_new 84 CACTUS (sconst (1 / 2))))"
proof -
  have e: "cat_x Cat_new + cat_w Cat_new - catMargin =
      obs_x (fst (Obstacle_new 85 CACTUS (sconst (1 / 2)))) + obsMargin"
    by (simp add: Cat_new_def game_consts)
  then have "\<not> checkCollision Cat_new (fst (Obstacle_new 85 CACTUS (sconst (1 / 2))))"
    by (intro no_collision_at_margin) simp
  with e show ?thesis
    by (simp add: checkCollision_def Obstacle_new_eqs Cat_new_def game_consts)
qed

text \<open>
  \<^bold>\<open>C30.\<close> What a cat on the ground hits. A cactus or a trash can in the
  columns \<open>hits_x\<close> is always hit: it has to be jumped. A bird in those columns
  is hit only by a standing cat, and only when the bird's top edge is less
  than 56 pixels above the ground line; a crouching cat is never hit by a
  bird, and a standing cat is not hit by a bird that flies higher.
\<close>

theorem grounded_cat_collisions:
  assumes "cat_wf c" and "isGrounded c" and "obs_wf ob"
  shows "checkCollision c ob \<longleftrightarrow>
     hits_x ob \<and> (obs_type ob = BIRD \<longrightarrow> \<not> isCrouching c \<and> GROUND_Y - 56 < obs_y ob)"
  using assms by (rule checkCollision_grounded)

theorem grounded_cat_collisions_witness:
  "cat_wf Cat_new \<and> isGrounded Cat_new \<and>
   obs_wf (fst (Obstacle_new 60 BIRD (sconst (1 / 2)))) \<and>
   hits_x (fst (Obstacle_new 60 BIRD (sconst (1 / 2)))) \<and>
   obs_y (fst (Obstacle_new 60 BIRD (sconst (1 / 2)))) = 115 \<and>
   \<not> checkCollision Cat_new (fst (Obstacle_new 60 BIRD (sconst (1 / 2))))"
proof -
  have wf: "obs_wf (fst (Obstacle_new 60 BIRD (sconst (1 / 2))))"
    by (rule Obstacle_new_wf) simp
  have g: "isGrounded Cat_new" by (simp add: Cat_new_def)
  from grounded_cat_collisions [OF cat_wf_new g wf] cat_wf_new g wf
  show ?thesis by (simp add: Obstacle_new_eqs hits_x_def game_consts)
qed

text \<open>
  An obstacle is never hit in the frame that retires it: if
  \<^verbatim>\<open>update\<close> sets the deletion mark of an obstacle that was not marked, the
  test that follows it in the game loop reports no collision with a cat at
  its fixed column.
\<close>

theorem retired_never_hit:
  assumes "cat_x c = CAT_X" and "\<not> markedForDeletion ob"
    and "markedForDeletion (Obstacle_update s ob)"
  shows "\<not> checkCollision c (Obstacle_update s ob)"
  using assms by (intro checkCollision_off_field) simp_all

theorem retired_never_hit_witness:
  "cat_x Cat_new = CAT_X \<and>
   \<not> markedForDeletion (fst (Obstacle_new (- 38) CACTUS (sconst (1 / 2)))) \<and>
   markedForDeletion (Obstacle_update 5 (fst (Obstacle_new (- 38) CACTUS (sconst (1 / 2))))) \<and>
   \<not> checkCollision Cat_new (Obstacle_update 5 (fst (Obstacle_new (- 38) CACTUS (sconst (1 / 2)))))"
proof -
  have m: "markedForDeletion (Obstacle_update 5 (fst (Obstacle_new (- 38) CACTUS (sconst (1 / 2)))))"
    by (simp add: Obstacle_new_eqs speedMultiplier_def)
  have x: "cat_x Cat_new = CAT_X" by (simp add: Cat_new_def)
  from retired_never_hit [OF x _ m] x m show ?thesis by simp
qed

end
