(* ===== verification/Spawner.thy ===== *)
theory Spawner
  imports Obstacles
begin

text \<open>
  The spawn policy: function \<^verbatim>\<open>spawnObstacle\<close> of \<^verbatim>\<open>src/index.tsx\<close> (lines 311
  to 341), called once per frame.

  The function reads the globals \<^verbatim>\<open>gameSpeed\<close> and \<^verbatim>\<open>obstacles\<close> and draws from
  \<^verbatim>\<open>Math.random\<close>; in the model these are its three arguments, and it returns
  the new list and what is left of the random source. \<open>lastObs\<close> is the read
  of the last array element, which is \<^verbatim>\<open>undefined\<close> for the empty array;
  \<open>chooseType\<close> is the chain of conditions that picks the type; \<open>spawn_emit\<close>
  is the body of the \<^verbatim>\<open>if\<close>, \<open>spawnObstacle\<close> the whole function.

  The lemmas show: at most one obstacle is added per call, at the right edge,
  well formed and behind all others; when one is added to a non-empty list the
  last obstacle is further than \<open>250 + 15 * speed\<close> from the right edge; when
  the list is empty or the gap exceeds \<open>450 + 15 * speed\<close> one is always added;
  and that no bird is chosen while the speed is at most 5.2.
\<close>

section \<open>The function\<close>

definition lastObs :: "Obstacle list \<Rightarrow> Obstacle option" where
  "lastObs obs = (if obs = [] then None else Some (last obs))"

definition chooseType :: "real \<Rightarrow> real \<Rightarrow> ObstacleType" where
  "chooseType speed rand =
     (if speed > 5.2 \<and> rand > 0.7 then BIRD
      else if rand > 0.5 then TRASH_CAN
      else CACTUS)"

definition spawn_emit :: "real \<Rightarrow> Obstacle list \<Rightarrow> rng \<Rightarrow> Obstacle list \<times> rng" where
  "spawn_emit speed obs g =
     (let (rand, g1) = Math_random g;
          ty = chooseType speed rand;
          (ob, g2) = Obstacle_new GAME_WIDTH ty g1
      in (obs @ [ob], g2))"

definition spawnObstacle :: "real \<Rightarrow> Obstacle list \<Rightarrow> rng \<Rightarrow> Obstacle list \<times> rng" where
  "spawnObstacle speed obs g =
     (let (r0, g1) = Math_random g;
          minGap = 250 + r0 * 200 + speed * 15
      in case lastObs obs of
           None \<Rightarrow> spawn_emit speed obs g1
         | Some l \<Rightarrow>
             if GAME_WIDTH - obs_x l > minGap then spawn_emit speed obs g1 else (obs, g1))"

lemmas [loop_defs] = lastObs_def chooseType_def spawn_emit_def spawnObstacle_def

text \<open>
  The condition under which a call adds an obstacle, and the obstacle it then
  adds, in terms of the draws.
\<close>

definition spawns :: "real \<Rightarrow> Obstacle list \<Rightarrow> rng \<Rightarrow> bool" where
  "spawns speed obs g \<longleftrightarrow>
     obs = [] \<or> GAME_WIDTH - obs_x (last obs) > 250 + shd g * 200 + speed * 15"

definition spawned :: "real \<Rightarrow> rng \<Rightarrow> Obstacle" where
  "spawned speed g =
     fst (Obstacle_new GAME_WIDTH (chooseType speed (shd (stl g))) (stl (stl g)))"

section \<open>The function in terms of the draws\<close>

lemma spawn_emit_eq:
  "spawn_emit speed obs g =
     (obs @ [fst (Obstacle_new GAME_WIDTH (chooseType speed (shd g)) (stl g))],
      snd (Obstacle_new GAME_WIDTH (chooseType speed (shd g)) (stl g)))"
  by (simp add: spawn_emit_def Math_random_def Let_def split_beta)

lemma spawnObstacle_eq:
  "spawnObstacle speed obs g =
     (if spawns speed obs g
      then (obs @ [spawned speed g],
            snd (Obstacle_new GAME_WIDTH (chooseType speed (shd (stl g))) (stl (stl g))))
      else (obs, stl g))"
  by (auto simp: spawnObstacle_def spawns_def spawned_def lastObs_def spawn_emit_eq
      Math_random_def Let_def)

lemma spawnObstacle_rng_ok [simp]:
  "rng_ok g \<Longrightarrow> rng_ok (snd (spawnObstacle speed obs g))"
  by (simp add: spawnObstacle_eq)

lemma spawned_fields [simp]:
  "obs_x (spawned speed g) = GAME_WIDTH"
  "\<not> markedForDeletion (spawned speed g)"
  "obs_type (spawned speed g) = chooseType speed (shd (stl g))"
  by (simp_all add: spawned_def)

lemma spawned_wf [simp]: "rng_ok g \<Longrightarrow> obs_wf (spawned speed g)"
  by (simp add: spawned_def Obstacle_new_wf)

lemma spawns_gap:
  assumes "rng_ok g" "spawns speed obs g" "obs \<noteq> []"
  shows "250 + speed * 15 < GAME_WIDTH - obs_x (last obs)"
proof -
  from assms(1) have "0 \<le> shd g * 200" by simp
  with assms(2,3) show ?thesis by (simp add: spawns_def)
qed

lemma spawns_certain:
  assumes "rng_ok g" "obs = [] \<or> 450 + speed * 15 \<le> GAME_WIDTH - obs_x (last obs)"
  shows "spawns speed obs g"
proof -
  from assms(1) have "shd g * 200 < 200" by simp
  with assms(2) show ?thesis by (auto simp: spawns_def)
qed

lemma chooseType_no_bird: "speed \<le> 5.2 \<Longrightarrow> chooseType speed r \<noteq> BIRD"
  by (simp add: chooseType_def)

text \<open>
  \<^bold>\<open>C32.\<close> One call of \<^verbatim>\<open>spawnObstacle\<close> leaves the list as it is or appends
  one obstacle to it. The obstacle appended stands at the right edge of the
  field, is not marked for deletion and has the geometry of its type; the
  draws left over are again draws from \<open>[0, 1)\<close>. A call on an empty list
  always appends.
\<close>

theorem spawn_appends_at_most_one:
  assumes "rng_ok g"
  shows "fst (spawnObstacle speed obs g) =
           (if spawns speed obs g then obs @ [spawned speed g] else obs) \<and>
         obs_x (spawned speed g) = GAME_WIDTH \<and> obs_wf (spawned speed g) \<and>
         \<not> markedForDeletion (spawned speed g) \<and>
         rng_ok (snd (spawnObstacle speed obs g)) \<and>
         fst (spawnObstacle speed [] g) = [spawned speed g]"
  using assms by (simp add: spawnObstacle_eq spawns_def)

theorem spawn_appends_at_most_one_witness:
  "rng_ok (sconst (1 / 2)) \<and>
   fst (spawnObstacle 5 [] (sconst (1 / 2))) =
     [\<lparr>obs_x = 800, obs_y = 130, obs_w = 40, obs_h = 45, obs_type = CACTUS,
       markedForDeletion = False, groupSize = 2\<rparr>]"
  using spawn_appends_at_most_one [of "sconst (1 / 2)" 5 "[]"]
  by (simp add: spawns_def spawned_def chooseType_def Obstacle_new_eqs game_consts)

text \<open>
  \<^bold>\<open>C4.\<close> The spawn gap. When a call appends an obstacle to a list that is
  not empty, the last obstacle of the list is further than
  \<open>250 + 15 * speed\<close> from the right edge, where the new one stands; and when
  the last obstacle is at least \<open>450 + 15 * speed\<close> from the right edge, the
  call appends whatever the draw.
\<close>

theorem spawn_gap_floor:
  assumes "rng_ok g" and "obs \<noteq> []"
  shows "(fst (spawnObstacle speed obs g) \<noteq> obs \<longrightarrow>
            250 + 15 * speed < GAME_WIDTH - obs_x (last obs)) \<and>
         (450 + 15 * speed \<le> GAME_WIDTH - obs_x (last obs) \<longrightarrow>
            fst (spawnObstacle speed obs g) \<noteq> obs)"
  using assms spawns_gap [of g speed obs] spawns_certain [of g obs speed]
  by (auto simp: spawnObstacle_eq)

theorem spawn_gap_floor_witness:
  "rng_ok (sconst (1 / 2)) \<and>
   fst (spawnObstacle 5 [fst (Obstacle_new 400 CACTUS (sconst 0))] (sconst (1 / 2))) =
     [fst (Obstacle_new 400 CACTUS (sconst 0))] \<and>
   fst (spawnObstacle 5 [fst (Obstacle_new 300 CACTUS (sconst 0))] (sconst (1 / 2))) \<noteq>
     [fst (Obstacle_new 300 CACTUS (sconst 0))] \<and>
   (250 + 15 * 5 :: real) < GAME_WIDTH - obs_x (last [fst (Obstacle_new 300 CACTUS (sconst 0))])"
  using spawn_gap_floor [of "sconst (1 / 2)" "[fst (Obstacle_new 300 CACTUS (sconst 0))]" 5]
  by (simp add: spawnObstacle_eq spawns_def game_consts)

end
