(* ===== verification/JS_Strings.thy ===== *)
theory JS_Strings
  imports CatJump_Prelude
begin

text \<open>
  The three string functions of the host that \<^verbatim>\<open>src/index.tsx\<close> calls on its
  counters: \<^verbatim>\<open>String(n)\<close>, which prints a number, \<^verbatim>\<open>padStart\<close>, which fills a
  string from the left, and \<^verbatim>\<open>Number(s)\<close>, which reads a number.

  \<^verbatim>\<open>String\<close> is modelled on the natural numbers, where it prints the decimal
  numeral without leading zeros (the host does so for integers below
  \<open>10\<^sup>2\<^sup>1\<close>). \<^verbatim>\<open>Number\<close> is modelled on the strings of decimal digits, where it
  reads the numeral (the empty string as 0, leading zeros allowed, exactly
  below \<open>2\<^sup>5\<^sup>3\<close>); \<open>Number_digits\<close> is \<open>None\<close> on every other string. Of these
  other strings the host reads some as numbers, by its grammar of numeric
  literals with blanks, signs, fractions, exponents, radix prefixes and
  \<^verbatim>\<open>Infinity\<close>, and all the others as \<^verbatim>\<open>NaN\<close>. The grammar is not modelled;
  \<open>literal_char\<close> holds of the characters a literal of the grammar can
  contain, so that a string with any other character is certainly read as
  \<^verbatim>\<open>NaN\<close>.
\<close>

section \<open>Printing and reading\<close>

definition digit_char :: "nat \<Rightarrow> char" where
  "digit_char d = char_of (48 + d)"

fun String_nat :: "nat \<Rightarrow> string" where
  "String_nat n =
     (if n < 10 then [digit_char n] else String_nat (n div 10) @ [digit_char (n mod 10)])"

definition padStart :: "nat \<Rightarrow> char \<Rightarrow> string \<Rightarrow> string" where
  "padStart len c s = replicate (len - length s) c @ s"

definition is_digit :: "char \<Rightarrow> bool" where
  "is_digit c \<longleftrightarrow> (48::nat) \<le> of_char c \<and> of_char c \<le> (57::nat)"

definition digit_val :: "char \<Rightarrow> nat" where
  "digit_val c = of_char c - 48"

definition numeral_val :: "string \<Rightarrow> nat" where
  "numeral_val s = foldl (\<lambda>a c. 10 * a + digit_val c) 0 s"

definition Number_digits :: "string \<Rightarrow> nat option" where
  "Number_digits s = (if list_all is_digit s then Some (numeral_val s) else None)"

definition literal_char :: "char \<Rightarrow> bool" where
  "literal_char c \<longleftrightarrow>
     c \<in> set ''0123456789+-.eEInfityxXoObBaAcCdDfF'' \<or>
     of_char c \<le> (32::nat) \<or> (127::nat) \<le> of_char c"

declare String_nat.simps [simp del]

section \<open>Digits\<close>

lemma digit_char_simps [simp]:
  assumes "d < 10"
  shows "is_digit (digit_char d)" "digit_val (digit_char d) = d"
  using assms by (simp_all add: is_digit_def digit_val_def digit_char_def)

lemma digit_char_inj: "d < 10 \<Longrightarrow> e < 10 \<Longrightarrow> digit_char d = digit_char e \<Longrightarrow> d = e"
  by (metis digit_char_simps(2))

lemma zero_is_digit [simp]: "is_digit (CHR ''0'')" "digit_val (CHR ''0'') = 0"
  by (simp_all add: is_digit_def digit_val_def)

lemma numeral_val_simps [simp]:
  "numeral_val [] = 0"
  "numeral_val (s @ [c]) = 10 * numeral_val s + digit_val c"
  by (simp_all add: numeral_val_def)

lemma numeral_val_zeros [simp]: "numeral_val (replicate k (CHR ''0'') @ s) = numeral_val s"
proof -
  have "foldl (\<lambda>a c. 10 * a + digit_val c) 0 (replicate k (CHR ''0'')) = 0"
    by (induction k) simp_all
  then show ?thesis by (simp add: numeral_val_def)
qed

lemma zeros_are_digits [simp]: "list_all is_digit (replicate k (CHR ''0''))"
  by (induction k) simp_all

section \<open>What \<^verbatim>\<open>String\<close> prints\<close>

lemma String_nat_digits: "list_all is_digit (String_nat n)"
  by (induction n rule: String_nat.induct) (subst String_nat.simps, simp)

lemma String_nat_val: "numeral_val (String_nat n) = n"
proof (induction n rule: String_nat.induct)
  case (1 n)
  show ?case
  proof (cases "n < 10")
    case True
    then show ?thesis
      by (subst String_nat.simps) (simp add: numeral_val_simps(2) [of "[]", simplified])
  next
    case False
    with 1 show ?thesis by (subst String_nat.simps) simp
  qed
qed

lemma String_nat_nonempty [simp]: "String_nat n \<noteq> []"
  by (subst String_nat.simps) simp

lemma String_nat_length:
  "length (String_nat n) \<le> k \<longleftrightarrow> n < 10 ^ k \<and> 0 < k"
proof (induction n arbitrary: k rule: String_nat.induct)
  case (1 n)
  show ?case
  proof (cases "n < 10")
    case True
    then have "n < 10 ^ k" if "0 < k"
      using that by (cases k) (simp_all add: less_le_trans [OF True])
    with True show ?thesis by (subst String_nat.simps) (auto simp: Suc_le_eq)
  next
    case False
    have "n div 10 < 10 ^ (k - 1) \<longleftrightarrow> n < 10 ^ k" if "0 < k"
      using that by (cases k) (simp_all add: div_less_iff_less_mult ac_simps)
    moreover from False have "\<not> n < 10 ^ k" if "k \<le> 1"
      using that by (cases k) simp_all
    ultimately show ?thesis
      using False 1 [OF False, of "k - 1"]
      by (subst String_nat.simps) (cases k; cases "k - 1"; force)
  qed
qed

lemma Number_String [simp]: "Number_digits (String_nat n) = Some n"
  by (simp add: Number_digits_def String_nat_digits String_nat_val)

lemma Number_padStart [simp]:
  "Number_digits (padStart len (CHR ''0'') (String_nat n)) = Some n"
  by (simp add: Number_digits_def padStart_def String_nat_digits String_nat_val)

lemma String_nat_inj: "String_nat m = String_nat n \<Longrightarrow> m = n"
  by (metis String_nat_val)

lemma padStart_length: "length (padStart len c s) = max len (length s)"
  by (simp add: padStart_def)

lemma padStart_long: "len \<le> length s \<Longrightarrow> padStart len c s = s"
  by (simp add: padStart_def)

end
