(* ===== verification/Game_Loop.thy ===== *)
theory Game_Loop
  imports Collision Spawner JS_Strings
begin

text \<open>
  The session: the module-level variables of \<^verbatim>\<open>src/index.tsx\<close> (lines 19 to 35
  and 309) and the functions that drive them, \<^verbatim>\<open>handleInput\<close> with its two
  listeners (lines 343 to 368), \<^verbatim>\<open>resetGame\<close> (392 to 401), \<^verbatim>\<open>gameLoop\<close> (403
  to 456) and \<^verbatim>\<open>init\<close> (458 to 480).

  \<^bold>\<open>State.\<close> The record \<open>world\<close> holds the program's variables under their
  own names, and below them what the program reaches in its host: whether the
  canvas element is in the document, whether the key listeners are
  registered, \<^verbatim>\<open>localStorage\<close> as a map from keys to strings, the queue of
  animation-frame callbacks with the next identifier to hand out, and the
  random source. The variable \<^verbatim>\<open>cat\<close> is unassigned until \<^verbatim>\<open>init\<close> finds the
  canvas; nothing reads it before, so the field holds the constructor's value
  from the start. \<^verbatim>\<open>ctx\<close> is a flag: the context has been obtained or not.

  \<^bold>\<open>Host.\<close> \<open>requestAnimationFrame\<close> appends a callback to the queue and
  returns its identifier, \<open>cancelAnimationFrame\<close> removes the callback with a
  given identifier, \<open>setItem\<close> puts a string under a key of the store. They
  follow the behaviour of the browser functions of the same names; that
  \<^verbatim>\<open>setItem\<close> can throw (a full or a forbidden store) is not modelled.

  \<^bold>\<open>The high score.\<close> \<open>loadHighScore\<close> is the initialiser of line 22,
  \<^verbatim>\<open>Number(localStorage.getItem('dinoHighScore')) || 0\<close>. An absent item is
  \<^verbatim>\<open>null\<close> and reads as 0; a string of digits reads as its numeral; a string
  that \<^verbatim>\<open>Number\<close> reads as \<^verbatim>\<open>NaN\<close> gives 0 by the \<^verbatim>\<open>|| 0\<close>. The definition
  gives 0 for every string that is not a string of digits. That is what the
  code does unless the string is another numeric literal of the host (\<^verbatim>\<open>12.5\<close>,
  \<^verbatim>\<open>-3\<close>, \<^verbatim>\<open>1e3\<close>, a numeral between blanks), whose value the code would take
  and which need not be a natural number. \<open>store_ok\<close> holds of the stores on
  which the definition is the code: the item is absent, a string of digits,
  or contains a character that no numeric literal contains. Only such
  stores start a session (theory \<open>Session\<close>). The counters are natural
  numbers in the model and doubles in the code; the two agree below
  \<open>2\<^sup>5\<^sup>3\<close>, which a score reaches after more than \<open>10\<^sup>1\<^sup>6\<close> frames, and a
  stored numeral of 16 digits or more is read by the host with rounding.

  \<^bold>\<open>Program.\<close> One definition per function, and within \<^verbatim>\<open>gameLoop\<close> one per
  stage: \<open>stage_cat\<close>, \<open>stage_spawn\<close>, \<open>stage_obstacles\<close> (the \<^verbatim>\<open>forEach\<close>, a
  recursion over the list in \<open>forEach_obstacles\<close>), \<open>stage_filter\<close>,
  \<open>stage_counters\<close> and \<open>stage_finish\<close>. Drawing calls are left out here: they
  write to the canvas only.
\<close>

section \<open>State\<close>

datatype callback = CB_init | CB_gameLoop

record world =
  ctx :: bool
  score :: nat
  highScore :: nat
  frame :: nat
  gameSpeed :: real
  isGameOver :: bool
  isPlaying :: bool
  obstacles :: "Obstacle list"
  requestID :: nat
  keys :: keys
  cat :: Cat
  canvasPresent :: bool
  listening :: bool
  storage :: "string \<rightharpoonup> string"
  scheduled :: "(nat \<times> callback) list"
  nextID :: nat
  rng :: rng

section \<open>Host functions\<close>

definition requestAnimationFrame :: "callback \<Rightarrow> world \<Rightarrow> nat \<times> world" where
  "requestAnimationFrame cb w =
     (nextID w, w\<lparr>scheduled := scheduled w @ [(nextID w, cb)], nextID := Suc (nextID w)\<rparr>)"

definition cancelAnimationFrame :: "nat \<Rightarrow> world \<Rightarrow> world" where
  "cancelAnimationFrame i w = w\<lparr>scheduled := filter (\<lambda>p. fst p \<noteq> i) (scheduled w)\<rparr>"

definition setItem :: "string \<Rightarrow> string \<Rightarrow> world \<Rightarrow> world" where
  "setItem k v w = w\<lparr>storage := (storage w)(k \<mapsto> v)\<rparr>"

definition loadHighScore :: "(string \<rightharpoonup> string) \<Rightarrow> nat" where
  "loadHighScore st =
     (case st ''dinoHighScore'' of
        None \<Rightarrow> 0
      | Some s \<Rightarrow> (case Number_digits s of Some n \<Rightarrow> n | None \<Rightarrow> 0))"

definition store_ok :: "(string \<rightharpoonup> string) \<Rightarrow> bool" where
  "store_ok st \<longleftrightarrow>
     (case st ''dinoHighScore'' of
        None \<Rightarrow> True
      | Some s \<Rightarrow> list_all is_digit s \<or> list_ex (\<lambda>c. \<not> literal_char c) s)"

section \<open>Starting and restarting\<close>

definition request_loop :: "world \<Rightarrow> world" where
  "request_loop w =
     (let (i, w1) = requestAnimationFrame CB_gameLoop w in w1\<lparr>requestID := i\<rparr>)"

definition resetGame :: "world \<Rightarrow> world" where
  "resetGame w =
     request_loop
       (w\<lparr>isGameOver := False, score := 0, gameSpeed := 5, obstacles := [], frame := 0,
          cat := Cat_new, isPlaying := True\<rparr>)"

section \<open>Key listeners\<close>

definition set_key :: "string \<Rightarrow> bool \<Rightarrow> keys \<Rightarrow> keys" where
  "set_key code v k =
     (let k1 = (if code = ''Space'' then k\<lparr>Space := v\<rparr> else k);
          k2 = (if code = ''ArrowUp'' then k1\<lparr>ArrowUp := v\<rparr> else k1)
      in if code = ''ArrowDown'' then k2\<lparr>ArrowDown := v\<rparr> else k2)"

definition preventsDefault :: "string \<Rightarrow> bool" where
  "preventsDefault code \<longleftrightarrow> code \<in> set [''Space'', ''ArrowUp'', ''ArrowDown'']"

definition keydown :: "string \<Rightarrow> world \<Rightarrow> world" where
  "keydown code w =
     (let w1 = w\<lparr>keys := set_key code True (keys w)\<rparr>
      in if (\<not> isPlaying w1 \<or> isGameOver w1) \<and> (code = ''Space'' \<or> code = ''ArrowUp'') then
           (if isGameOver w1 then resetGame w1
            else if \<not> isPlaying w1 then request_loop (w1\<lparr>isPlaying := True\<rparr>)
            else w1)
         else w1)"

definition keyup :: "string \<Rightarrow> world \<Rightarrow> world" where
  "keyup code w = w\<lparr>keys := set_key code False (keys w)\<rparr>"

definition handleInput :: "world \<Rightarrow> world" where
  "handleInput w = w\<lparr>listening := True\<rparr>"

section \<open>The game loop\<close>

definition stage_cat :: "world \<Rightarrow> world" where
  "stage_cat w = w\<lparr>cat := Cat_update (keys w) (cat w)\<rparr>"

definition stage_spawn :: "world \<Rightarrow> world" where
  "stage_spawn w =
     (let (obs, g) = spawnObstacle (gameSpeed w) (obstacles w) (rng w)
      in w\<lparr>obstacles := obs, rng := g\<rparr>)"

fun forEach_obstacles :: "Cat \<Rightarrow> real \<Rightarrow> Obstacle list \<Rightarrow> bool \<Rightarrow> Obstacle list \<times> bool" where
  "forEach_obstacles c s [] over = ([], over)"
| "forEach_obstacles c s (ob # obs) over =
     (let ob1 = Obstacle_update s ob;
          over1 = (if checkCollision c ob1 then True else over);
          (obs1, over2) = forEach_obstacles c s obs over1
      in (ob1 # obs1, over2))"

definition stage_obstacles :: "world \<Rightarrow> world" where
  "stage_obstacles w =
     (let (obs, over) = forEach_obstacles (cat w) (gameSpeed w) (obstacles w) (isGameOver w)
      in w\<lparr>obstacles := obs, isGameOver := over\<rparr>)"

definition stage_filter :: "world \<Rightarrow> world" where
  "stage_filter w = w\<lparr>obstacles := filter (\<lambda>ob. \<not> markedForDeletion ob) (obstacles w)\<rparr>"

definition stage_counters :: "world \<Rightarrow> world" where
  "stage_counters w =
     (let w1 = w\<lparr>frame := frame w + 1\<rparr>;
          w2 = (if frame w1 mod 5 = 0 then w1\<lparr>score := score w1 + 1\<rparr> else w1)
      in if frame w2 mod 500 = 0 then w2\<lparr>gameSpeed := gameSpeed w2 + 0.5\<rparr> else w2)"

definition stage_finish :: "world \<Rightarrow> world" where
  "stage_finish w =
     (if isGameOver w then
        (let w1 = (if score w > highScore w
                   then (let w0 = w\<lparr>highScore := score w\<rparr>
                         in setItem ''dinoHighScore'' (String_nat (highScore w0)) w0)
                   else w)
         in cancelAnimationFrame (requestID w1) w1)
      else request_loop w)"

definition gameLoop :: "world \<Rightarrow> world" where
  "gameLoop w =
     (if \<not> ctx w then w
      else if \<not> isPlaying w then w
      else stage_finish (stage_counters (stage_filter (stage_obstacles
             (stage_spawn (stage_cat w))))))"

section \<open>Initialisation\<close>

text \<open>
  \<open>initial_world\<close> holds the values the initialisers of the module give its
  variables (lines 19 to 35), for a store, a document with or without the
  canvas element and a random source; \<open>boot\<close> is the load of the module: the
  initialisers, then the call \<^verbatim>\<open>init()\<close> of line 482.
\<close>

definition init :: "world \<Rightarrow> world" where
  "init w =
     (if canvasPresent w then handleInput (w\<lparr>ctx := True, cat := Cat_new\<rparr>)
      else snd (requestAnimationFrame CB_init w))"

definition initial_world :: "(string \<rightharpoonup> string) \<Rightarrow> bool \<Rightarrow> rng \<Rightarrow> world" where
  "initial_world st present g =
     \<lparr>ctx = False, score = 0, highScore = loadHighScore st, frame = 0, gameSpeed = 5,
      isGameOver = False, isPlaying = False, obstacles = [], requestID = 0,
      keys = keys_init, cat = Cat_new, canvasPresent = present, listening = False,
      storage = st, scheduled = [], nextID = 1, rng = g\<rparr>"

definition boot :: "(string \<rightharpoonup> string) \<Rightarrow> bool \<Rightarrow> rng \<Rightarrow> world" where
  "boot st present g = init (initial_world st present g)"

lemmas [loop_defs] =
  requestAnimationFrame_def cancelAnimationFrame_def setItem_def loadHighScore_def
  request_loop_def resetGame_def set_key_def keydown_def keyup_def handleInput_def
  stage_cat_def stage_spawn_def stage_obstacles_def stage_filter_def stage_counters_def
  stage_finish_def gameLoop_def init_def initial_world_def boot_def

section \<open>What one frame computes\<close>

text \<open>
  The frame in terms of the components: \<open>next_cat\<close> is the cat after its
  update, \<open>moved_obstacles\<close> the obstacles after the spawn and their updates,
  before the retired ones are dropped, \<open>collides\<close> says that one of them hits
  the cat, and \<open>simulate\<close> is the loop up to the counters, before it decides
  between game over and the next frame. \<open>starts\<close> holds of the codes of the two
  keys that start and restart the game.
\<close>

lemma forEach_obstacles_eq:
  "forEach_obstacles c s obs over =
     (map (Obstacle_update s) obs,
      over \<or> (\<exists>ob \<in> set obs. checkCollision c (Obstacle_update s ob)))"
  by (induction obs arbitrary: over) (auto simp: Let_def)

definition next_cat :: "world \<Rightarrow> Cat" where
  "next_cat w = Cat_update (keys w) (cat w)"

definition moved_obstacles :: "world \<Rightarrow> Obstacle list" where
  "moved_obstacles w =
     map (Obstacle_update (gameSpeed w)) (fst (spawnObstacle (gameSpeed w) (obstacles w) (rng w)))"

definition collides :: "world \<Rightarrow> bool" where
  "collides w \<longleftrightarrow> (\<exists>ob \<in> set (moved_obstacles w). checkCollision (next_cat w) ob)"

definition simulate :: "world \<Rightarrow> world" where
  "simulate w = stage_counters (stage_filter (stage_obstacles (stage_spawn (stage_cat w))))"

lemma simulate_fields [simp]:
  "cat (simulate w) = next_cat w"
  "obstacles (simulate w) = filter (\<lambda>ob. \<not> markedForDeletion ob) (moved_obstacles w)"
  "isGameOver (simulate w) = (isGameOver w \<or> collides w)"
  "rng (simulate w) = snd (spawnObstacle (gameSpeed w) (obstacles w) (rng w))"
  "frame (simulate w) = Suc (frame w)"
  "score (simulate w) = (if Suc (frame w) mod 5 = 0 then Suc (score w) else score w)"
  "gameSpeed (simulate w) =
     (if Suc (frame w) mod 500 = 0 then gameSpeed w + 0.5 else gameSpeed w)"
  by (simp_all add: simulate_def stage_counters_def stage_filter_def stage_obstacles_def
      stage_spawn_def stage_cat_def forEach_obstacles_eq split_beta Let_def
      next_cat_def moved_obstacles_def collides_def)

lemma simulate_frame [simp]:
  "ctx (simulate w) = ctx w" "isPlaying (simulate w) = isPlaying w"
  "keys (simulate w) = keys w" "highScore (simulate w) = highScore w"
  "requestID (simulate w) = requestID w" "canvasPresent (simulate w) = canvasPresent w"
  "listening (simulate w) = listening w" "storage (simulate w) = storage w"
  "scheduled (simulate w) = scheduled w" "nextID (simulate w) = nextID w"
  by (simp_all add: simulate_def stage_counters_def stage_filter_def stage_obstacles_def
      stage_spawn_def stage_cat_def split_beta Let_def)

lemma gameLoop_playing: "ctx w \<Longrightarrow> isPlaying w \<Longrightarrow> gameLoop w = stage_finish (simulate w)"
  by (simp add: gameLoop_def simulate_def)

lemma gameLoop_idle: "\<not> ctx w \<or> \<not> isPlaying w \<Longrightarrow> gameLoop w = w"
  by (auto simp: gameLoop_def)

lemma request_loop_fields [simp]:
  "scheduled (request_loop w) = scheduled w @ [(nextID w, CB_gameLoop)]"
  "nextID (request_loop w) = Suc (nextID w)"
  "requestID (request_loop w) = nextID w"
  "ctx (request_loop w) = ctx w" "score (request_loop w) = score w"
  "highScore (request_loop w) = highScore w" "frame (request_loop w) = frame w"
  "gameSpeed (request_loop w) = gameSpeed w" "isGameOver (request_loop w) = isGameOver w"
  "isPlaying (request_loop w) = isPlaying w" "obstacles (request_loop w) = obstacles w"
  "keys (request_loop w) = keys w" "cat (request_loop w) = cat w"
  "canvasPresent (request_loop w) = canvasPresent w" "listening (request_loop w) = listening w"
  "storage (request_loop w) = storage w" "rng (request_loop w) = rng w"
  by (simp_all add: request_loop_def requestAnimationFrame_def)

lemma stage_finish_fields [simp]:
  "highScore (stage_finish w) = (if isGameOver w then max (score w) (highScore w) else highScore w)"
  "storage (stage_finish w) =
     (if isGameOver w \<and> highScore w < score w
      then (storage w)(''dinoHighScore'' \<mapsto> String_nat (score w)) else storage w)"
  "scheduled (stage_finish w) =
     (if isGameOver w then filter (\<lambda>p. fst p \<noteq> requestID w) (scheduled w)
      else scheduled w @ [(nextID w, CB_gameLoop)])"
  "nextID (stage_finish w) = (if isGameOver w then nextID w else Suc (nextID w))"
  "requestID (stage_finish w) = (if isGameOver w then requestID w else nextID w)"
  "ctx (stage_finish w) = ctx w" "score (stage_finish w) = score w"
  "frame (stage_finish w) = frame w"
  "gameSpeed (stage_finish w) = gameSpeed w" "isGameOver (stage_finish w) = isGameOver w"
  "isPlaying (stage_finish w) = isPlaying w" "obstacles (stage_finish w) = obstacles w"
  "keys (stage_finish w) = keys w" "cat (stage_finish w) = cat w"
  "canvasPresent (stage_finish w) = canvasPresent w" "listening (stage_finish w) = listening w"
  "rng (stage_finish w) = rng w"
  by (auto simp: stage_finish_def cancelAnimationFrame_def setItem_def Let_def max_def)

lemma resetGame_eq:
  "resetGame w =
     w\<lparr>isGameOver := False, score := 0, gameSpeed := 5, obstacles := [], frame := 0,
       cat := Cat_new, isPlaying := True, requestID := nextID w,
       scheduled := scheduled w @ [(nextID w, CB_gameLoop)], nextID := Suc (nextID w)\<rparr>"
  by (simp add: resetGame_def request_loop_def requestAnimationFrame_def)

lemma set_key_fields [simp]:
  "Space (set_key code v k) = (if code = ''Space'' then v else Space k)"
  "ArrowUp (set_key code v k) = (if code = ''ArrowUp'' then v else ArrowUp k)"
  "ArrowDown (set_key code v k) = (if code = ''ArrowDown'' then v else ArrowDown k)"
  by (simp_all add: set_key_def)

definition starts :: "string \<Rightarrow> bool" where
  "starts code \<longleftrightarrow> code = ''Space'' \<or> code = ''ArrowUp''"

lemma keydown_eq:
  "keydown code w =
     (if starts code \<and> isGameOver w then resetGame (w\<lparr>keys := set_key code True (keys w)\<rparr>)
      else if starts code \<and> \<not> isPlaying w
        then request_loop (w\<lparr>keys := set_key code True (keys w), isPlaying := True\<rparr>)
      else w\<lparr>keys := set_key code True (keys w)\<rparr>)"
  by (auto simp: keydown_def starts_def Let_def)

lemma keyup_fields [simp]:
  "keys (keyup code w) = set_key code False (keys w)"
  "ctx (keyup code w) = ctx w" "score (keyup code w) = score w"
  "highScore (keyup code w) = highScore w" "frame (keyup code w) = frame w"
  "gameSpeed (keyup code w) = gameSpeed w" "isGameOver (keyup code w) = isGameOver w"
  "isPlaying (keyup code w) = isPlaying w" "obstacles (keyup code w) = obstacles w"
  "requestID (keyup code w) = requestID w" "cat (keyup code w) = cat w"
  "canvasPresent (keyup code w) = canvasPresent w" "listening (keyup code w) = listening w"
  "storage (keyup code w) = storage w" "scheduled (keyup code w) = scheduled w"
  "nextID (keyup code w) = nextID w" "rng (keyup code w) = rng w"
  by (simp_all add: keyup_def)

lemma init_eq:
  "init w =
     (if canvasPresent w then w\<lparr>ctx := True, cat := Cat_new, listening := True\<rparr>
      else w\<lparr>scheduled := scheduled w @ [(nextID w, CB_init)], nextID := Suc (nextID w)\<rparr>)"
  by (simp add: init_def handleInput_def requestAnimationFrame_def)

section \<open>A sample session\<close>

text \<open>
  Two concrete worlds for the examples: \<open>world0\<close> is the world after loading
  the page with the canvas present, nothing stored and a random source that
  always draws one half; \<open>world1\<close> is \<open>world0\<close> after the space key went down.
\<close>

definition world0 :: world where
  "world0 = boot Map.empty True (sconst (1 / 2))"

definition world1 :: world where
  "world1 = keydown ''Space'' world0"

lemma boot_eq:
  "boot st present g =
     \<lparr>ctx = present, score = 0, highScore = loadHighScore st, frame = 0, gameSpeed = 5,
      isGameOver = False, isPlaying = False, obstacles = [], requestID = 0,
      keys = keys_init, cat = Cat_new, canvasPresent = present, listening = present,
      storage = st, scheduled = (if present then [] else [(1, CB_init)]),
      nextID = (if present then 1 else 2), rng = g\<rparr>"
  by (simp add: boot_def initial_world_def init_eq)

lemma boot_store [simp]:
  "storage (boot st present g) = st" "highScore (boot st present g) = loadHighScore st"
  by (simp_all add: boot_eq)

lemma world0_eq:
  "world0 =
     \<lparr>ctx = True, score = 0, highScore = 0, frame = 0, gameSpeed = 5,
      isGameOver = False, isPlaying = False, obstacles = [], requestID = 0,
      keys = keys_init, cat = Cat_new, canvasPresent = True, listening = True,
      storage = Map.empty, scheduled = [], nextID = 1, rng = sconst (1 / 2)\<rparr>"
  by (simp add: world0_def boot_eq loadHighScore_def)

lemma world1_eq:
  "world1 = world0\<lparr>keys := keys_init\<lparr>Space := True\<rparr>, isPlaying := True, requestID := 1,
      scheduled := [(1, CB_gameLoop)], nextID := 2\<rparr>"
  by (simp add: world1_def world0_eq keydown_eq starts_def request_loop_def
      requestAnimationFrame_def set_key_def)

lemma moved_obstacles_world1:
  "moved_obstacles world1 =
     [\<lparr>obs_x = 795, obs_y = 130, obs_w = 40, obs_h = 45, obs_type = CACTUS,
       markedForDeletion = False, groupSize = 2\<rparr>]"
  by (simp add: moved_obstacles_def world1_eq world0_eq spawnObstacle_eq spawns_def
      spawned_def chooseType_def Obstacle_new_eqs Obstacle_update_eq speedMultiplier_def
      game_consts)

lemma world1_fields [simp]:
  "ctx world1" "isPlaying world1" "\<not> isGameOver world1" "frame world1 = 0" "score world1 = 0"
  "highScore world1 = 0" "gameSpeed world1 = 5"
  by (simp_all add: world1_eq world0_eq)

lemma next_cat_world1:
  "next_cat world1 = Cat_new\<lparr>cat_y := 124, cat_dy := - 10.4, isGrounded := False\<rparr>"
  unfolding next_cat_def
  by (rule Cat.equality) (simp_all add: world1_eq world0_eq cat_eval jumpHeld_def)

lemma collides_world1: "\<not> collides world1"
  by (simp add: collides_def moved_obstacles_world1 next_cat_world1 checkCollision_def
      Cat_new_def game_consts)

section \<open>The functions of the loop\<close>

text \<open>
  \<^bold>\<open>C1.\<close> One frame of a running game. \<^verbatim>\<open>gameLoop\<close> updates the cat from the
  keys, lets the spawn policy add an obstacle, moves every obstacle and keeps
  those that are not retired; it raises \<^verbatim>\<open>isGameOver\<close> exactly when it was
  raised or one of the moved obstacles hits the updated cat; it adds one to
  the frame counter, one to the score in every fifth frame and 0.5 to the
  speed in every 500th. The counters advance in the frame of the collision
  too.
\<close>

theorem gameLoop_frame:
  assumes "ctx w" and "isPlaying w"
  shows "cat (gameLoop w) = Cat_update (keys w) (cat w) \<and>
    obstacles (gameLoop w) = filter (\<lambda>ob. \<not> markedForDeletion ob) (moved_obstacles w) \<and>
    isGameOver (gameLoop w) = (isGameOver w \<or> collides w) \<and>
    rng (gameLoop w) = snd (spawnObstacle (gameSpeed w) (obstacles w) (rng w)) \<and>
    frame (gameLoop w) = frame w + 1 \<and>
    score (gameLoop w) = (if (frame w + 1) mod 5 = 0 then score w + 1 else score w) \<and>
    gameSpeed (gameLoop w) =
      (if (frame w + 1) mod 500 = 0 then gameSpeed w + 0.5 else gameSpeed w) \<and>
    keys (gameLoop w) = keys w \<and> isPlaying (gameLoop w)"
  using assms by (simp add: gameLoop_playing next_cat_def)

theorem gameLoop_frame_witness:
  "ctx world1 \<and> isPlaying world1 \<and>
   cat (gameLoop world1) = Cat_new\<lparr>cat_y := 124, cat_dy := - 10.4, isGrounded := False\<rparr> \<and>
   obstacles (gameLoop world1) =
     [\<lparr>obs_x = 795, obs_y = 130, obs_w = 40, obs_h = 45, obs_type = CACTUS,
       markedForDeletion = False, groupSize = 2\<rparr>] \<and>
   \<not> isGameOver (gameLoop world1) \<and> frame (gameLoop world1) = 1 \<and>
   score (gameLoop world1) = 0 \<and> gameSpeed (gameLoop world1) = 5"
proof -
  have c: "ctx world1" "isPlaying world1" by simp_all
  from gameLoop_frame [OF c] c show ?thesis
    by (simp add: moved_obstacles_world1 next_cat_world1 [unfolded next_cat_def] collides_world1)
qed

text \<open>
  The end of a frame. When the frame ends the round, the high
  score becomes the larger of itself and the score, it is written to the store
  exactly when it grew, and no further frame is requested: the callback queue
  only loses entries. Otherwise the loop requests one callback of itself and
  remembers its identifier, and high score and store are untouched.
\<close>

theorem end_of_frame:
  "highScore (stage_finish w) =
     (if isGameOver w then max (score w) (highScore w) else highScore w) \<and>
   storage (stage_finish w) =
     (if isGameOver w \<and> highScore w < score w
      then (storage w)(''dinoHighScore'' \<mapsto> String_nat (score w)) else storage w) \<and>
   scheduled (stage_finish w) =
     (if isGameOver w then filter (\<lambda>p. fst p \<noteq> requestID w) (scheduled w)
      else scheduled w @ [(nextID w, CB_gameLoop)]) \<and>
   requestID (stage_finish w) = (if isGameOver w then requestID w else nextID w) \<and>
   score (stage_finish w) = score w \<and> frame (stage_finish w) = frame w"
  by simp

text \<open>
  \<^verbatim>\<open>gameLoop\<close> returns at once, leaving every variable as it is, when
  the drawing context is missing or the game has not been started.
\<close>

theorem gameLoop_early_return:
  assumes "\<not> ctx w \<or> \<not> isPlaying w"
  shows "gameLoop w = w"
  using assms by (rule gameLoop_idle)

theorem gameLoop_early_return_witness:
  "\<not> isPlaying world0 \<and> gameLoop world0 = world0"
  using gameLoop_early_return [of world0] by (simp add: world0_eq)

text \<open>
  \<^verbatim>\<open>resetGame\<close> puts score and frame counter to 0, the speed to 5,
  empties the obstacle list, builds a new cat, clears \<^verbatim>\<open>isGameOver\<close>, sets
  \<^verbatim>\<open>isPlaying\<close> and requests one frame. It leaves everything else as it is,
  the high score, the store and the key flags included.
\<close>

theorem restart_resets:
  "resetGame w =
     w\<lparr>isGameOver := False, score := 0, gameSpeed := 5, obstacles := [], frame := 0,
       cat := Cat_new, isPlaying := True, requestID := nextID w,
       scheduled := scheduled w @ [(nextID w, CB_gameLoop)], nextID := Suc (nextID w)\<rparr> \<and>
   highScore (resetGame w) = highScore w \<and> storage (resetGame w) = storage w \<and>
   keys (resetGame w) = keys w"
  by (simp add: resetGame_eq)

end
