(* ===== verification/Session.thy ===== *)
theory Session
  imports Game_Loop
begin

text \<open>
  The session as a state machine. The host delivers events to the program:
  a key goes down or up, an animation frame is due, the canvas element is
  added to the document. \<open>dispatch\<close> runs the program's reaction to one event:
  a key event reaches the listeners once \<^verbatim>\<open>handleInput\<close> has registered them;
  an animation frame runs the callback at the head of the queue, if there is
  one. The worlds the program can be in are those \<open>reachable\<close> from a boot by
  any sequence of events.

  Four invariants hold in every reachable world, each kept by every event on
  its own: \<open>sched_inv\<close> (the flags and the callback queue agree, and the queue
  never holds more than one callback), \<open>counters_inv\<close> (score and speed are
  functions of the frame counter), \<open>entities_inv\<close> (the cat and the live
  obstacles are well formed, no live obstacle is marked) and \<open>score_inv\<close> (the
  high score in memory is the stored one, and covers the score of a finished
  round). A fifth, \<open>early_inv\<close>, ties the types of the obstacles to the
  frame counter: no bird is in the list while the counter is at most 500.

  \<open>phase\<close> maps a world to the lifecycle phase of the specification, and
  \<open>phase_next\<close> is the specification's transition function; the refinement
  theorem says that every event moves the phase as \<open>phase_next\<close> prescribes.
\<close>

section \<open>Events\<close>

datatype event = KeyDown string | KeyUp string | AnimationFrame | CanvasAdded

definition run_callback :: "callback \<Rightarrow> world \<Rightarrow> world" where
  "run_callback cb w = (case cb of CB_init \<Rightarrow> init w | CB_gameLoop \<Rightarrow> gameLoop w)"

fun dispatch :: "event \<Rightarrow> world \<Rightarrow> world" where
  "dispatch (KeyDown code) w = (if listening w then keydown code w else w)"
| "dispatch (KeyUp code) w = (if listening w then keyup code w else w)"
| "dispatch AnimationFrame w =
     (case scheduled w of
        [] \<Rightarrow> w
      | p # rest \<Rightarrow> run_callback (snd p) (w\<lparr>scheduled := rest\<rparr>))"
| "dispatch CanvasAdded w = w\<lparr>canvasPresent := True\<rparr>"

lemmas dispatch_AnimationFrame = dispatch.simps(3)

declare dispatch.simps(3) [simp del]

fun run :: "event list \<Rightarrow> world \<Rightarrow> world" where
  "run [] w = w"
| "run (e # es) w = run es (dispatch e w)"

inductive reachable :: "world \<Rightarrow> bool" where
  boot: "rng_ok g \<Longrightarrow> store_ok st \<Longrightarrow> reachable (boot st present g)"
| step: "reachable w \<Longrightarrow> reachable (dispatch e w)"

section \<open>Phases\<close>

datatype Phase = Idle | Playing | GameOver

definition phase :: "world \<Rightarrow> Phase" where
  "phase w = (if \<not> isPlaying w then Idle else if isGameOver w then GameOver else Playing)"

datatype stimulus = Start | Tick bool | Other

fun phase_next :: "Phase \<Rightarrow> stimulus \<Rightarrow> Phase" where
  "phase_next Idle Start = Playing"
| "phase_next GameOver Start = Playing"
| "phase_next Playing (Tick True) = GameOver"
| "phase_next p s = p"

fun stimulus_of :: "world \<Rightarrow> event \<Rightarrow> stimulus" where
  "stimulus_of w (KeyDown code) = (if listening w \<and> starts code then Start else Other)"
| "stimulus_of w AnimationFrame = Tick (collides w)"
| "stimulus_of w e = Other"

section \<open>Invariants\<close>

definition sched_inv :: "world \<Rightarrow> bool" where
  "sched_inv w \<longleftrightarrow>
     (isGameOver w \<longrightarrow> isPlaying w) \<and> (isPlaying w \<longrightarrow> listening w) \<and>
     (listening w \<longleftrightarrow> ctx w) \<and> (listening w \<longrightarrow> canvasPresent w) \<and>
     requestID w < nextID w \<and>
     scheduled w =
       (if \<not> listening w then [(nextID w - 1, CB_init)]
        else if isPlaying w \<and> \<not> isGameOver w then [(requestID w, CB_gameLoop)]
        else [])"

definition counters_inv :: "world \<Rightarrow> bool" where
  "counters_inv w \<longleftrightarrow>
     score w = frame w div 5 \<and> gameSpeed w = 5 + real (frame w div 500) / 2"

definition live :: "Obstacle \<Rightarrow> bool" where
  "live ob \<longleftrightarrow> obs_wf ob \<and> \<not> markedForDeletion ob"

definition entities_inv :: "world \<Rightarrow> bool" where
  "entities_inv w \<longleftrightarrow>
     cat_reach (cat w) \<and> list_all live (obstacles w) \<and> rng_ok (rng w)"

definition score_inv :: "world \<Rightarrow> bool" where
  "score_inv w \<longleftrightarrow>
     highScore w = loadHighScore (storage w) \<and> (isGameOver w \<longrightarrow> score w \<le> highScore w)"

definition world_inv :: "world \<Rightarrow> bool" where
  "world_inv w \<longleftrightarrow> sched_inv w \<and> counters_inv w \<and> entities_inv w \<and> score_inv w"

definition early_inv :: "world \<Rightarrow> bool" where
  "early_inv w \<longleftrightarrow>
     counters_inv w \<and>
     (frame w \<le> 500 \<longrightarrow> list_all (\<lambda>ob. obs_type ob \<noteq> BIRD) (obstacles w))"

lemmas [inv_defs] =
  sched_inv_def counters_inv_def live_def entities_inv_def score_inv_def world_inv_def

section \<open>The invariants are kept by every event\<close>

text \<open>
  \<open>dispatch_preserves\<close> is the interface between the event loop and the
  program: a property kept by each listener, by each callback and by the two
  changes the host makes on its own is kept by every event.
\<close>

lemma dispatch_frame:
  assumes "sched_inv w"
  shows "dispatch AnimationFrame w =
     (if \<not> listening w then init (w\<lparr>scheduled := []\<rparr>)
      else if isPlaying w \<and> \<not> isGameOver w then gameLoop (w\<lparr>scheduled := []\<rparr>)
      else w)"
  using assms by (simp add: dispatch_AnimationFrame sched_inv_def run_callback_def)

lemma gameLoop_run:
  assumes "sched_inv w" "listening w" "isPlaying w"
  shows "gameLoop (w\<lparr>scheduled := []\<rparr>) = stage_finish (simulate (w\<lparr>scheduled := []\<rparr>))"
  using assms by (intro gameLoop_playing) (simp_all add: sched_inv_def)

lemma dispatch_preserves:
  assumes "P w"
    and "\<And>code w. P w \<Longrightarrow> P (keydown code w)"
    and "\<And>code w. P w \<Longrightarrow> P (keyup code w)"
    and "\<And>w. P w \<Longrightarrow> P (init w)"
    and "\<And>w. P w \<Longrightarrow> P (gameLoop w)"
    and "\<And>w rest. P w \<Longrightarrow> P (w\<lparr>scheduled := rest\<rparr>)"
    and "\<And>w. P w \<Longrightarrow> P (w\<lparr>canvasPresent := True\<rparr>)"
  shows "P (dispatch e w)"
proof (cases e)
  case AnimationFrame
  have "P (run_callback cb (w\<lparr>scheduled := rest\<rparr>))" for cb rest
    by (cases cb) (simp_all add: run_callback_def assms)
  with assms(1) AnimationFrame show ?thesis
    by (simp add: dispatch_AnimationFrame split: list.split)
qed (simp_all add: assms)

lemma gameLoop_preserves:
  assumes "P w" and "P w \<Longrightarrow> P (stage_finish (simulate w))"
  shows "P (gameLoop w)"
  using assms by (cases "ctx w \<and> isPlaying w") (auto simp: gameLoop_playing gameLoop_idle)

subsection \<open>Score and speed follow the frame counter\<close>

lemma counters_inv_frame_fields:
  "score w' = score w \<Longrightarrow> frame w' = frame w \<Longrightarrow> gameSpeed w' = gameSpeed w \<Longrightarrow>
   counters_inv w' = counters_inv w"
  by (simp add: counters_inv_def)

lemma counters_inv_simulate: "counters_inv w \<Longrightarrow> counters_inv (simulate w)"
  by (simp add: counters_inv_def div_Suc add_divide_distrib)

lemma counters_inv_gameLoop: "counters_inv w \<Longrightarrow> counters_inv (gameLoop w)"
  by (erule gameLoop_preserves)
     (simp add: counters_inv_simulate counters_inv_frame_fields [of "stage_finish (simulate w)" "simulate w"])

lemma counters_inv_resetGame: "counters_inv (resetGame w)"
  by (simp add: resetGame_eq counters_inv_def)

lemma counters_inv_keydown: "counters_inv w \<Longrightarrow> counters_inv (keydown code w)"
  by (simp add: keydown_eq counters_inv_resetGame) (simp add: counters_inv_def)

lemma counters_inv_init: "counters_inv w \<Longrightarrow> counters_inv (init w)"
  by (simp add: init_eq counters_inv_def)

lemma counters_inv_dispatch: "counters_inv w \<Longrightarrow> counters_inv (dispatch e w)"
  by (erule dispatch_preserves)
     (simp_all add: counters_inv_keydown counters_inv_init counters_inv_gameLoop, auto simp: counters_inv_def)

subsection \<open>The cat and the live obstacles\<close>

lemma live_update_filter:
  assumes "list_all obs_wf obs"
  shows "list_all live (filter (\<lambda>ob. \<not> markedForDeletion ob) (map (Obstacle_update s) obs))"
  using assms by (induction obs) (simp_all add: live_def)

lemma spawn_keeps_wf:
  assumes "rng_ok g" "list_all obs_wf obs"
  shows "list_all obs_wf (fst (spawnObstacle s obs g))"
  using assms by (simp add: spawnObstacle_eq)

lemma list_all_live_wf: "list_all live obs \<Longrightarrow> list_all obs_wf obs"
  by (induction obs) (simp_all add: live_def)

lemma entities_inv_simulate: "entities_inv w \<Longrightarrow> entities_inv (simulate w)"
  by (simp add: entities_inv_def next_cat_def moved_obstacles_def cat_reach.cat_step
      live_update_filter spawn_keeps_wf list_all_live_wf)

lemma entities_inv_fields:
  "cat w' = cat w \<Longrightarrow> obstacles w' = obstacles w \<Longrightarrow> rng w' = rng w \<Longrightarrow>
   entities_inv w' = entities_inv w"
  by (simp add: entities_inv_def)

lemma entities_inv_gameLoop: "entities_inv w \<Longrightarrow> entities_inv (gameLoop w)"
  by (erule gameLoop_preserves)
     (simp add: entities_inv_simulate entities_inv_fields [of "stage_finish (simulate w)" "simulate w"])

lemma entities_inv_keydown: "entities_inv w \<Longrightarrow> entities_inv (keydown code w)"
  by (simp add: keydown_eq resetGame_eq entities_inv_def cat_reach.cat_new)

lemma entities_inv_init: "entities_inv w \<Longrightarrow> entities_inv (init w)"
  by (simp add: init_eq entities_inv_def cat_reach.cat_new)

lemma entities_inv_dispatch: "entities_inv w \<Longrightarrow> entities_inv (dispatch e w)"
  by (erule dispatch_preserves)
     (simp_all add: entities_inv_keydown entities_inv_init entities_inv_gameLoop, auto simp: entities_inv_def)

lemma moved_obstacles_wf:
  assumes "entities_inv w"
  shows "list_all obs_wf (moved_obstacles w)"
proof -
  from assms have "list_all obs_wf (fst (spawnObstacle (gameSpeed w) (obstacles w) (rng w)))"
    by (intro spawn_keeps_wf) (simp_all add: entities_inv_def list_all_live_wf)
  then show ?thesis by (simp add: moved_obstacles_def list_all_iff)
qed

subsection \<open>The high score\<close>

lemma score_inv_gameLoop: "score_inv w \<Longrightarrow> score_inv (gameLoop w)"
  by (erule gameLoop_preserves) (auto simp: score_inv_def loadHighScore_def max_def)

lemma score_inv_keydown: "score_inv w \<Longrightarrow> score_inv (keydown code w)"
  by (auto simp: keydown_eq resetGame_eq score_inv_def)

lemma score_inv_init: "score_inv w \<Longrightarrow> score_inv (init w)"
  by (auto simp: init_eq score_inv_def)

lemma score_inv_dispatch: "score_inv w \<Longrightarrow> score_inv (dispatch e w)"
  by (erule dispatch_preserves)
     (simp_all add: score_inv_keydown score_inv_init score_inv_gameLoop, auto simp: score_inv_def)

subsection \<open>The callback queue\<close>

lemma sched_inv_keydown: "sched_inv w \<Longrightarrow> listening w \<Longrightarrow> sched_inv (keydown code w)"
  by (auto simp: keydown_eq resetGame_eq sched_inv_def)

lemma sched_inv_frame: "sched_inv w \<Longrightarrow> sched_inv (dispatch AnimationFrame w)"
proof -
  assume inv: "sched_inv w"
  consider "\<not> listening w" | "listening w" "isPlaying w" "\<not> isGameOver w"
    | "listening w" "\<not> isPlaying w" | "listening w" "isGameOver w" by blast
  then show ?thesis
  proof cases
    case 1
    with inv show ?thesis
      by (simp add: dispatch_frame) (auto simp: init_eq sched_inv_def)
  next
    case 2
    with inv have "dispatch AnimationFrame w = stage_finish (simulate (w\<lparr>scheduled := []\<rparr>))"
      by (simp add: dispatch_frame gameLoop_run)
    with inv 2 show ?thesis by (auto simp: sched_inv_def)
  next
    case 3
    with inv show ?thesis by (simp add: dispatch_frame)
  next
    case 4
    with inv show ?thesis by (simp add: dispatch_frame)
  qed
qed

lemma sched_inv_dispatch:
  assumes "sched_inv w"
  shows "sched_inv (dispatch e w)"
proof (cases e)
  case (KeyDown code)
  with assms show ?thesis by (simp add: sched_inv_keydown)
next
  case (KeyUp code)
  with assms show ?thesis by (auto simp: sched_inv_def)
next
  case AnimationFrame
  with assms show ?thesis by (simp add: sched_inv_frame)
next
  case CanvasAdded
  with assms show ?thesis by (auto simp: sched_inv_def)
qed

subsection \<open>Every reachable world\<close>

lemma world_inv_boot: "rng_ok g \<Longrightarrow> world_inv (boot st present g)"
  by (simp add: boot_eq inv_defs cat_reach.cat_new)

lemma world_inv_dispatch: "world_inv w \<Longrightarrow> world_inv (dispatch e w)"
  by (simp add: world_inv_def sched_inv_dispatch counters_inv_dispatch entities_inv_dispatch
      score_inv_dispatch)

lemma reachable_inv: "reachable w \<Longrightarrow> world_inv w"
  by (induction rule: reachable.induct) (simp_all add: world_inv_boot world_inv_dispatch)

subsection \<open>No bird before the first speed-up\<close>

text \<open>
  \<open>early_inv\<close> ties the types of the obstacles to the frame counter: while
  the counter is at most 500 the list holds no bird. It is kept because the
  speed is 5 in the frames 1 to 500 of a round, \<^verbatim>\<open>spawnObstacle\<close> chooses a
  bird only above 5.2, and \<^verbatim>\<open>resetGame\<close> empties the list together with the
  counter and the speed.
\<close>

lemma early_inv_simulate:
  assumes "early_inv w"
  shows "early_inv (simulate w)"
proof -
  from assms have c: "counters_inv (simulate w)"
    by (simp add: early_inv_def counters_inv_simulate)
  have "list_all (\<lambda>ob. obs_type ob \<noteq> BIRD) (moved_obstacles w)" if "frame w < 500"
  proof -
    from assms that have "gameSpeed w = 5" by (simp add: early_inv_def counters_inv_def)
    with assms that show ?thesis
      by (simp add: early_inv_def moved_obstacles_def spawnObstacle_eq chooseType_no_bird
          list_all_iff)
  qed
  with c show ?thesis by (simp add: early_inv_def list_all_iff)
qed

lemma early_inv_fields:
  "score w' = score w \<Longrightarrow> frame w' = frame w \<Longrightarrow> gameSpeed w' = gameSpeed w \<Longrightarrow>
   obstacles w' = obstacles w \<Longrightarrow> early_inv w' = early_inv w"
  by (simp add: early_inv_def counters_inv_def)

lemma early_inv_gameLoop: "early_inv w \<Longrightarrow> early_inv (gameLoop w)"
  by (erule gameLoop_preserves)
     (simp add: early_inv_simulate early_inv_fields [of "stage_finish (simulate w)" "simulate w"])

lemma early_inv_keydown: "early_inv w \<Longrightarrow> early_inv (keydown code w)"
  by (simp add: keydown_eq resetGame_eq early_inv_def counters_inv_def)

lemma early_inv_dispatch: "early_inv w \<Longrightarrow> early_inv (dispatch e w)"
  by (erule dispatch_preserves)
     (simp_all add: early_inv_keydown early_inv_gameLoop,
      auto simp: early_inv_def counters_inv_def init_eq)

lemma reachable_early_inv: "reachable w \<Longrightarrow> early_inv w"
  by (induction rule: reachable.induct)
     (simp_all add: early_inv_dispatch, simp add: boot_eq early_inv_def counters_inv_def)

section \<open>Frames and phases\<close>

lemma reachable_run: "reachable w \<Longrightarrow> reachable (run es w)"
  by (induction es arbitrary: w) (simp_all add: reachable.step)

lemma reachable_world0: "reachable world0"
  unfolding world0_def by (rule reachable.boot) (simp_all add: store_ok_def)

lemma dispatch_world0: "dispatch (KeyDown ''Space'') world0 = world1"
  by (simp add: world1_def world0_eq)

lemma reachable_world1: "reachable world1"
  unfolding dispatch_world0 [symmetric] by (rule reachable.step) (rule reachable_world0)

lemma phase_simps [simp]:
  "phase w = Idle \<longleftrightarrow> \<not> isPlaying w"
  "phase w = Playing \<longleftrightarrow> isPlaying w \<and> \<not> isGameOver w"
  "phase w = GameOver \<longleftrightarrow> isPlaying w \<and> isGameOver w"
  by (simp_all add: phase_def)

lemma frame_scheduled [simp]:
  "moved_obstacles (w\<lparr>scheduled := rest\<rparr>) = moved_obstacles w"
  "next_cat (w\<lparr>scheduled := rest\<rparr>) = next_cat w"
  "collides (w\<lparr>scheduled := rest\<rparr>) = collides w"
  by (simp_all add: collides_def moved_obstacles_def next_cat_def)

lemma playing_listening: "sched_inv w \<Longrightarrow> isPlaying w \<Longrightarrow> listening w"
  by (simp add: sched_inv_def)

lemma dispatch_frame_playing:
  assumes "sched_inv w" "phase w = Playing"
  shows "dispatch AnimationFrame w = stage_finish (simulate (w\<lparr>scheduled := []\<rparr>))"
proof -
  from assms have p: "isPlaying w" "\<not> isGameOver w" "listening w"
    by (simp_all add: playing_listening)
  with assms(1) show ?thesis
    by (simp add: dispatch_frame [OF assms(1)] gameLoop_run [OF assms(1)])
qed

lemma dispatch_frame_frozen:
  assumes "sched_inv w" "listening w" "phase w \<noteq> Playing"
  shows "dispatch AnimationFrame w = w"
  using assms(2,3) by (auto simp: dispatch_frame [OF assms(1)])

lemma dispatch_frame_init:
  assumes "sched_inv w" "\<not> listening w"
  shows "dispatch AnimationFrame w = init (w\<lparr>scheduled := []\<rparr>)"
  using assms(2) by (simp add: dispatch_frame [OF assms(1)])

lemma phase_frame:
  assumes "sched_inv w"
  shows "phase (dispatch AnimationFrame w) = phase_next (phase w) (stimulus_of w AnimationFrame)"
proof (cases "phase w = Playing")
  case True
  with assms show ?thesis
    by (cases "collides w") (simp_all add: dispatch_frame_playing, simp_all add: phase_def)
next
  case False
  have "phase (dispatch AnimationFrame w) = phase w"
  proof (cases "listening w")
    case True
    with assms False show ?thesis by (simp add: dispatch_frame_frozen)
  next
    case False
    with assms show ?thesis by (simp add: dispatch_frame_init init_eq phase_def)
  qed
  with False show ?thesis
    by (cases "isPlaying w"; cases "isGameOver w") (auto simp: phase_def)
qed

section \<open>Properties of every reachable world\<close>

text \<open>
  The examples below run the first frame of the sample session through the
  definitions of the stages themselves.
\<close>

lemmas first_frame_defs =
  gameLoop_def stage_counters_def stage_filter_def stage_obstacles_def stage_spawn_def
  stage_cat_def split_beta Let_def

text \<open>
  \<^bold>\<open>C7.\<close> One loop at most. In every reachable world the callback queue
  holds at most one callback; it holds the game loop, under the identifier in
  \<^verbatim>\<open>requestID\<close>, exactly in the phase Playing; and once the listeners are
  registered it is empty in the phases Idle and GameOver. So no sequence of
  key presses starts a second loop beside a running one.
\<close>

theorem single_game_loop:
  assumes "reachable w"
  shows "length (scheduled w) \<le> 1 \<and>
         (scheduled w = [(requestID w, CB_gameLoop)] \<longleftrightarrow> phase w = Playing) \<and>
         (listening w \<and> phase w \<noteq> Playing \<longrightarrow> scheduled w = [])"
  using reachable_inv [OF assms] by (auto simp: world_inv_def sched_inv_def)

theorem single_game_loop_witness:
  "reachable (run [KeyDown ''Space'', KeyDown ''Space'', KeyDown ''ArrowUp''] world0) \<and>
   scheduled (run [KeyDown ''Space'', KeyDown ''Space'', KeyDown ''ArrowUp''] world0) =
     [(1, CB_gameLoop)]"
proof -
  have r: "reachable (run [KeyDown ''Space'', KeyDown ''Space'', KeyDown ''ArrowUp''] world0)"
    by (intro reachable_run reachable_world0)
  have s: "scheduled (run [KeyDown ''Space'', KeyDown ''Space'', KeyDown ''ArrowUp''] world0) =
      [(1, CB_gameLoop)]"
    by (simp add: world0_eq keydown_def Let_def request_loop_def requestAnimationFrame_def)
  from single_game_loop [OF r] r s show ?thesis by blast
qed

text \<open>
  \<^bold>\<open>C8.\<close> Score and speed are functions of the frame counter. In every
  reachable world the score is the number of frames of the round divided by 5
  (rounded down) and the speed is 5 plus one half for every 500 frames. After
  500 frames of a round the score is 100 and the speed 5.5.
\<close>

theorem score_and_speed_follow_frames:
  assumes "reachable w"
  shows "score w = frame w div 5 \<and> gameSpeed w = 5 + real (frame w div 500) / 2 \<and>
         (frame w = 500 \<longrightarrow> score w = 100 \<and> gameSpeed w = 5.5)"
  using reachable_inv [OF assms] by (auto simp: world_inv_def counters_inv_def)

theorem score_and_speed_follow_frames_witness:
  "reachable (dispatch AnimationFrame world1) \<and>
   frame (dispatch AnimationFrame world1) = 1 \<and>
   score (dispatch AnimationFrame world1) = 0 \<and> gameSpeed (dispatch AnimationFrame world1) = 5"
proof -
  have r: "reachable (dispatch AnimationFrame world1)"
    by (intro reachable.step reachable_world1)
  have c: "frame (dispatch AnimationFrame world1) = 1 \<and>
      score (dispatch AnimationFrame world1) = 0 \<and> gameSpeed (dispatch AnimationFrame world1) = 5"
    by (simp add: dispatch_AnimationFrame world1_eq world0_eq run_callback_def first_frame_defs)
  from score_and_speed_follow_frames [OF r] r c show ?thesis by blast
qed

text \<open>
  \<^bold>\<open>C9.\<close> The cat and the obstacles of every reachable world are well
  formed: the cat satisfies \<open>cat_wf\<close>, every obstacle in the list has the
  geometry of its type, and no obstacle in the list is marked for deletion, so
  a retired obstacle is gone from the list before the next frame reads it.
\<close>

theorem live_entities_well_formed:
  assumes "reachable w"
  shows "cat_wf (cat w) \<and>
         (\<forall>ob \<in> set (obstacles w). obs_wf ob \<and> \<not> markedForDeletion ob) \<and>
         rng_ok (rng w)"
  using reachable_inv [OF assms]
  by (auto simp: world_inv_def entities_inv_def live_def list_all_iff cat_reach_wf)

theorem live_entities_well_formed_witness:
  "reachable (dispatch AnimationFrame world1) \<and>
   cat_wf (cat (dispatch AnimationFrame world1)) \<and>
   obstacles (dispatch AnimationFrame world1) =
     [\<lparr>obs_x = 795, obs_y = 130, obs_w = 40, obs_h = 45, obs_type = CACTUS,
       markedForDeletion = False, groupSize = 2\<rparr>] \<and>
   obs_wf (hd (obstacles (dispatch AnimationFrame world1)))"
proof -
  have r: "reachable (dispatch AnimationFrame world1)"
    by (intro reachable.step reachable_world1)
  have o: "obstacles (dispatch AnimationFrame world1) =
     [\<lparr>obs_x = 795, obs_y = 130, obs_w = 40, obs_h = 45, obs_type = CACTUS,
       markedForDeletion = False, groupSize = 2\<rparr>]"
    by (simp add: dispatch_AnimationFrame world1_eq world0_eq run_callback_def first_frame_defs
        forEach_obstacles_eq spawnObstacle_eq spawns_def spawned_def chooseType_def
        Obstacle_new_eqs Obstacle_update_eq speedMultiplier_def game_consts)
  from live_entities_well_formed [OF r] r o show ?thesis by simp
qed

text \<open>
  \<^bold>\<open>C19.\<close> The high score is persisted. In every reachable world the high
  score in memory equals the stored one (0 when nothing is stored), and when
  a round is over it is at least the score of that round.
\<close>

theorem high_score_persisted:
  assumes "reachable w"
  shows "highScore w = loadHighScore (storage w) \<and>
         (phase w = GameOver \<longrightarrow> score w \<le> highScore w)"
  using reachable_inv [OF assms] by (auto simp: world_inv_def score_inv_def)

theorem high_score_persisted_witness:
  "reachable (boot [''dinoHighScore'' \<mapsto> ''042''] True (sconst 0)) \<and>
   highScore (boot [''dinoHighScore'' \<mapsto> ''042''] True (sconst 0)) = 42 \<and>
   reachable (boot [''dinoHighScore'' \<mapsto> ''n/a''] True (sconst 0)) \<and>
   highScore (boot [''dinoHighScore'' \<mapsto> ''n/a''] True (sconst 0)) = 0"
proof -
  have n: "Number_digits ''042'' = Some 42" "Number_digits ''n/a'' = None"
    "list_all is_digit ''042''" "list_ex (\<lambda>c. \<not> literal_char c) ''n/a''"
    by code_simp+
  then have r: "reachable (boot [''dinoHighScore'' \<mapsto> ''042''] True (sconst 0))"
    "reachable (boot [''dinoHighScore'' \<mapsto> ''n/a''] True (sconst 0))"
    by (simp_all add: reachable.boot store_ok_def)
  from high_score_persisted [OF r(1)] high_score_persisted [OF r(2)] r show ?thesis
    by (simp add: loadHighScore_def n(1,2))
qed

text \<open>
  \<^bold>\<open>C6.\<close> The lifecycle. Every event moves the phase of a reachable world
  as the transition function \<open>phase_next\<close> says: a start key takes Idle and
  GameOver to Playing once the listeners are registered, a frame takes Playing
  to GameOver exactly when a moved obstacle hits the updated cat, and nothing
  else changes the phase.
\<close>

theorem phase_refinement:
  assumes "reachable w"
  shows "phase (dispatch e w) = phase_next (phase w) (stimulus_of w e)"
proof (cases e)
  case (KeyDown code)
  from reachable_inv [OF assms] have "sched_inv w" by (simp add: world_inv_def)
  with KeyDown show ?thesis
    by (cases "isPlaying w"; cases "isGameOver w")
       (auto simp: keydown_def Let_def starts_def resetGame_eq sched_inv_def phase_def)
next
  case (KeyUp code)
  then show ?thesis by (cases "isPlaying w"; cases "isGameOver w") (auto simp: phase_def)
next
  case AnimationFrame
  with reachable_inv [OF assms] show ?thesis by (simp add: phase_frame world_inv_def)
next
  case CanvasAdded
  then show ?thesis by (cases "isPlaying w"; cases "isGameOver w") (auto simp: phase_def)
qed

theorem phase_refinement_witness:
  "reachable world0 \<and> phase world0 = Idle \<and>
   phase (dispatch (KeyDown ''ArrowUp'') world0) = Playing \<and>
   phase (dispatch (KeyDown ''ArrowDown'') world0) = Idle \<and>
   phase (dispatch AnimationFrame world0) = Idle"
  using phase_refinement [OF reachable_world0, of "KeyDown ''ArrowUp''"]
    phase_refinement [OF reachable_world0, of "KeyDown ''ArrowDown''"]
    phase_refinement [OF reachable_world0, of AnimationFrame] reachable_world0
  by (simp add: starts_def) (simp add: world0_eq phase_def)

text \<open>
  Outside the phase Playing nothing ticks: once the listeners are
  registered, an animation frame in the phase Idle or GameOver leaves the
  world exactly as it is. Frame counter, score, speed, obstacles and cat are
  frozen from the frame of the collision until a start key goes down.
\<close>

theorem frozen_outside_playing:
  assumes "reachable w" and "listening w" and "phase w \<noteq> Playing"
  shows "dispatch AnimationFrame w = w"
  using reachable_inv [OF assms(1)] assms(2,3)
  by (intro dispatch_frame_frozen) (simp_all add: world_inv_def)

theorem frozen_outside_playing_witness:
  "reachable world0 \<and> listening world0 \<and> phase world0 \<noteq> Playing \<and>
   dispatch AnimationFrame world0 = world0"
proof -
  have l: "listening world0" and p: "phase world0 \<noteq> Playing"
    by (simp_all add: world0_eq)
  from frozen_outside_playing [OF reachable_world0 l p] reachable_world0 l p
  show ?thesis by simp
qed

text \<open>
  A frame of a running round, as the host runs it: the world after
  the event is the world \<^verbatim>\<open>gameLoop\<close> computes from the emptied queue. The
  frame counter grows by one, the round ends exactly when a moved obstacle hits
  the updated cat, the high score after the frame is the old one or, when the
  round ends with a higher score, that score, and the queue holds the next
  callback of the loop exactly when the round goes on.
\<close>

theorem playing_frame:
  assumes "reachable w" and "phase w = Playing"
  shows "frame (dispatch AnimationFrame w) = frame w + 1 \<and>
    cat (dispatch AnimationFrame w) = Cat_update (keys w) (cat w) \<and>
    (phase (dispatch AnimationFrame w) = GameOver \<longleftrightarrow> collides w) \<and>
    highScore (dispatch AnimationFrame w) =
      (if collides w then max (score (dispatch AnimationFrame w)) (highScore w)
       else highScore w) \<and>
    scheduled (dispatch AnimationFrame w) =
      (if collides w then [] else [(nextID w, CB_gameLoop)])"
proof -
  from reachable_inv [OF assms(1)] have s: "sched_inv w" by (simp add: world_inv_def)
  from assms(2) show ?thesis
    by (simp add: dispatch_frame_playing [OF s assms(2)] next_cat_def)
qed

theorem playing_frame_witness:
  "reachable world1 \<and> phase world1 = Playing \<and>
   frame (dispatch AnimationFrame world1) = 1 \<and>
   cat (dispatch AnimationFrame world1) =
     Cat_new\<lparr>cat_y := 124, cat_dy := - 10.4, isGrounded := False\<rparr>"
proof -
  have p: "phase world1 = Playing" by (simp add: world1_eq world0_eq)
  have k: "Cat_update (keys world1) (cat world1) =
      Cat_new\<lparr>cat_y := 124, cat_dy := - 10.4, isGrounded := False\<rparr>"
    by (rule Cat.equality) (simp_all add: world1_eq world0_eq cat_eval jumpHeld_def)
  from playing_frame [OF reachable_world1 p] reachable_world1 p k show ?thesis
    by (simp add: world1_eq world0_eq)
qed

text \<open>
  The start of a session. After the page has loaded with the
  canvas present, the phase is Idle, score and frame counter are 0, the speed
  is 5, there is no obstacle, no callback is waiting, and the cat stands on the
  ground at \<open>y = GROUND_Y - CAT_HEIGHT\<close>. Without the canvas, \<^verbatim>\<open>init\<close> has
  asked to be called again and the key listeners are not registered.
\<close>

theorem boot_state:
  "phase (boot st True g) = Idle \<and> score (boot st True g) = 0 \<and>
   frame (boot st True g) = 0 \<and> gameSpeed (boot st True g) = 5 \<and>
   obstacles (boot st True g) = [] \<and> scheduled (boot st True g) = [] \<and>
   listening (boot st True g) \<and> isGrounded (cat (boot st True g)) \<and>
   cat_y (cat (boot st True g)) = GROUND_Y - CAT_HEIGHT \<and>
   scheduled (boot st False g) = [(1, CB_init)] \<and> \<not> listening (boot st False g)"
  by (simp add: boot_eq Cat_new_def)

text \<open>
  \<^bold>\<open>C33.\<close> The guards of \<^verbatim>\<open>gameLoop\<close> never fire. Whenever the game loop is
  the callback the host is about to run, the drawing context exists and the
  game is running and not over, so neither early return of \<^verbatim>\<open>gameLoop\<close> is
  taken; and the queue behind it is empty, so the \<^verbatim>\<open>cancelAnimationFrame\<close> at
  the end of a round finds nothing to cancel.
\<close>

theorem loop_runs_only_when_playing:
  assumes "reachable w" and "scheduled w = (i, CB_gameLoop) # rest"
  shows "ctx w \<and> isPlaying w \<and> \<not> isGameOver w \<and> i = requestID w \<and> rest = [] \<and>
         cancelAnimationFrame i (w\<lparr>scheduled := rest\<rparr>) = w\<lparr>scheduled := rest\<rparr>"
proof -
  from reachable_inv [OF assms(1)] have "sched_inv w" by (simp add: world_inv_def)
  with assms(2) have "ctx w \<and> isPlaying w \<and> \<not> isGameOver w \<and> i = requestID w \<and> rest = []"
    by (auto simp: sched_inv_def split: if_splits)
  then show ?thesis by (simp add: cancelAnimationFrame_def)
qed

theorem loop_runs_only_when_playing_witness:
  "reachable world1 \<and> scheduled world1 = [(1, CB_gameLoop)] \<and> ctx world1 \<and>
   isPlaying world1 \<and> \<not> isGameOver world1"
proof -
  have s: "scheduled world1 = (1, CB_gameLoop) # []" by (simp add: world1_eq world0_eq)
  from loop_runs_only_when_playing [OF reachable_world1 s] reachable_world1 s
  show ?thesis by simp
qed

section \<open>Waiting for the canvas\<close>

lemma run_append: "run (es @ fs) w = run fs (run es w)"
  by (induction es arbitrary: w) simp_all

lemma run_snoc: "run (es @ [e]) w = dispatch e (run es w)"
  by (simp add: run_append)

lemma frames_Suc:
  "run (replicate (Suc n) AnimationFrame) w =
     dispatch AnimationFrame (run (replicate n AnimationFrame) w)"
  unfolding replicate_append_same [symmetric] replicate_Suc by (rule run_snoc)

lemma waiting_frames:
  "run (replicate n AnimationFrame) (boot st False g) =
     (boot st False g)\<lparr>scheduled := [(Suc n, CB_init)], nextID := n + 2\<rparr>"
proof (induction n)
  case 0
  show ?case by (simp add: boot_eq)
next
  case (Suc n)
  have "run (replicate (Suc n) AnimationFrame) (boot st False g) =
      dispatch AnimationFrame
        ((boot st False g)\<lparr>scheduled := [(Suc n, CB_init)], nextID := n + 2\<rparr>)"
    by (simp only: frames_Suc Suc)
  then show ?case
    by (simp add: dispatch_AnimationFrame run_callback_def init_eq boot_eq)
qed

text \<open>
  \<^bold>\<open>C27.\<close> The page without its canvas. When \<^verbatim>\<open>init\<close> does not find the canvas
  element it asks to be called again with the next animation frame, and so on
  for as long as the element is missing: after \<open>n\<close> frames exactly one call of
  \<^verbatim>\<open>init\<close> is waiting, nothing else has changed, and no key reaches the program
  because the listeners are not registered. Once the element is there, the
  next frame completes the initialisation: the world is the one a load with
  the canvas gives, but for the identifiers already handed out.
\<close>

theorem init_waits_for_canvas:
  "run (replicate n AnimationFrame) (boot st False g) =
     (boot st False g)\<lparr>scheduled := [(Suc n, CB_init)], nextID := n + 2\<rparr> \<and>
   dispatch (KeyDown code) (run (replicate n AnimationFrame) (boot st False g)) =
     run (replicate n AnimationFrame) (boot st False g) \<and>
   run (replicate n AnimationFrame @ [CanvasAdded, AnimationFrame]) (boot st False g) =
     (boot st True g)\<lparr>nextID := n + 2\<rparr>"
  by (simp only: run_append waiting_frames)
     (simp add: boot_eq dispatch_AnimationFrame run_callback_def init_eq)

text \<open>
  \<^bold>\<open>C23.\<close> No bird in the first 500 frames of a round. In every reachable
  world whose frame counter is at most 500 the list of obstacles holds
  cactuses and trash cans only, and while the counter is below 500 the
  obstacle the next frame would spawn is no bird either. The first speed-up
  to 5.5, at the end of frame 500, is what lets \<^verbatim>\<open>spawnObstacle\<close> pass its
  test \<^verbatim>\<open>gameSpeed > 5.2\<close>; a restart takes the list, the counter and the
  speed back together.
\<close>

theorem no_bird_before_speed_up:
  assumes "reachable w" and "frame w \<le> 500"
  shows "list_all (\<lambda>ob. obs_type ob \<noteq> BIRD) (obstacles w) \<and>
         (frame w < 500 \<longrightarrow>
            obs_type (spawned (gameSpeed w) (rng w)) \<noteq> BIRD)"
  using reachable_early_inv [OF assms(1)] assms(2)
  by (simp add: early_inv_def counters_inv_def chooseType_no_bird)

theorem no_bird_before_speed_up_witness:
  "reachable (dispatch AnimationFrame world1) \<and>
   frame (dispatch AnimationFrame world1) = 1 \<and>
   map obs_type (obstacles (dispatch AnimationFrame world1)) = [CACTUS] \<and>
   list_all (\<lambda>ob. obs_type ob \<noteq> BIRD) (obstacles (dispatch AnimationFrame world1))"
proof -
  have r: "reachable (dispatch AnimationFrame world1)"
    by (intro reachable.step reachable_world1)
  have c: "frame (dispatch AnimationFrame world1) = 1 \<and>
      map obs_type (obstacles (dispatch AnimationFrame world1)) = [CACTUS]"
    by (simp add: dispatch_AnimationFrame world1_eq world0_eq run_callback_def first_frame_defs
        forEach_obstacles_eq spawnObstacle_eq spawns_def spawned_def chooseType_def
        Obstacle_new_eqs Obstacle_update_eq speedMultiplier_def game_consts)
  from no_bird_before_speed_up [OF r] r c show ?thesis by simp
qed

end
