(* ===== verification/Spacing.thy ===== *)
theory Spacing
  imports Session
begin

text \<open>
  The order and the spacing of the obstacles. \<^verbatim>\<open>spawnObstacle\<close> appends a new
  obstacle at the right edge only when the last obstacle of the list is
  further than \<open>250 + 15 * gameSpeed\<close> from that edge, and every frame moves
  all obstacles to the left: a cactus or a trash can by the speed, a bird by
  1.2 times the speed. So a bird closes in on the obstacle before it, by a
  fifth of the speed per frame; this theory shows that it never catches up.

  \<open>gap_ok a b\<close> says that \<open>b\<close> is further right than \<open>a\<close> by more than 218
  plus a fifth of what \<open>a\<close> has left to travel until its right edge leaves the
  field (multiplied by 5 to avoid the fraction). A frame keeps this relation
  between any two obstacles, whatever their types, and a spawn establishes it
  between every obstacle of the list and the new one from speed 5 on.
  \<open>spacing_inv\<close> says that the obstacles of the list are pairwise in this
  relation, in the order of the list, and lie in the field (\<open>in_field\<close>).
  \<open>round_inv\<close> joins it with the two invariants of the session it depends on.
\<close>

section \<open>Definitions\<close>

definition in_field :: "Obstacle \<Rightarrow> bool" where
  "in_field ob \<longleftrightarrow> 0 \<le> obs_x ob + obs_w ob \<and> obs_x ob < GAME_WIDTH"

definition gap_ok :: "Obstacle \<Rightarrow> Obstacle \<Rightarrow> bool" where
  "gap_ok a b \<longleftrightarrow> 6 * obs_x a + obs_w a + 1090 < 5 * obs_x b"

definition spacing_inv :: "world \<Rightarrow> bool" where
  "spacing_inv w \<longleftrightarrow> list_all in_field (obstacles w) \<and> sorted_wrt gap_ok (obstacles w)"

definition round_inv :: "world \<Rightarrow> bool" where
  "round_inv w \<longleftrightarrow> counters_inv w \<and> entities_inv w \<and> spacing_inv w"

section \<open>One frame\<close>

lemma gap_ok_update:
  assumes "0 \<le> s" "gap_ok a b"
  shows "gap_ok (Obstacle_update s a) (Obstacle_update s b)"
proof -
  have "s * speedMultiplier (obs_type b) \<le> 6 / 5 * s" "s \<le> s * speedMultiplier (obs_type a)"
    using assms(1) by (simp_all add: speedMultiplier_def mult_left_mono)
  with assms(2) show ?thesis by (simp add: gap_ok_def)
qed

lemma sorted_gap_update:
  assumes "0 \<le> s" "sorted_wrt gap_ok obs"
  shows "sorted_wrt gap_ok (map (Obstacle_update s) obs)"
  using assms(2) unfolding sorted_wrt_map
  by (rule sorted_wrt_mono_rel [rotated]) (simp add: gap_ok_update assms(1))

lemma in_field_update:
  assumes "0 < s" "obs_x ob \<le> GAME_WIDTH" "\<not> markedForDeletion (Obstacle_update s ob)"
  shows "in_field (Obstacle_update s ob)"
proof -
  from assms(1) have "0 < s * speedMultiplier (obs_type ob)" by simp
  with assms(2,3) show ?thesis by (simp add: in_field_def split: if_splits)
qed

lemma in_field_frame:
  assumes "0 < s" "list_all (\<lambda>ob. obs_x ob \<le> GAME_WIDTH) obs"
  shows "list_all in_field (filter (\<lambda>ob. \<not> markedForDeletion ob) (map (Obstacle_update s) obs))"
  using assms by (induction obs) (simp_all add: in_field_update)

lemma gap_ok_spawned:
  assumes "5 \<le> speed" "rng_ok g" "spawns speed obs g" "sorted_wrt gap_ok obs"
    "list_all obs_wf obs" "a \<in> set obs"
  shows "gap_ok a (spawned speed g)"
proof -
  from assms(6) have ne: "obs \<noteq> []" by auto
  then have split: "obs = butlast obs @ [last obs]" by simp
  from assms(5) ne have "obs_wf (last obs)" by (simp add: list_all_iff)
  then have w: "obs_w (last obs) \<le> 60" by (simp add: obs_wf_width)
  from assms(1,2,3) ne have far: "obs_x (last obs) < 475"
    using spawns_gap [of g speed obs] by (simp add: game_consts)
  show ?thesis
  proof (cases "a = last obs")
    case True
    with w far show ?thesis by (simp add: gap_ok_def game_consts)
  next
    case False
    with assms(6) split have "a \<in> set (butlast obs)" by (metis Un_iff set_append empty_iff empty_set set_ConsD)
    with assms(4) split have "gap_ok a (last obs)" by (metis sorted_wrt_append list.set_intros(1))
    with far show ?thesis by (simp add: gap_ok_def game_consts)
  qed
qed

lemma sorted_gap_spawn:
  assumes "5 \<le> speed" "rng_ok g" "sorted_wrt gap_ok obs" "list_all obs_wf obs"
  shows "sorted_wrt gap_ok (fst (spawnObstacle speed obs g))"
  using assms by (auto simp: spawnObstacle_eq sorted_wrt_append gap_ok_spawned)

lemma spawn_in_field:
  assumes "list_all in_field obs"
  shows "list_all (\<lambda>ob. obs_x ob \<le> GAME_WIDTH) (fst (spawnObstacle speed obs g))"
  using assms by (auto simp: spawnObstacle_eq list_all_iff in_field_def)

lemma counters_inv_speed: "counters_inv w \<Longrightarrow> 5 \<le> gameSpeed w"
  by (simp add: counters_inv_def)

lemma round_inv_simulate:
  assumes "round_inv w"
  shows "round_inv (simulate w)"
proof -
  from assms have c: "counters_inv w" and e: "entities_inv w" and s: "spacing_inv w"
    by (simp_all add: round_inv_def)
  from c have v: "5 \<le> gameSpeed w" by (rule counters_inv_speed)
  from e have r: "rng_ok (rng w)" and wf: "list_all obs_wf (obstacles w)"
    by (simp_all add: entities_inv_def list_all_live_wf)
  from s v r wf have "sorted_wrt gap_ok (moved_obstacles w)"
    unfolding moved_obstacles_def by (intro sorted_gap_update sorted_gap_spawn) (simp_all add: spacing_inv_def)
  then have "sorted_wrt gap_ok (obstacles (simulate w))" by (simp add: sorted_wrt_filter)
  moreover from s v have "list_all in_field (obstacles (simulate w))"
    by (simp add: moved_obstacles_def in_field_frame spawn_in_field spacing_inv_def)
  ultimately show ?thesis
    using c e by (simp add: round_inv_def spacing_inv_def counters_inv_simulate entities_inv_simulate)
qed

section \<open>Every event\<close>

lemmas round_inv_defs = round_inv_def counters_inv_def entities_inv_def spacing_inv_def

lemma round_inv_finish: "round_inv w \<Longrightarrow> round_inv (stage_finish w)"
  by (simp add: round_inv_defs)

lemma round_inv_gameLoop: "round_inv w \<Longrightarrow> round_inv (gameLoop w)"
  by (erule gameLoop_preserves) (simp add: round_inv_simulate round_inv_finish)

lemma round_inv_keydown: "round_inv w \<Longrightarrow> round_inv (keydown code w)"
  by (simp add: keydown_eq resetGame_eq round_inv_defs cat_reach.cat_new)

lemma round_inv_init: "round_inv w \<Longrightarrow> round_inv (init w)"
  by (simp add: init_eq round_inv_defs cat_reach.cat_new)

lemma round_inv_dispatch: "round_inv w \<Longrightarrow> round_inv (dispatch e w)"
  by (erule dispatch_preserves)
     (simp_all add: round_inv_keydown round_inv_init round_inv_gameLoop, simp_all add: round_inv_defs)

lemma reachable_round_inv: "reachable w \<Longrightarrow> round_inv w"
proof (induction rule: reachable.induct)
  case (boot g st present)
  then show ?case
    by (simp add: boot_eq round_inv_defs cat_reach.cat_new)
next
  case (step w e)
  then show ?case by (simp add: round_inv_dispatch)
qed

section \<open>What the spacing gives\<close>

lemma gap_ok_far: "in_field a \<Longrightarrow> gap_ok a b \<Longrightarrow> obs_x a + 218 < obs_x b"
  by (simp add: in_field_def gap_ok_def)

lemma spaced_last:
  fixes f :: "'a \<Rightarrow> real"
  assumes "sorted_wrt (\<lambda>a b. f a + d < f b) xs" "xs \<noteq> []" "\<forall>x \<in> set xs. lo \<le> f x"
  shows "lo + d * real (length xs - 1) \<le> f (last xs)"
  using assms
proof (induction xs arbitrary: lo)
  case (Cons a xs)
  show ?case
  proof (cases "xs = []")
    case False
    from Cons.prems have "\<forall>x \<in> set xs. lo + d \<le> f x" by fastforce
    with Cons.prems False have "lo + d + d * real (length xs - 1) \<le> f (last xs)"
      by (intro Cons.IH) simp_all
    with False show ?thesis by (simp add: algebra_simps of_nat_diff Suc_leI)
  qed (use Cons.prems in simp)
qed simp

lemma spaced_obstacles:
  assumes "list_all in_field obs" "sorted_wrt gap_ok obs"
  shows "sorted_wrt (\<lambda>a b. obs_x a + 218 < obs_x b) obs"
  using assms
  by (induction obs) (auto simp: gap_ok_far list_all_iff)

lemma few_obstacles:
  assumes "list_all in_field obs" "list_all obs_wf obs" "sorted_wrt gap_ok obs"
  shows "length obs \<le> 4"
proof (cases "obs = []")
  case False
  from assms(1,2) have lo: "\<forall>ob \<in> set obs. - 60 \<le> obs_x ob"
    using obs_wf_width by (fastforce simp: list_all_iff in_field_def)
  from assms(1) False have "obs_x (last obs) < 800"
    by (simp add: list_all_iff in_field_def game_consts)
  with spaced_last [OF spaced_obstacles [OF assms(1,3)] False lo]
  have b: "218 * real (length obs - 1) < 860" by simp
  have "\<not> 4 \<le> length obs - 1"
  proof
    assume "4 \<le> length obs - 1"
    then have "4 \<le> real (length obs - 1)" by simp
    with b show False by simp
  qed
  then show ?thesis by simp
qed simp

lemma one_at_a_time:
  "sorted_wrt (\<lambda>a b. \<not> (P a \<and> P b)) xs \<Longrightarrow> length (filter P xs) \<le> 1"
  by (induction xs) (auto simp: filter_empty_conv)

lemma one_in_reach:
  assumes "list_all in_field obs" "list_all obs_wf obs" "sorted_wrt gap_ok obs"
  shows "length (filter hits_x obs) \<le> 1"
proof (rule one_at_a_time)
  from assms(2) have w: "\<forall>ob \<in> set obs. obs_w ob \<le> 60"
    by (simp add: list_all_iff obs_wf_width)
  show "sorted_wrt (\<lambda>a b. \<not> (hits_x a \<and> hits_x b)) obs"
  proof (rule sorted_wrt_mono_rel [OF _ spaced_obstacles [OF assms(1,3)]])
    fix a b assume "a \<in> set obs" "b \<in> set obs" "obs_x a + 218 < obs_x b"
    with w show "\<not> (hits_x a \<and> hits_x b)" by (auto simp: hits_x_def game_consts)
  qed
qed

section \<open>Every reachable world\<close>

text \<open>
  \<^bold>\<open>C14.\<close> The obstacles keep their order and their distance. In every
  reachable world the list of obstacles is ordered from left to right in the
  order of spawning, any two obstacles are more than 218 pixels apart, every
  obstacle has its right edge in the field and its left edge left of the
  right border, there are at most four obstacles, and at most one of them is
  in the columns where it can touch the cat. No bird ever overtakes the
  obstacle spawned before it.
\<close>

theorem obstacles_are_spaced:
  assumes "reachable w"
  shows "sorted_wrt (\<lambda>a b. obs_x a + 218 < obs_x b) (obstacles w) \<and>
         list_all in_field (obstacles w) \<and> length (obstacles w) \<le> 4 \<and>
         length (filter hits_x (obstacles w)) \<le> 1"
proof -
  from reachable_round_inv [OF assms]
  have "list_all in_field (obstacles w)" "sorted_wrt gap_ok (obstacles w)"
    "list_all obs_wf (obstacles w)"
    by (simp_all add: round_inv_defs list_all_live_wf)
  then show ?thesis
    using one_in_reach [of "obstacles w"] by (simp add: spaced_obstacles few_obstacles)
qed

theorem obstacles_are_spaced_witness:
  "reachable (dispatch AnimationFrame world1) \<and>
   obstacles (dispatch AnimationFrame world1) =
     [\<lparr>obs_x = 795, obs_y = 130, obs_w = 40, obs_h = 45, obs_type = CACTUS,
       markedForDeletion = False, groupSize = 2\<rparr>] \<and>
   list_all in_field (obstacles (dispatch AnimationFrame world1)) \<and>
   filter hits_x (obstacles (dispatch AnimationFrame world1)) = []"
proof -
  have r: "reachable (dispatch AnimationFrame world1)"
    by (intro reachable.step reachable_world1)
  have o: "obstacles (dispatch AnimationFrame world1) =
     [\<lparr>obs_x = 795, obs_y = 130, obs_w = 40, obs_h = 45, obs_type = CACTUS,
       markedForDeletion = False, groupSize = 2\<rparr>]"
    by (simp add: dispatch_AnimationFrame world1_eq world0_eq run_callback_def first_frame_defs
        forEach_obstacles_eq spawnObstacle_eq spawns_def spawned_def chooseType_def
        Obstacle_new_eqs Obstacle_update_eq speedMultiplier_def game_consts)
  from obstacles_are_spaced [OF r] r o show ?thesis by (simp add: hits_x_def game_consts)
qed

end
