(* ===== verification/Playability.thy ===== *)
theory Playability
  imports Collision
begin

text \<open>
  Can the game be played? The cat, the obstacles and the collision test
  together: what a cat that stays on the ground cannot avoid, and what a
  standing jump clears.

  The frames are counted from a moment at which the cat stands and an
  obstacle is somewhere to its right. In each frame \<^verbatim>\<open>gameLoop\<close> updates the
  cat, then the obstacle, then tests the two for a collision; so the test of
  frame \<open>n\<close> sees the cat after \<open>n\<close> updates (\<open>cats ks n\<close>, under the key
  states \<open>ks\<close>) and the obstacle after \<open>n\<close> updates (\<open>moved s n ob\<close>, at speed
  \<open>s\<close>). \<open>jump_at k\<close> is the script of a player who presses the jump key in
  frame \<open>k\<close> (counted from 0) and no other key.

  A cactus or a trash can (a \<open>ground_obstacle\<close>) overlaps the cat
  horizontally while its left edge is between \<open>reach_left - w\<close> and
  \<open>reach_right\<close>. A standing jump is above every ground obstacle in its frames
  4 to 32. So a jump clears the obstacle when the obstacle is still right of
  \<open>reach_right\<close> three frames after the take-off and left of
  \<open>reach_left - w\<close> 33 frames after it: the \<open>take_off_window\<close>. The window is
  wider than one step of the obstacle at every speed from 5 on, so some frame
  finds the obstacle in it.
\<close>

section \<open>Scripts, movement and the window\<close>

primrec cats :: "(nat \<Rightarrow> keys) \<Rightarrow> nat \<Rightarrow> Cat" where
  "cats ks 0 = Cat_new"
| "cats ks (Suc n) = Cat_update (ks n) (cats ks n)"

definition jump_at :: "nat \<Rightarrow> nat \<Rightarrow> keys" where
  "jump_at k n = (if n = k then jump_keys else keys_init)"

definition moved :: "real \<Rightarrow> nat \<Rightarrow> Obstacle \<Rightarrow> Obstacle" where
  "moved s n ob = (Obstacle_update s ^^ n) ob"

definition ground_obstacle :: "Obstacle \<Rightarrow> bool" where
  "ground_obstacle ob \<longleftrightarrow> obs_wf ob \<and> obs_type ob \<noteq> BIRD"

definition reach_right :: real where
  "reach_right = CAT_X + CAT_WIDTH - catMargin - obsMargin"

definition reach_left :: real where
  "reach_left = CAT_X + catMargin + obsMargin"

definition take_off_window :: "real \<Rightarrow> Obstacle \<Rightarrow> bool" where
  "take_off_window s ob \<longleftrightarrow>
     reach_right + 3 * s \<le> obs_x ob \<and> obs_x ob + obs_w ob \<le> reach_left + 33 * s"

section \<open>An obstacle cannot skip a window wider than its step\<close>

lemma steps_meet_window:
  fixes s L U x0 :: real
  assumes "0 < s" "L + s \<le> U" "L + s \<le> x0"
  shows "\<exists>i\<ge>1. L \<le> x0 - real i * s \<and> x0 - real i * s \<le> U \<and> (\<forall>n<i. L + s \<le> x0 - real n * s)"
proof -
  let ?P = "\<lambda>i::nat. 1 \<le> i \<and> x0 - real i * s \<le> U"
  obtain m :: nat where "x0 - U < real m * s"
    using reals_Archimedean3 [OF assms(1)] by blast
  with assms(1) have "?P (Suc m)" by (simp add: algebra_simps)
  define i where "i = (LEAST i. ?P i)"
  have i: "?P i" unfolding i_def using \<open>?P (Suc m)\<close> by (rule LeastI)
  have before: "U < x0 - real n * s" if "1 \<le> n" "n < i" for n
    using not_less_Least [of n ?P] that by (simp add: i_def)
  have low: "L \<le> x0 - real i * s"
  proof (cases "i = 1")
    case True
    with assms(3) show ?thesis by simp
  next
    case False
    with i have "1 \<le> i - 1" "i - 1 < i" by auto
    then have "U < x0 - real (i - 1) * s" by (rule before)
    with i assms(2) show ?thesis by (simp add: of_nat_diff algebra_simps)
  qed
  have "L + s \<le> x0 - real n * s" if "n < i" for n
  proof (cases "n = 0")
    case True
    with assms(3) show ?thesis by simp
  next
    case False
    with that before [of n] assms(2) show ?thesis by simp
  qed
  with i low show ?thesis by blast
qed

section \<open>The pieces\<close>

lemma moved_fields [simp]:
  "obs_y (moved s n ob) = obs_y ob" "obs_w (moved s n ob) = obs_w ob"
  "obs_h (moved s n ob) = obs_h ob" "obs_type (moved s n ob) = obs_type ob"
  "groupSize (moved s n ob) = groupSize ob"
  by (simp_all add: moved_def)

lemma moved_x: "ground_obstacle ob \<Longrightarrow> obs_x (moved s n ob) = obs_x ob - real n * s"
  by (simp add: moved_def ground_obstacle_def Obstacle_update_funpow_x speedMultiplier_def)

lemma moved_add: "moved s (m + n) ob = moved s m (moved s n ob)"
  by (simp add: moved_def funpow_add)

lemma ground_obstacle_moved [simp]: "ground_obstacle (moved s n ob) = ground_obstacle ob"
  by (simp add: ground_obstacle_def obs_wf_def)

lemma ground_obstacle_top: "ground_obstacle ob \<Longrightarrow> GROUND_Y - 55 < obs_y ob"
  by (cases "obs_type ob") (auto simp: ground_obstacle_def obs_wf_def)

lemma no_hit_right:
  assumes "cat_x c = CAT_X" "cat_w c = CAT_WIDTH" "reach_right \<le> obs_x ob"
  shows "\<not> checkCollision c ob"
  using assms by (simp add: checkCollision_def reach_right_def)

lemma no_hit_left:
  assumes "cat_x c = CAT_X" "obs_x ob + obs_w ob \<le> reach_left"
  shows "\<not> checkCollision c ob"
  using assms by (simp add: checkCollision_def reach_left_def)

lemma flight_Suc: "flight (Suc n) = Cat_update keys_init (flight n)"
  by (simp add: flight_def)

lemma flight_frame [simp]: "cat_x (flight n) = CAT_X" "cat_w (flight n) = CAT_WIDTH"
  by (induction n) (simp_all add: flight_Suc, simp_all add: flight_def Cat_new_def)

lemma flight_y_clear:
  assumes "4 \<le> n" "n \<le> 32"
  shows "flight_y n \<le> 89"
proof -
  define p where "p = (real n - 4) * (real n - 32)"
  have "flight_y n - 89 = 3 / 10 * p + real n / 10 - 17 / 5"
    by (simp add: p_def flight_y_def field_simps)
  moreover from assms have "p \<le> 0"
    unfolding p_def by (intro mult_nonneg_nonpos) simp_all
  moreover from assms have "real n \<le> 34" by simp
  ultimately show ?thesis by linarith
qed

lemma flight_above_ground_obstacles:
  assumes "4 \<le> n" "n \<le> 32" "ground_obstacle ob"
  shows "\<not> checkCollision (flight n) ob"
  using flight_y_clear [OF assms(1,2)] ground_obstacle_top [OF assms(3)] assms(2)
  by (simp add: flight_closed_form checkCollision_def Cat_new_def game_consts)

lemma timed_jump:
  assumes "ground_obstacle ob" "0 \<le> s" "take_off_window s ob"
  shows "\<not> checkCollision (flight n) (moved s n ob)"
proof -
  consider "n \<le> 3" | "4 \<le> n" "n \<le> 32" | "33 \<le> n" by linarith
  then show ?thesis
  proof cases
    case 1
    with assms(2) have "real n * s \<le> 3 * s" by (intro mult_right_mono) simp_all
    with assms(1,3) show ?thesis
      by (intro no_hit_right) (simp_all add: moved_x take_off_window_def)
  next
    case 2
    with assms(1) show ?thesis by (intro flight_above_ground_obstacles) simp_all
  next
    case 3
    with assms(2) have "33 * s \<le> real n * s" by (intro mult_right_mono) simp_all
    with assms(1,3) show ?thesis
      by (intro no_hit_left) (simp_all add: moved_x take_off_window_def)
  qed
qed

lemma Cat_update_idle [simp]: "Cat_update keys_init Cat_new = Cat_new"
  by (rule Cat.equality) (simp_all add: cat_eval jumpHeld_def)

lemma cats_wait: "n \<le> k \<Longrightarrow> cats (jump_at k) n = Cat_new"
  by (induction n) (simp_all add: jump_at_def)

lemma cats_flight: "cats (jump_at k) (Suc k + n) = flight n"
  by (induction n) (simp_all add: cats_wait flight_Suc, simp_all add: jump_at_def flight_def)

lemma jumpable:
  assumes "ground_obstacle ob" "5 \<le> s" "reach_right + 4 * s \<le> obs_x ob"
  shows "\<exists>k. \<forall>n. \<not> checkCollision (cats (jump_at k) n) (moved s n ob)"
proof -
  let ?L = "reach_right + 3 * s" and ?U = "reach_left + 33 * s - obs_w ob"
  from assms(1) have w: "obs_w ob \<le> 60" by (simp add: ground_obstacle_def obs_wf_width)
  with assms(2) have "?L + s \<le> ?U" by (simp add: reach_right_def reach_left_def game_consts)
  with assms(2,3) obtain i where i: "1 \<le> i" "?L \<le> obs_x ob - real i * s"
      "obs_x ob - real i * s \<le> ?U" "\<forall>n<i. ?L + s \<le> obs_x ob - real n * s"
    using steps_meet_window [of s ?L ?U "obs_x ob"] by auto
  from assms(1) i(2,3) have win: "take_off_window s (moved s i ob)"
    by (simp add: take_off_window_def moved_x)
  have "\<not> checkCollision (cats (jump_at (i - 1)) n) (moved s n ob)" for n
  proof (cases "n < i")
    case True
    with i(4) assms(2) have "reach_right \<le> obs_x ob - real n * s" by auto
    with True assms(1) show ?thesis
      by (intro no_hit_right) (simp_all add: cats_wait moved_x Cat_new_def)
  next
    case False
    with i(1) have "cats (jump_at (i - 1)) n = flight (n - i)"
      using cats_flight [of "i - 1" "n - i"] by simp
    moreover from False have "moved s n ob = moved s (n - i) (moved s i ob)"
      using moved_add [of s "n - i" i ob] by simp
    moreover have "\<not> checkCollision (flight (n - i)) (moved s (n - i) (moved s i ob))"
      using assms(1,2) win by (intro timed_jump) simp_all
    ultimately show ?thesis by simp
  qed
  then show ?thesis by blast
qed

lemma must_jump:
  assumes "ground_obstacle ob" "0 < s" "s < 26 + obs_w ob" "reach_right \<le> obs_x ob"
    and "\<forall>n. cat_wf (cs n) \<and> isGrounded (cs n)"
  shows "\<exists>n. checkCollision (cs n) (moved s n ob)"
proof -
  define e where "e = (26 + obs_w ob - s) / 2"
  from assms(3) have e: "0 < e" "e < 26 + obs_w ob - s" by (simp_all add: e_def)
  with assms(2,4) obtain i :: nat where "reach_right - e - s \<le> obs_x ob - real i * s"
      "obs_x ob - real i * s \<le> reach_right - e"
    using steps_meet_window [of s "reach_right - e - s" "reach_right - e" "obs_x ob"] by auto
  with e assms(1) have "hits_x (moved s i ob)"
    by (simp add: hits_x_def moved_x reach_right_def game_consts)
  with assms(1,5) have "checkCollision (cs i) (moved s i ob)"
    by (subst checkCollision_grounded) (simp_all add: ground_obstacle_def obs_wf_def)
  then show ?thesis ..
qed

lemma sample_cactus:
  "fst (Obstacle_new x0 CACTUS (sconst (1 / 2))) =
     \<lparr>obs_x = x0, obs_y = 130, obs_w = 40, obs_h = 45, obs_type = CACTUS,
      markedForDeletion = False, groupSize = 2\<rparr>"
  "ground_obstacle (fst (Obstacle_new x0 CACTUS (sconst (1 / 2))))"
  by (simp_all add: ground_obstacle_def Obstacle_new_wf, simp add: Obstacle_new_eqs game_consts)

section \<open>Jumping is necessary and sufficient\<close>

text \<open>
  \<^bold>\<open>C10.\<close> A well-timed standing jump clears every cactus and every trash
  can. If the obstacle is in the take-off window in the frame of the take-off,
  then in no later frame does the collision test report a hit on the jumping
  cat; and from the 33rd frame after the take-off the obstacle is behind the
  cat, where it hits no cat at the cat's column, whatever the player does.
\<close>

theorem timed_jump_clears:
  assumes "ground_obstacle ob" and "0 \<le> s" and "take_off_window s ob"
  shows "\<not> checkCollision (flight n) (moved s n ob) \<and>
         (33 \<le> n \<and> cat_x c = CAT_X \<longrightarrow> \<not> checkCollision c (moved s n ob))"
proof -
  have "\<not> checkCollision c (moved s n ob)" if "33 \<le> n" "cat_x c = CAT_X"
  proof -
    from that(1) assms(2) have "33 * s \<le> real n * s" by (intro mult_right_mono) simp_all
    with assms(1,3) that(2) show ?thesis
      by (intro no_hit_left) (simp_all add: moved_x take_off_window_def)
  qed
  with timed_jump [OF assms] show ?thesis by simp
qed

theorem timed_jump_clears_witness:
  "ground_obstacle (fst (Obstacle_new 160 CACTUS (sconst (1 / 2)))) \<and>
   take_off_window 5 (fst (Obstacle_new 160 CACTUS (sconst (1 / 2)))) \<and>
   hits_x (moved 5 20 (fst (Obstacle_new 160 CACTUS (sconst (1 / 2))))) \<and>
   \<not> checkCollision (flight 20) (moved 5 20 (fst (Obstacle_new 160 CACTUS (sconst (1 / 2)))))"
proof -
  let ?ob = "fst (Obstacle_new 160 CACTUS (sconst (1 / 2)))"
  have w: "take_off_window 5 ?ob"
    by (simp add: take_off_window_def sample_cactus reach_right_def reach_left_def game_consts)
  have h: "hits_x (moved 5 20 ?ob)"
    by (simp add: hits_x_def moved_x sample_cactus(2)) (simp add: sample_cactus(1) game_consts)
  have n: "\<not> checkCollision (flight 20) (moved 5 20 ?ob)"
    by (simp add: checkCollision_def flight_closed_form flight_y_def moved_x sample_cactus(2))
       (simp add: sample_cactus(1) Cat_new_def game_consts)
  from timed_jump_clears [OF sample_cactus(2) _ w, of 20] sample_cactus(2) w h n
  show ?thesis by simp
qed

text \<open>
  \<^bold>\<open>C15.\<close> Every cactus and every trash can is jumpable at every speed from 5
  on. If the obstacle is at least four steps right of \<open>reach_right\<close> when the
  player first sees it, there is a frame in which to press the jump key such
  that the collision test reports no hit in any frame, before, during or after
  the jump.
\<close>

theorem ground_obstacle_can_be_jumped:
  assumes "ground_obstacle ob" and "5 \<le> s" and "reach_right + 4 * s \<le> obs_x ob"
  shows "\<exists>k. \<forall>n. \<not> checkCollision (cats (jump_at k) n) (moved s n ob)"
  using assms by (rule jumpable)

theorem ground_obstacle_can_be_jumped_witness:
  "ground_obstacle (fst (Obstacle_new 800 CACTUS (sconst (1 / 2)))) \<and>
   reach_right + 4 * 5 \<le> obs_x (fst (Obstacle_new 800 CACTUS (sconst (1 / 2)))) \<and>
   (\<exists>k. \<forall>n. \<not> checkCollision (cats (jump_at k) n)
           (moved 5 n (fst (Obstacle_new 800 CACTUS (sconst (1 / 2))))))"
proof -
  have x: "reach_right + 4 * 5 \<le> obs_x (fst (Obstacle_new 800 CACTUS (sconst (1 / 2))))"
    by (simp add: reach_right_def game_consts)
  from ground_obstacle_can_be_jumped [OF sample_cactus(2) _ x] sample_cactus(2) x
  show ?thesis by simp
qed

text \<open>
  \<^bold>\<open>C16.\<close> A cat that stays on the ground is hit. At every speed below 46,
  a cactus or a trash can that starts at or right of \<open>reach_right\<close> hits, in
  some frame, every cat that is on the ground in all frames, standing or
  crouching: the obstacle cannot be avoided without a jump.
\<close>

theorem ground_obstacle_must_be_jumped:
  assumes "ground_obstacle ob" and "0 < s" and "s < 46" and "reach_right \<le> obs_x ob"
    and "\<forall>n. cat_wf (cs n) \<and> isGrounded (cs n)"
  shows "\<exists>n. checkCollision (cs n) (moved s n ob)"
proof -
  from assms(1) have "20 \<le> obs_w ob" by (simp add: ground_obstacle_def obs_wf_width)
  with assms(3) have "s < 26 + obs_w ob" by simp
  with assms(1,2) show ?thesis using assms(4,5) by (rule must_jump)
qed

theorem ground_obstacle_must_be_jumped_witness:
  "ground_obstacle (fst (Obstacle_new 800 CACTUS (sconst (1 / 2)))) \<and>
   (\<exists>n. checkCollision Cat_new (moved 5 n (fst (Obstacle_new 800 CACTUS (sconst (1 / 2))))))"
proof -
  have x: "reach_right \<le> obs_x (fst (Obstacle_new 800 CACTUS (sconst (1 / 2))))"
    by (simp add: reach_right_def game_consts)
  have c: "\<forall>n::nat. cat_wf Cat_new \<and> isGrounded Cat_new"
    by (simp add: cat_wf_new) (simp add: Cat_new_def)
  from ground_obstacle_must_be_jumped [OF sample_cactus(2) _ _ x c] sample_cactus(2)
  show ?thesis by simp
qed

text \<open>
  \<^bold>\<open>C36.\<close> The collision test looks at the positions of the frames only. At
  speed 51 a single cactus spawned at the right edge is right of the cat's
  columns after 14 updates and left of them after 15: a cat that stands still
  is not hit in any frame.
\<close>

theorem fast_cactus_passes_through:
  "ground_obstacle (fst (Obstacle_new 800 CACTUS (sconst 0))) \<and>
   obs_w (fst (Obstacle_new 800 CACTUS (sconst 0))) = 20 \<and>
   (\<forall>n. \<not> checkCollision Cat_new (moved 51 n (fst (Obstacle_new 800 CACTUS (sconst 0)))))"
proof -
  let ?ob = "fst (Obstacle_new 800 CACTUS (sconst 0))"
  have g: "ground_obstacle ?ob" by (simp add: ground_obstacle_def Obstacle_new_wf)
  have w: "obs_w ?ob = 20" by (simp add: Obstacle_new_eqs)
  have "\<not> checkCollision Cat_new (moved 51 n ?ob)" for n
  proof (cases "n \<le> 14")
    case True
    then have "real n * 51 \<le> 14 * 51" by (intro mult_right_mono) simp_all
    then show ?thesis
      by (intro no_hit_right) (simp_all add: moved_x g Cat_new_def reach_right_def game_consts)
  next
    case False
    then have "15 * 51 \<le> real n * 51" by (intro mult_right_mono) simp_all
    then show ?thesis
      by (intro no_hit_left) (simp_all add: moved_x g w Cat_new_def reach_left_def game_consts)
  qed
  with g w show ?thesis by simp
qed

end
