(* ===== verification/Idle_Round.thy ===== *)
theory Idle_Round
  imports Spacing Playability
begin

text \<open>
  The round of a player who starts the game and then touches no key: the
  components put together over a whole round. The first call of
  \<^verbatim>\<open>spawnObstacle\<close> finds the list empty and spawns; the speed is 5, so
  \<^verbatim>\<open>chooseType\<close> gives a cactus or a trash can, whatever the draw; the obstacle
  moves 5 to the left in every frame, stays the first of the list, and no
  obstacle spawned behind it comes within reach of the cat before it does; the
  cat stays on the ground. The 144th frame puts the left edge of the obstacle
  at 80, left of the right edge of the cat's shrunk box at 85, and
  \<^verbatim>\<open>checkCollision\<close> reports the hit: the round ends there, with a score of 28,
  for every random source within contract.

  \<open>first_inv n\<close> is the invariant of the first 164 frames of a round, whatever
  the player does: what \<open>round_inv\<close> and \<open>sched_inv\<close> say of every reachable
  world, the phase Playing, the frame counter \<open>n\<close>, and the first obstacle a
  cactus or trash can at \<open>GAME_WIDTH - 5 * n\<close>. While it holds, only the first
  obstacle can hit the cat. \<open>idle_inv n\<close> adds what the idle player keeps: no
  jump key down and the cat on the ground. \<open>fresh_inv\<close> says what a world
  looks like in which no round was started yet.
\<close>

section \<open>Definitions\<close>

definition fresh_inv :: "world \<Rightarrow> bool" where
  "fresh_inv w \<longleftrightarrow>
     (\<not> isPlaying w \<longrightarrow> obstacles w = [] \<and> frame w = 0 \<and> cat w = Cat_new)"

definition first_inv :: "nat \<Rightarrow> world \<Rightarrow> bool" where
  "first_inv n w \<longleftrightarrow>
     round_inv w \<and> sched_inv w \<and> phase w = Playing \<and> frame w = n \<and>
     (case obstacles w of
        [] \<Rightarrow> n = 0
      | a # rest \<Rightarrow> obs_type a \<noteq> BIRD \<and> obs_x a = GAME_WIDTH - 5 * real n)"

definition idle_inv :: "nat \<Rightarrow> world \<Rightarrow> bool" where
  "idle_inv n w \<longleftrightarrow> first_inv n w \<and> \<not> jumpHeld (keys w) \<and> isGrounded (cat w)"

definition idle_round :: "nat \<Rightarrow> event list" where
  "idle_round n = KeyDown ''Space'' # KeyUp ''Space'' # replicate n AnimationFrame"

section \<open>Before the first round\<close>

lemma fresh_inv_gameLoop: "fresh_inv w \<Longrightarrow> fresh_inv (gameLoop w)"
  by (cases "ctx w \<and> isPlaying w") (auto simp: gameLoop_playing gameLoop_idle fresh_inv_def)

lemma fresh_inv_dispatch: "fresh_inv w \<Longrightarrow> fresh_inv (dispatch e w)"
  by (erule dispatch_preserves)
     (simp_all add: fresh_inv_gameLoop, auto simp: fresh_inv_def keydown_eq resetGame_eq init_eq)

lemma reachable_fresh: "reachable w \<Longrightarrow> fresh_inv w"
  by (induction rule: reachable.induct)
     (simp_all add: fresh_inv_dispatch, simp add: fresh_inv_def boot_eq)

lemma idle_start:
  assumes "reachable w" "listening w" "phase w \<noteq> Playing" "\<not> ArrowUp (keys w)"
  shows "idle_inv 0 (run [KeyDown ''Space'', KeyUp ''Space''] w) \<and>
         cat (run [KeyDown ''Space'', KeyUp ''Space''] w) = Cat_new \<and>
         obstacles (run [KeyDown ''Space'', KeyUp ''Space''] w) = [] \<and>
         keys (run [KeyDown ''Space'', KeyUp ''Space''] w) = set_key ''Space'' False (keys w)"
proof -
  let ?w = "run [KeyDown ''Space'', KeyUp ''Space''] w"
  from assms(1) have "reachable ?w" by (rule reachable_run)
  then have r: "round_inv ?w" and s: "sched_inv ?w"
    by (simp_all add: reachable_round_inv reachable_inv [unfolded world_inv_def])
  from reachable_inv [OF assms(1)] have i: "isGameOver w \<longrightarrow> isPlaying w"
    by (simp add: world_inv_def sched_inv_def)
  define v where "v = keydown ''Space'' w"
  from reachable_fresh [OF assms(1)] assms(2-4) i
  have v: "listening v" "phase v = Playing" "frame v = 0" "\<not> ArrowUp (keys v)"
    "cat v = Cat_new" "obstacles v = []" "keys v = set_key ''Space'' True (keys w)"
    by (auto simp: v_def keydown_eq resetGame_eq starts_def fresh_inv_def)
  from assms(2) v(1) have "?w = keyup ''Space'' v" by (simp add: v_def)
  with v r s show ?thesis
    by (simp add: idle_inv_def first_inv_def jumpHeld_def) (simp add: Cat_new_def set_key_def)
qed

section \<open>The frames before the first obstacle has left\<close>

lemma gap_ok_right:
  assumes "gap_ok a b" "- 20 \<le> obs_x a" "0 \<le> obs_w a"
  shows "reach_right \<le> obs_x b"
  using assms by (simp add: gap_ok_def reach_right_def game_consts)

lemma first_moved:
  assumes "first_inv n w" "n \<le> 163"
  obtains a rest where "moved_obstacles w = a # rest" "ground_obstacle a"
    "obs_x a = GAME_WIDTH - 5 * real (Suc n)" "\<not> markedForDeletion a"
    "\<forall>b \<in> set rest. reach_right \<le> obs_x b"
proof -
  from assms(1) have c: "counters_inv w" and e: "entities_inv w" and s: "spacing_inv w"
    and fr: "frame w = n"
    by (simp_all add: first_inv_def round_inv_def)
  from c fr assms(2) have v: "gameSpeed w = 5" by (simp add: counters_inv_def)
  let ?L = "fst (spawnObstacle 5 (obstacles w) (rng w))"
  from e have r: "rng_ok (rng w)" and live: "list_all live (obstacles w)"
    by (simp_all add: entities_inv_def)
  from live have wf0: "list_all obs_wf (obstacles w)" by (rule list_all_live_wf)
  from s have "sorted_wrt gap_ok (obstacles w)" by (simp add: spacing_inv_def)
  with r wf0 have sorted: "sorted_wrt gap_ok ?L" by (intro sorted_gap_spawn) simp_all
  from r wf0 have wf: "list_all obs_wf ?L" by (rule spawn_keeps_wf)
  have "\<exists>a rest. ?L = a # rest \<and> obs_type a \<noteq> BIRD \<and> obs_x a = GAME_WIDTH - 5 * real n \<and>
      \<not> markedForDeletion a"
  proof (cases "obstacles w")
    case Nil
    with assms(1) have "n = 0" by (simp add: first_inv_def)
    with Nil show ?thesis by (simp add: spawnObstacle_eq spawns_def chooseType_no_bird)
  next
    case (Cons a rest)
    with assms(1) live show ?thesis by (auto simp: spawnObstacle_eq first_inv_def live_def)
  qed
  then obtain a rest where L: "?L = a # rest" and a: "obs_type a \<noteq> BIRD"
    "obs_x a = GAME_WIDTH - 5 * real n" "\<not> markedForDeletion a"
    by blast
  let ?a = "Obstacle_update 5 a"
  from wf L have w: "obs_wf a" "20 \<le> obs_w a" by (simp_all add: obs_wf_width)
  with a assms(2) have u: "\<not> markedForDeletion ?a" "obs_x ?a = GAME_WIDTH - 5 * real (Suc n)"
    by (simp_all add: speedMultiplier_def game_consts)
  with w assms(2) have x: "- 20 \<le> obs_x ?a" "0 \<le> obs_w ?a" by (simp_all add: game_consts)
  from sorted_gap_update [OF _ sorted, of 5]
  have "\<forall>b \<in> set (map (Obstacle_update 5) rest). gap_ok ?a b" by (simp add: L)
  then have far: "\<forall>b \<in> set (map (Obstacle_update 5) rest). reach_right \<le> obs_x b"
    using gap_ok_right [OF _ x] by blast
  show ?thesis
  proof (rule that)
    show "moved_obstacles w = ?a # map (Obstacle_update 5) rest"
      by (simp add: moved_obstacles_def v L)
    show "ground_obstacle ?a" using a(1) w(1) by (simp add: ground_obstacle_def)
  qed (rule u far)+
qed

lemma next_cat_frame:
  assumes "first_inv n w"
  shows "cat_wf (next_cat w)"
proof -
  from assms have "cat_wf (cat w)"
    by (simp add: first_inv_def round_inv_def entities_inv_def cat_reach_wf)
  then show ?thesis unfolding next_cat_def by (intro Cat_update_wf) (simp_all add: cat_wf_def)
qed

lemma first_decides:
  assumes "first_inv n w" "n \<le> 163"
  shows "collides w \<longleftrightarrow> checkCollision (next_cat w) (hd (moved_obstacles w))"
proof -
  from assms obtain a rest where M: "moved_obstacles w = a # rest"
    and far: "\<forall>b \<in> set rest. reach_right \<le> obs_x b"
    by (rule first_moved)
  from next_cat_frame [OF assms(1)] have "cat_x (next_cat w) = CAT_X" "cat_w (next_cat w) = CAT_WIDTH"
    by (simp_all add: cat_wf_def)
  with far have "\<forall>b \<in> set rest. \<not> checkCollision (next_cat w) b" by (simp add: no_hit_right)
  then show ?thesis by (auto simp: collides_def M)
qed

lemma first_far:
  assumes "first_inv n w" "n \<le> 142"
  shows "\<not> collides w"
proof -
  from assms(2) have n: "n \<le> 163" by simp
  with assms(1) obtain a rest where M: "moved_obstacles w = a # rest"
    and a: "obs_x a = GAME_WIDTH - 5 * real (Suc n)"
    by (rule first_moved)
  from a assms(2) have "reach_right \<le> obs_x a" by (simp add: reach_right_def game_consts)
  with next_cat_frame [OF assms(1)] show ?thesis
    by (simp add: first_decides [OF assms(1) n] M no_hit_right cat_wf_def)
qed

lemma first_step:
  assumes "first_inv n w" "n \<le> 163" "\<not> collides w"
  shows "first_inv (Suc n) (dispatch AnimationFrame w) \<and>
         cat (dispatch AnimationFrame w) = next_cat w \<and>
         keys (dispatch AnimationFrame w) = keys w \<and>
         highScore (dispatch AnimationFrame w) = highScore w"
proof -
  from assms(1) have s: "sched_inv w" and p: "phase w = Playing" and r: "round_inv w"
    and fr: "frame w = n"
    by (simp_all add: first_inv_def)
  have d: "dispatch AnimationFrame w = stage_finish (simulate (w\<lparr>scheduled := []\<rparr>))"
    using s p by (rule dispatch_frame_playing)
  from assms(1,2) obtain a rest where M: "moved_obstacles w = a # rest"
    and a: "ground_obstacle a" "obs_x a = GAME_WIDTH - 5 * real (Suc n)" "\<not> markedForDeletion a"
    by (rule first_moved)
  from r have "round_inv (dispatch AnimationFrame w)" by (rule round_inv_dispatch)
  moreover from s have "sched_inv (dispatch AnimationFrame w)" by (rule sched_inv_dispatch)
  moreover from p assms(3) have "phase (dispatch AnimationFrame w) = Playing" by (simp add: d)
  ultimately have "first_inv (Suc n) (dispatch AnimationFrame w)"
    using fr a by (simp add: first_inv_def) (simp add: d M ground_obstacle_def)
  with assms(3) p show ?thesis by (simp add: d)
qed

section \<open>The frames of the idle round\<close>

lemma idle_cat:
  assumes "idle_inv n w"
  shows "isGrounded (next_cat w)"
proof -
  from assms have "cat_wf (cat w)" "isGrounded (cat w)" "\<not> jumpHeld (keys w)"
    by (simp_all add: idle_inv_def first_inv_def round_inv_def entities_inv_def cat_reach_wf)
  then show ?thesis
    unfolding next_cat_def by (intro Cat_update_rest [THEN conjunct1]) (simp_all add: cat_wf_def)
qed

lemma idle_collides:
  assumes "idle_inv n w" "n \<le> 143"
  shows "collides w \<longleftrightarrow> n = 143"
proof -
  from assms have f: "first_inv n w" and n: "n \<le> 163" by (simp_all add: idle_inv_def)
  then obtain a rest where M: "moved_obstacles w = a # rest" and a: "ground_obstacle a"
    "obs_x a = GAME_WIDTH - 5 * real (Suc n)"
    by (rule first_moved)
  from a(1) have w: "20 \<le> obs_w a" "obs_wf a" "obs_type a \<noteq> BIRD"
    by (simp_all add: ground_obstacle_def obs_wf_width)
  from next_cat_frame [OF f] idle_cat [OF assms(1)] w(2,3)
  have "checkCollision (next_cat w) a \<longleftrightarrow> hits_x a" by (simp add: checkCollision_grounded)
  also from a(2) assms(2) w(1) have "\<dots> \<longleftrightarrow> n = 143" by (auto simp: hits_x_def game_consts)
  finally show ?thesis by (simp add: first_decides [OF f n] M)
qed

lemma idle_step:
  assumes "idle_inv n w" "n < 143"
  shows "idle_inv (Suc n) (dispatch AnimationFrame w) \<and>
         highScore (dispatch AnimationFrame w) = highScore w"
proof -
  from assms have "first_inv n w" "n \<le> 163" "\<not> collides w"
    by (simp_all add: idle_collides) (simp add: idle_inv_def)
  from first_step [OF this] assms(1) idle_cat [OF assms(1)] show ?thesis
    by (simp add: idle_inv_def)
qed

lemma idle_frames:
  assumes "idle_inv 0 w" "n \<le> 143"
  shows "idle_inv n (run (replicate n AnimationFrame) w) \<and>
         highScore (run (replicate n AnimationFrame) w) = highScore w"
  using assms(2)
proof (induction n)
  case 0
  from assms(1) show ?case by simp
next
  case (Suc n)
  from Suc have "idle_inv n (run (replicate n AnimationFrame) w)" "n < 143"
    "highScore (run (replicate n AnimationFrame) w) = highScore w"
    by simp_all
  then show ?case by (simp add: frames_Suc idle_step del: replicate_Suc)
qed

lemma idle_crash:
  assumes "idle_inv 143 w"
  shows "phase (dispatch AnimationFrame w) = GameOver \<and> frame (dispatch AnimationFrame w) = 144 \<and>
         score (dispatch AnimationFrame w) = 28 \<and>
         highScore (dispatch AnimationFrame w) = max 28 (highScore w)"
proof -
  from assms have s: "sched_inv w" and p: "phase w = Playing" and r: "round_inv w"
    and fr: "frame w = 143"
    by (simp_all add: idle_inv_def first_inv_def)
  have d: "dispatch AnimationFrame w = stage_finish (simulate (w\<lparr>scheduled := []\<rparr>))"
    using s p by (rule dispatch_frame_playing)
  from assms have c: "collides w" by (simp add: idle_collides)
  from r fr have "score w = 28" by (simp add: round_inv_def counters_inv_def)
  with p c fr show ?thesis by (simp add: d)
qed

lemma frozen_frames:
  assumes "sched_inv w" "listening w" "phase w \<noteq> Playing"
  shows "run (replicate k AnimationFrame) w = w"
  using assms by (induction k) (simp_all add: dispatch_frame_frozen)

lemma idle_round_run:
  "run (idle_round n) w = run (replicate n AnimationFrame) (run [KeyDown ''Space'', KeyUp ''Space''] w)"
  by (simp add: idle_round_def)

lemma idle_round_playing:
  assumes "idle_inv 0 w" "n \<le> 143"
  shows "phase (run (replicate n AnimationFrame) w) = Playing \<and>
         frame (run (replicate n AnimationFrame) w) = n \<and>
         score (run (replicate n AnimationFrame) w) = n div 5 \<and>
         highScore (run (replicate n AnimationFrame) w) = highScore w"
  using idle_frames [OF assms]
  by (simp add: idle_inv_def first_inv_def round_inv_def counters_inv_def)

lemma idle_round_over:
  assumes "idle_inv 0 w" "144 \<le> n"
  shows "phase (run (replicate n AnimationFrame) w) = GameOver \<and>
         frame (run (replicate n AnimationFrame) w) = 144 \<and>
         score (run (replicate n AnimationFrame) w) = 28 \<and>
         highScore (run (replicate n AnimationFrame) w) = max 28 (highScore w)"
proof -
  let ?v = "run (replicate 143 AnimationFrame) w"
  from idle_frames [OF assms(1), of 143]
  have v: "idle_inv 143 ?v" "highScore ?v = highScore w" by simp_all
  from assms(2) have "replicate n AnimationFrame =
      replicate 143 AnimationFrame @ [AnimationFrame] @ replicate (n - 144) AnimationFrame"
    by (simp add: replicate_add [symmetric] del: replicate_Suc
        flip: replicate_Suc replicate_append_same)
  then have "run (replicate n AnimationFrame) w =
      run (replicate (n - 144) AnimationFrame) (dispatch AnimationFrame ?v)"
    by (simp only: run_append run.simps)
  also have "\<dots> = dispatch AnimationFrame ?v"
  proof (rule frozen_frames)
    from v(1) show "sched_inv (dispatch AnimationFrame ?v)"
      by (simp add: idle_inv_def first_inv_def sched_inv_dispatch)
    then show "listening (dispatch AnimationFrame ?v)"
      using idle_crash [OF v(1)] by (simp add: playing_listening)
    show "phase (dispatch AnimationFrame ?v) \<noteq> Playing"
      using idle_crash [OF v(1)] by simp
  qed
  finally show ?thesis using idle_crash [OF v(1)] v(2) by simp
qed

section \<open>The round\<close>

text \<open>
  \<^bold>\<open>C11.\<close> A player who does nothing loses in the 144th frame. From every
  reachable world in which no round is running and the up key is not held,
  for every random source within contract: after the space key went down and
  up, the round runs for 143 frames, the 144th frame reports the collision of
  the cat with the first obstacle, which is a cactus or a trash can, and ends
  the round with frame counter 144 and score 28; the high score is then at
  least 28, and further frames change nothing.
\<close>

theorem idle_round_ends:
  assumes "reachable w" and "listening w" and "phase w \<noteq> Playing" and "\<not> ArrowUp (keys w)"
  shows "phase (run (idle_round n) w) = (if n < 144 then Playing else GameOver) \<and>
         frame (run (idle_round n) w) = min n 144 \<and>
         score (run (idle_round n) w) = min n 144 div 5 \<and>
         highScore (run (idle_round n) w) =
           (if n < 144 then highScore w else max 28 (highScore w))"
proof -
  let ?w = "run [KeyDown ''Space'', KeyUp ''Space''] w"
  from assms have i: "idle_inv 0 ?w" by (rule idle_start [THEN conjunct1])
  from assms(2) have h: "highScore ?w = highScore w"
    by (simp add: keydown_eq resetGame_eq)
  show ?thesis
  proof (cases "n < 144")
    case True
    then have "n \<le> 143" by simp
    from idle_round_playing [OF i this] True h show ?thesis by (simp add: idle_round_run)
  next
    case False
    then have "144 \<le> n" by simp
    from idle_round_over [OF i this] False h show ?thesis by (simp add: idle_round_run)
  qed
qed

theorem idle_round_ends_witness:
  "reachable world0 \<and> listening world0 \<and> phase world0 = Idle \<and>
   phase (run (idle_round 143) world0) = Playing \<and>
   phase (run (idle_round 144) world0) = GameOver \<and>
   score (run (idle_round 144) world0) = 28 \<and>
   highScore (run (idle_round 144) world0) = 28 \<and>
   frame (run (idle_round 1000) world0) = 144"
proof -
  have w: "listening world0" "phase world0 \<noteq> Playing" "\<not> ArrowUp (keys world0)"
    and i: "phase world0 = Idle" "highScore world0 = 0"
    by (simp_all add: world0_eq)
  from idle_round_ends [OF reachable_world0 w, of 143]
    idle_round_ends [OF reachable_world0 w, of 144]
    idle_round_ends [OF reachable_world0 w, of 1000] reachable_world0 w(1) i
  show ?thesis by simp
qed

end
