(* ===== verification/Timed_Round.thy ===== *)
theory Timed_Round
  imports Idle_Round
begin

text \<open>
  The round of a player who taps the space key once, at the right time: the
  lemmas of \<open>Playability\<close> about a cat and an obstacle, carried over to the game
  loop. The player starts the round, waits \<open>k\<close> frames, has the space key down
  during one frame and touches no key again. The cat takes off in frame
  \<open>k + 1\<close>; for \<open>k\<close> from 127 to 139 the first obstacle is then in the take-off
  window whatever its width, the flight clears it, and in frame 164 the round
  still runs with the obstacle behind the cat.

  \<open>calm_inv n\<close> is the invariant of the frames before the tap (no key down,
  the cat as the constructor left it), \<open>fly_inv f n\<close> that of the frames after
  a take-off in frame \<open>f\<close>: the cat is \<open>flight n\<close>.
\<close>

section \<open>Definitions\<close>

definition calm_inv :: "nat \<Rightarrow> world \<Rightarrow> bool" where
  "calm_inv n w \<longleftrightarrow> first_inv n w \<and> keys w = keys_init \<and> cat w = Cat_new"

definition fly_inv :: "nat \<Rightarrow> nat \<Rightarrow> world \<Rightarrow> bool" where
  "fly_inv f n w \<longleftrightarrow> first_inv (f + n) w \<and> keys w = keys_init \<and> cat w = flight n"

definition tap :: "event list" where
  "tap = [KeyDown ''Space'', AnimationFrame, KeyUp ''Space'']"

definition timed_round :: "nat \<Rightarrow> nat \<Rightarrow> event list" where
  "timed_round k n =
     KeyDown ''Space'' # KeyUp ''Space'' # replicate k AnimationFrame @ tap @
     replicate n AnimationFrame"

section \<open>Keys during a round\<close>

lemma first_inv_keys [simp]: "first_inv n (w\<lparr>keys := k\<rparr>) = first_inv n w"
  by (simp add: first_inv_def round_inv_defs sched_inv_def)

lemma first_inv_keyup [simp]: "first_inv n (keyup code w) = first_inv n w"
  by (simp add: first_inv_def round_inv_defs sched_inv_def)

lemma first_inv_keydown:
  assumes "first_inv n w"
  shows "dispatch (KeyDown code) w = w\<lparr>keys := set_key code True (keys w)\<rparr>"
proof -
  from assms have "sched_inv w" "phase w = Playing" by (simp_all add: first_inv_def)
  then show ?thesis by (simp add: playing_listening keydown_eq)
qed

lemma first_inv_listening: "first_inv n w \<Longrightarrow> listening w"
  by (simp add: first_inv_def playing_listening)

lemma tap_keys [simp]:
  "set_key ''Space'' True keys_init = jump_keys" "set_key ''Space'' False jump_keys = keys_init"
  "set_key ''Space'' False keys_init = keys_init"
  by (simp_all add: set_key_def keys_init_def jump_keys_def)

section \<open>Before the tap\<close>

lemma calm_start:
  assumes "reachable w" "listening w" "phase w \<noteq> Playing" "keys w = keys_init"
  shows "calm_inv 0 (run [KeyDown ''Space'', KeyUp ''Space''] w)"
  using idle_start [OF assms(1-3)] assms(4) by (simp add: calm_inv_def idle_inv_def)

lemma calm_step:
  assumes "calm_inv n w" "n \<le> 142"
  shows "calm_inv (Suc n) (dispatch AnimationFrame w)"
proof -
  from assms have f: "first_inv n w" "n \<le> 163" by (simp_all add: calm_inv_def)
  from first_step [OF f first_far [OF f(1) assms(2)]] assms(1) show ?thesis
    by (simp add: calm_inv_def next_cat_def)
qed

lemma calm_frames:
  assumes "calm_inv 0 w" "n \<le> 143"
  shows "calm_inv n (run (replicate n AnimationFrame) w)"
  using assms(2)
proof (induction n)
  case 0
  from assms(1) show ?case by simp
next
  case (Suc n)
  then show ?case by (simp add: frames_Suc calm_step del: replicate_Suc)
qed

section \<open>The tap and the flight\<close>

lemma take_off:
  assumes "calm_inv k w" "k \<le> 142"
  shows "fly_inv (Suc k) 0 (run tap w)"
proof -
  let ?v = "w\<lparr>keys := jump_keys\<rparr>"
  from assms have f: "first_inv k ?v" "k \<le> 163" by (simp_all add: calm_inv_def)
  note f = f first_far [OF f(1) assms(2)]
  from assms(1) have "dispatch (KeyDown ''Space'') w = ?v"
    using first_inv_keydown [of k w "''Space''"] by (simp add: calm_inv_def del: dispatch.simps)
  then have "run tap w = dispatch (KeyUp ''Space'') (dispatch AnimationFrame ?v)"
    by (simp add: tap_def)
  moreover have "listening (dispatch AnimationFrame ?v)"
    by (rule first_step [OF f, THEN conjunct1, THEN first_inv_listening])
  ultimately show ?thesis using first_step [OF f] assms(1)
    by (simp add: fly_inv_def next_cat_def flight_def calm_inv_def)
qed

lemma checkCollision_geometry:
  assumes "obs_x a = obs_x b" "obs_y a = obs_y b" "obs_w a = obs_w b" "obs_h a = obs_h b"
  shows "checkCollision c a = checkCollision c b"
  using assms by (simp add: checkCollision_def)

lemma window_clear:
  assumes "ground_obstacle a" "100 \<le> obs_x a + 5 * real n" "obs_x a + 5 * real n \<le> 164"
  shows "\<not> checkCollision (flight n) a"
proof -
  let ?ob = "a\<lparr>obs_x := obs_x a + 5 * real n\<rparr>"
  from assms(1) have g: "ground_obstacle ?ob" and w: "obs_w a \<le> 60"
    by (simp_all add: ground_obstacle_def obs_wf_def obs_wf_width)
  with assms(2,3) have "take_off_window 5 ?ob"
    by (simp add: take_off_window_def reach_right_def reach_left_def game_consts)
  with g have "\<not> checkCollision (flight n) (moved 5 n ?ob)" by (intro timed_jump) simp_all
  moreover from g have "checkCollision (flight n) (moved 5 n ?ob) = checkCollision (flight n) a"
    by (intro checkCollision_geometry) (simp_all add: moved_x)
  ultimately show ?thesis by simp
qed

lemma fly_step:
  assumes "fly_inv f n w" "128 \<le> f" "f \<le> 140" "f + n \<le> 163"
  shows "fly_inv f (Suc n) (dispatch AnimationFrame w)"
proof -
  from assms(1) have i: "first_inv (f + n) w" and c: "next_cat w = flight (Suc n)"
    by (simp_all add: fly_inv_def next_cat_def flight_Suc)
  from i assms(4) obtain a rest where M: "moved_obstacles w = a # rest"
    and a: "ground_obstacle a" "obs_x a = GAME_WIDTH - 5 * real (Suc (f + n))"
    by (rule first_moved)
  from a assms(2,3) have "\<not> checkCollision (flight (Suc n)) a"
    by (intro window_clear) (simp_all add: game_consts algebra_simps)
  then have "\<not> collides w" by (simp add: first_decides [OF i assms(4)] M c)
  from first_step [OF i assms(4) this] assms(1) c show ?thesis by (simp add: fly_inv_def)
qed

lemma fly_frames:
  assumes "fly_inv f 0 w" "128 \<le> f" "f \<le> 140" "f + n \<le> 164"
  shows "fly_inv f n (run (replicate n AnimationFrame) w)"
  using assms(4)
proof (induction n)
  case 0
  from assms(1) show ?case by simp
next
  case (Suc n)
  with assms(2,3) show ?case by (simp add: frames_Suc fly_step del: replicate_Suc)
qed

section \<open>The round\<close>

text \<open>
  \<^bold>\<open>C13.\<close> A tap at the right time clears the first obstacle. From every
  reachable world in which no round is running and no key is down, for every
  random source within contract: when the player starts the round, waits
  between 127 and 139 frames, holds the space key during one frame and then
  touches no key, the round is still running in its 164th frame, 20 frames
  after the frame in which the idle player loses; from the frame of the
  take-off on the cat is on the course of the standing jump.
\<close>

theorem timed_tap_survives:
  assumes "reachable w" and "listening w" and "phase w \<noteq> Playing" and "keys w = keys_init"
    and "127 \<le> k" and "k \<le> 139" and "k + n \<le> 163"
  shows "phase (run (timed_round k n) w) = Playing \<and>
         frame (run (timed_round k n) w) = Suc k + n \<and>
         cat (run (timed_round k n) w) = flight n"
proof -
  let ?v = "run (replicate k AnimationFrame) (run [KeyDown ''Space'', KeyUp ''Space''] w)"
  from assms(1-4) have "calm_inv 0 (run [KeyDown ''Space'', KeyUp ''Space''] w)"
    by (rule calm_start)
  with assms(6) have "calm_inv k ?v" by (intro calm_frames) simp_all
  with assms(6) have "fly_inv (Suc k) 0 (run tap ?v)" by (intro take_off) simp_all
  with assms(5-7) have "fly_inv (Suc k) n (run (replicate n AnimationFrame) (run tap ?v))"
    by (intro fly_frames) simp_all
  moreover have "run (timed_round k n) w = run (replicate n AnimationFrame) (run tap ?v)"
    by (simp add: timed_round_def run_append)
  ultimately show ?thesis by (simp add: fly_inv_def first_inv_def)
qed

theorem timed_tap_survives_witness:
  "reachable world0 \<and> listening world0 \<and> phase world0 = Idle \<and> keys world0 = keys_init \<and>
   phase (run (timed_round 130 33) world0) = Playing \<and>
   frame (run (timed_round 130 33) world0) = 164 \<and>
   cat (run (timed_round 130 33) world0) =
     Cat_new\<lparr>cat_y := 97.6, cat_dy := 9.4, isGrounded := False\<rparr>"
proof -
  have w: "listening world0" "phase world0 \<noteq> Playing" "keys world0 = keys_init"
    and i: "phase world0 = Idle"
    by (simp_all add: world0_eq)
  from timed_tap_survives [OF reachable_world0 w, of 130 33] reachable_world0 w(1,3) i
  show ?thesis by (simp add: flight_closed_form flight_y_def)
qed

end
