(* ===== verification/Strategy.thy ===== *)
theory Strategy
  imports Timed_Round
begin

text \<open>
  A player who survives the first 500 frames of every round. During these
  frames the speed is 5, so every obstacle is a cactus or a trash can and
  moves 5 to the left in each frame. The player \<open>player\<close> looks at the world
  before each frame: when an obstacle stands in the five pixels from 105 on
  (\<open>trigger\<close>), the space key is down during the frame, otherwise no key is
  touched. \<open>play n\<close> is the world after \<open>n\<close> frames with this player.

  \<open>play_inv n\<close> is the invariant of these frames. Either the cat stands as the
  constructor left it and every obstacle has passed the cat or is at 105 or
  further right (\<open>waiting\<close>); or the cat is in the \<open>m\<close>-th frame of a standing
  jump and every obstacle has passed, or was between 100 and 105 in the frame
  of the take-off (\<open>jumped m\<close>), or is so far right that it is still at 105 or
  further when the cat has landed (\<open>flying_ok m\<close>). The spacing of the
  obstacles (\<open>Spacing\<close>) makes the obstacle behind the one that is jumped
  far enough; the window of \<open>Playability\<close> makes the jump clear it.
\<close>

section \<open>The player\<close>

definition trigger :: "world \<Rightarrow> bool" where
  "trigger w \<longleftrightarrow> list_ex (\<lambda>ob. 105 \<le> obs_x ob \<and> obs_x ob < 110) (obstacles w)"

definition player :: "world \<Rightarrow> event list" where
  "player w = (if trigger w then tap else [AnimationFrame])"

fun play :: "nat \<Rightarrow> world \<Rightarrow> world" where
  "play 0 w = w"
| "play (Suc n) w = play n (run (player w) w)"

section \<open>The invariant\<close>

definition passed :: "Obstacle \<Rightarrow> bool" where
  "passed ob \<longleftrightarrow> obs_x ob + obs_w ob \<le> reach_left"

definition jumped :: "nat \<Rightarrow> Obstacle \<Rightarrow> bool" where
  "jumped m ob \<longleftrightarrow> 100 \<le> obs_x ob + 5 * real m \<and> obs_x ob + 5 * real m < 105"

definition waiting :: "Obstacle \<Rightarrow> bool" where
  "waiting ob \<longleftrightarrow> passed ob \<or> 105 \<le> obs_x ob"

definition flying_ok :: "nat \<Rightarrow> Obstacle \<Rightarrow> bool" where
  "flying_ok m ob \<longleftrightarrow> passed ob \<or> jumped m ob \<or> 290 - 5 * real m \<le> obs_x ob"

definition base :: "nat \<Rightarrow> world \<Rightarrow> bool" where
  "base n w \<longleftrightarrow>
     round_inv w \<and> sched_inv w \<and> phase w = Playing \<and> frame w = n \<and>
     list_all (\<lambda>ob. obs_type ob \<noteq> BIRD) (obstacles w)"

definition play_inv :: "nat \<Rightarrow> world \<Rightarrow> bool" where
  "play_inv n w \<longleftrightarrow>
     base n w \<and> keys w = keys_init \<and>
     (cat w = Cat_new \<and> list_all waiting (obstacles w) \<or>
      (\<exists>m\<le>36. cat w = flight m \<and> list_all (flying_ok m) (obstacles w)))"

lemmas play_defs = passed_def jumped_def waiting_def flying_ok_def

section \<open>One frame at speed 5\<close>

lemma base_keys [simp]: "base n (w\<lparr>keys := k\<rparr>) = base n w"
  by (simp add: base_def round_inv_defs sched_inv_def)

lemma base_keyup [simp]: "base n (keyup code w) = base n w"
  by (simp add: base_def round_inv_defs sched_inv_def)

lemma base_ground:
  assumes "base n w" "ob \<in> set (obstacles w)"
  shows "ground_obstacle ob"
  using assms
  by (simp add: base_def round_inv_def entities_inv_def list_all_iff live_def ground_obstacle_def)

lemma base_moved:
  assumes "base n w" "n \<le> 499"
    and "\<And>ob. ob \<in> set (obstacles w) \<Longrightarrow> Q (Obstacle_update 5 ob)"
    and "\<And>ob. obs_x ob = GAME_WIDTH - 5 \<Longrightarrow> Q ob"
  shows "list_all (\<lambda>ob. Q ob \<and> ground_obstacle ob) (moved_obstacles w)"
proof -
  from assms(1) have c: "counters_inv w" and e: "entities_inv w" and fr: "frame w = n"
    by (simp_all add: base_def round_inv_def)
  from c fr assms(2) have v: "gameSpeed w = 5" by (simp add: counters_inv_def)
  from e have r: "rng_ok (rng w)" by (simp add: entities_inv_def)
  let ?new = "Obstacle_update 5 (spawned 5 (rng w))"
  from r have "ground_obstacle ?new"
    by (simp add: ground_obstacle_def chooseType_no_bird)
  moreover have "Q ?new" by (rule assms(4)) (simp add: speedMultiplier_def chooseType_no_bird)
  moreover have "Q (Obstacle_update 5 ob) \<and> ground_obstacle (Obstacle_update 5 ob)"
    if "ob \<in> set (obstacles w)" for ob
    using base_ground [OF assms(1) that] assms(3) [OF that] by (simp add: ground_obstacle_def)
  ultimately show ?thesis
    by (auto simp: moved_obstacles_def v spawnObstacle_eq list_all_iff)
qed

lemma base_step:
  assumes "base n w" "n \<le> 499" "\<not> collides w"
  shows "base (Suc n) (dispatch AnimationFrame w) \<and>
         cat (dispatch AnimationFrame w) = next_cat w \<and>
         keys (dispatch AnimationFrame w) = keys w \<and>
         obstacles (dispatch AnimationFrame w) =
           filter (\<lambda>ob. \<not> markedForDeletion ob) (moved_obstacles w)"
proof -
  from assms(1) have s: "sched_inv w" and p: "phase w = Playing" and r: "round_inv w"
    and fr: "frame w = n"
    by (simp_all add: base_def)
  have d: "dispatch AnimationFrame w = stage_finish (simulate (w\<lparr>scheduled := []\<rparr>))"
    using s p by (rule dispatch_frame_playing)
  from base_moved [OF assms(1,2), of "\<lambda>ob. True"]
  have "list_all (\<lambda>ob. obs_type ob \<noteq> BIRD) (moved_obstacles w)"
    by (simp add: list_all_iff ground_obstacle_def)
  then have "list_all (\<lambda>ob. obs_type ob \<noteq> BIRD) (obstacles (dispatch AnimationFrame w))"
    by (simp add: d list_all_iff)
  moreover from r have "round_inv (dispatch AnimationFrame w)" by (rule round_inv_dispatch)
  moreover from s have "sched_inv (dispatch AnimationFrame w)" by (rule sched_inv_dispatch)
  moreover from p assms(3) have "phase (dispatch AnimationFrame w) = Playing" by (simp add: d)
  ultimately have "base (Suc n) (dispatch AnimationFrame w)"
    using fr by (simp add: base_def) (simp add: d)
  with assms(3) p show ?thesis by (simp add: d)
qed

lemma kept_obstacles:
  assumes "list_all (\<lambda>ob. Q ob \<and> ground_obstacle ob) obs"
  shows "list_all Q (filter (\<lambda>ob. \<not> markedForDeletion ob) obs)"
  using assms by (simp add: list_all_iff)

section \<open>What cannot hit the cat\<close>

lemma waiting_safe:
  assumes "waiting ob" "cat_x c = CAT_X" "cat_w c = CAT_WIDTH"
  shows "\<not> checkCollision c ob"
proof -
  from assms(1) consider "obs_x ob + obs_w ob \<le> reach_left" | "reach_right \<le> obs_x ob"
    by (auto simp: waiting_def passed_def reach_right_def game_consts)
  then show ?thesis using assms(2,3) by cases (simp_all add: no_hit_left no_hit_right)
qed

lemma flying_safe:
  assumes "flying_ok m ob" "m \<le> 37" "ground_obstacle ob"
  shows "\<not> checkCollision (flight m) ob"
proof -
  from assms(2) have "real m \<le> 37" by simp
  with assms(1) consider "obs_x ob + obs_w ob \<le> reach_left" | "reach_right \<le> obs_x ob"
    | "100 \<le> obs_x ob + 5 * real m" "obs_x ob + 5 * real m \<le> 164"
    by (auto simp: flying_ok_def passed_def jumped_def reach_right_def game_consts)
  then show ?thesis using assms(3)
    by cases (simp_all add: no_hit_left no_hit_right window_clear)
qed

lemma safe_frame:
  assumes "list_all (\<lambda>ob. Q ob \<and> ground_obstacle ob) (moved_obstacles w)"
    and "\<And>ob. Q ob \<Longrightarrow> ground_obstacle ob \<Longrightarrow> \<not> checkCollision (next_cat w) ob"
  shows "\<not> collides w"
  using assms by (auto simp: collides_def list_all_iff)

section \<open>The three kinds of frame\<close>

lemma stand_step:
  assumes "base n w" "n \<le> 499" "keys w = keys_init" "cat w = Cat_new"
    "list_all waiting (obstacles w)" "\<not> trigger w"
  shows "play_inv (Suc n) (dispatch AnimationFrame w)"
proof -
  have "waiting (Obstacle_update 5 ob)" if "ob \<in> set (obstacles w)" for ob
  proof -
    from base_ground [OF assms(1) that] have "speedMultiplier (obs_type ob) = 1"
      by (simp add: ground_obstacle_def speedMultiplier_def)
    moreover from that assms(5,6) have "passed ob \<or> 110 \<le> obs_x ob"
      by (auto simp: trigger_def list_ex_iff list_all_iff waiting_def)
    ultimately show ?thesis by (auto simp: play_defs)
  qed
  with assms(1,2) have M: "list_all (\<lambda>ob. waiting ob \<and> ground_obstacle ob) (moved_obstacles w)"
    by (rule base_moved) (simp_all add: play_defs game_consts)
  from assms(3,4) have c: "next_cat w = Cat_new" by (simp add: next_cat_def)
  from M have "\<not> collides w"
    by (rule safe_frame) (simp add: c waiting_safe Cat_new_def)
  from base_step [OF assms(1,2) this] kept_obstacles [OF M] assms(3) c show ?thesis
    by (simp add: play_inv_def)
qed

lemma sorted_wrt_pairs:
  "sorted_wrt R xs \<Longrightarrow> a \<in> set xs \<Longrightarrow> b \<in> set xs \<Longrightarrow> a = b \<or> R a b \<or> R b a"
  by (induction xs) auto

lemma far_behind:
  assumes "base n w" "a \<in> set (obstacles w)" "105 \<le> obs_x a" "obs_x a < 110"
    "b \<in> set (obstacles w)" "waiting b"
  shows "passed b \<or> (105 \<le> obs_x b \<and> obs_x b < 110) \<or> 323 \<le> obs_x b"
proof -
  from assms(1) have "sorted_wrt (\<lambda>a b. obs_x a + 218 < obs_x b) (obstacles w)"
    by (simp add: base_def round_inv_def spacing_inv_def spaced_obstacles)
  from sorted_wrt_pairs [OF this assms(2,5)]
  have "a = b \<or> obs_x a + 218 < obs_x b \<or> obs_x b + 218 < obs_x a" .
  with assms(3,4,6) show ?thesis by (auto simp: waiting_def)
qed

lemma tap_step:
  assumes "base n w" "n \<le> 499" "keys w = keys_init" "cat w = Cat_new"
    "list_all waiting (obstacles w)" "trigger w"
  shows "play_inv (Suc n) (run tap w)"
proof -
  let ?v = "w\<lparr>keys := jump_keys\<rparr>"
  from assms(1) have b: "base n ?v" by simp
  from assms(6) obtain a where a: "a \<in> set (obstacles w)" "105 \<le> obs_x a" "obs_x a < 110"
    by (auto simp: trigger_def list_ex_iff)
  have "flying_ok 0 (Obstacle_update 5 ob)" if "ob \<in> set (obstacles ?v)" for ob
  proof -
    from that have ob: "ob \<in> set (obstacles w)" by simp
    with base_ground [OF assms(1)] have "speedMultiplier (obs_type ob) = 1"
      by (simp add: ground_obstacle_def speedMultiplier_def)
    moreover from ob assms(5) have "waiting ob" by (simp add: list_all_iff)
    note far_behind [OF assms(1) a ob this]
    ultimately show ?thesis by (auto simp: play_defs)
  qed
  with b assms(2) have M: "list_all (\<lambda>ob. flying_ok 0 ob \<and> ground_obstacle ob) (moved_obstacles ?v)"
    by (rule base_moved) (simp_all add: play_defs game_consts)
  from assms(4) have c: "next_cat ?v = flight 0" by (simp add: next_cat_def flight_def)
  from M have "\<not> collides ?v" by (rule safe_frame) (simp add: c flying_safe)
  note s = base_step [OF b assms(2) this]
  from assms(1) have "listening w" by (simp add: base_def playing_listening)
  with assms(3) have "dispatch (KeyDown ''Space'') w = ?v"
    using assms(1) by (simp add: keydown_eq base_def)
  moreover from s have "listening (dispatch AnimationFrame ?v)"
    by (simp add: base_def playing_listening)
  ultimately have "run tap w = keyup ''Space'' (dispatch AnimationFrame ?v)"
    by (simp add: tap_def)
  with s kept_obstacles [OF M] c show ?thesis by (auto simp: play_inv_def)
qed

lemma flying_no_trigger:
  assumes "base n w" "list_all (flying_ok m) (obstacles w)" "m \<le> 36"
  shows "\<not> trigger w"
proof -
  have "\<not> (105 \<le> obs_x ob \<and> obs_x ob < 110)" if "ob \<in> set (obstacles w)" for ob
  proof -
    from base_ground [OF assms(1) that] have "20 \<le> obs_w ob"
      by (simp add: ground_obstacle_def obs_wf_width)
    moreover from assms(3) have "real m \<le> 36" by simp
    moreover from assms(2) that have "flying_ok m ob" by (simp add: list_all_iff)
    ultimately show ?thesis by (auto simp: play_defs reach_left_def game_consts)
  qed
  then show ?thesis by (auto simp: trigger_def list_ex_iff)
qed

lemma landed:
  assumes "flying_ok 37 ob" "ground_obstacle ob"
  shows "waiting ob"
proof -
  from assms(2) have "obs_w ob \<le> 60" by (simp add: ground_obstacle_def obs_wf_width)
  with assms(1) show ?thesis by (auto simp: play_defs reach_left_def game_consts)
qed

lemma fly_on:
  assumes "base n w" "n \<le> 499" "keys w = keys_init" "cat w = flight m" "m \<le> 36"
    "list_all (flying_ok m) (obstacles w)"
  shows "play_inv (Suc n) (dispatch AnimationFrame w)"
proof -
  have "flying_ok (Suc m) (Obstacle_update 5 ob)" if "ob \<in> set (obstacles w)" for ob
  proof -
    from base_ground [OF assms(1) that] have "speedMultiplier (obs_type ob) = 1"
      by (simp add: ground_obstacle_def speedMultiplier_def)
    moreover from assms(6) that have "flying_ok m ob" by (simp add: list_all_iff)
    ultimately show ?thesis by (auto simp: play_defs algebra_simps)
  qed
  with assms(1,2)
  have M: "list_all (\<lambda>ob. flying_ok (Suc m) ob \<and> ground_obstacle ob) (moved_obstacles w)"
    by (rule base_moved) (use assms(5) in \<open>simp_all add: play_defs game_consts\<close>)
  from assms(3,4) have c: "next_cat w = flight (Suc m)" by (simp add: next_cat_def flight_Suc)
  from M have "\<not> collides w" by (rule safe_frame) (use assms(5) in \<open>simp add: c flying_safe\<close>)
  note s = base_step [OF assms(1,2) this]
  show ?thesis
  proof (cases "m = 36")
    case True
    with M have "list_all (\<lambda>ob. waiting ob \<and> ground_obstacle ob) (moved_obstacles w)"
      by (auto simp: list_all_iff intro: landed)
    from s kept_obstacles [OF this] c True assms(3) show ?thesis
      by (simp add: play_inv_def flight_lands)
  next
    case False
    with assms(5) have "Suc m \<le> 36" by simp
    with s kept_obstacles [OF M] c assms(3) show ?thesis by (auto simp: play_inv_def)
  qed
qed

lemma play_step:
  assumes "play_inv n w" "n \<le> 499"
  shows "play_inv (Suc n) (run (player w) w)"
proof -
  from assms(1) have b: "base n w" and k: "keys w = keys_init" by (simp_all add: play_inv_def)
  from assms(1) consider "cat w = Cat_new" "list_all waiting (obstacles w)"
    | m where "m \<le> 36" "cat w = flight m" "list_all (flying_ok m) (obstacles w)"
    by (auto simp: play_inv_def)
  then show ?thesis
  proof cases
    case 1
    with b assms(2) k show ?thesis
      by (cases "trigger w") (simp_all add: player_def tap_step stand_step)
  next
    case 2
    from flying_no_trigger [OF b 2(3,1)] fly_on [OF b assms(2) k 2(2,1,3)] show ?thesis
      by (simp add: player_def)
  qed
qed

lemma play_frames:
  assumes "play_inv k w" "k + n \<le> 500"
  shows "play_inv (k + n) (play n w)"
  using assms
proof (induction n arbitrary: k w)
  case (Suc n)
  from Suc.prems have "play_inv (Suc k) (run (player w) w)" by (intro play_step) simp_all
  with Suc.prems(2) have "play_inv (Suc k + n) (play n (run (player w) w))"
    by (intro Suc.IH) simp_all
  then show ?case by simp
qed simp

lemma play_start:
  assumes "reachable w" "listening w" "phase w \<noteq> Playing" "keys w = keys_init"
  shows "play_inv 0 (run [KeyDown ''Space'', KeyUp ''Space''] w)"
  using idle_start [OF assms(1-3)] assms(4)
  by (simp add: play_inv_def base_def idle_inv_def first_inv_def)

section \<open>The first 500 frames\<close>

text \<open>
  \<^bold>\<open>C12.\<close> The first 500 frames of every round can be survived. From every
  reachable world in which no round is running and no key is down, for every
  random source within contract: the player who has the space key down
  during exactly the frames before which an obstacle stands between 105 and
  110 is never hit while the speed is 5. After \<open>n\<close> frames, for every \<open>n\<close> up to
  500, the round is running, the frame counter is \<open>n\<close> and the score
  \<open>n div 5\<close>.
\<close>

theorem first_frames_can_be_survived:
  assumes "reachable w" and "listening w" and "phase w \<noteq> Playing" and "keys w = keys_init"
    and "n \<le> 500"
  shows "phase (play n (run [KeyDown ''Space'', KeyUp ''Space''] w)) = Playing \<and>
         frame (play n (run [KeyDown ''Space'', KeyUp ''Space''] w)) = n \<and>
         score (play n (run [KeyDown ''Space'', KeyUp ''Space''] w)) = n div 5"
proof -
  from assms(1-4) have "play_inv 0 (run [KeyDown ''Space'', KeyUp ''Space''] w)"
    by (rule play_start)
  from play_frames [OF this, of n] assms(5) show ?thesis
    by (simp add: play_inv_def base_def round_inv_def counters_inv_def)
qed

theorem first_frames_can_be_survived_witness:
  "reachable world0 \<and> listening world0 \<and> phase world0 = Idle \<and> keys world0 = keys_init \<and>
   phase (play 500 (run [KeyDown ''Space'', KeyUp ''Space''] world0)) = Playing \<and>
   frame (play 500 (run [KeyDown ''Space'', KeyUp ''Space''] world0)) = 500 \<and>
   score (play 500 (run [KeyDown ''Space'', KeyUp ''Space''] world0)) = 100"
proof -
  have w: "listening world0" "phase world0 \<noteq> Playing" "keys world0 = keys_init"
    and i: "phase world0 = Idle"
    by (simp_all add: world0_eq)
  from first_frames_can_be_survived [OF reachable_world0 w, of 500] reachable_world0 w(1,3) i
  show ?thesis by simp
qed

end
