(* ===== verification/Canvas.thy ===== *)
theory Canvas
  imports Cat_Player Obstacles
begin

text \<open>
  What the program draws. The 2D context of the canvas is written to and
  never read, so a drawing method is modelled by the list of the calls it
  makes on the context, in the order it makes them: \<open>canvas_op\<close> has one
  constructor for each method and each property of the context that
  \<^verbatim>\<open>src/index.tsx\<close> uses. The methods \<^verbatim>\<open>draw\<close> of the two classes and \<^verbatim>\<open>drawText\<close>
  start with \<^verbatim>\<open>if (!ctx) return\<close>; the models take the state of \<^verbatim>\<open>ctx\<close> as their
  first argument. The methods that animate read the global \<^verbatim>\<open>frame\<close>, which is
  the second argument.

  The two \<^verbatim>\<open>for\<close> loops over the units of a group are instances of
  \<open>for_loop\<close>, with the body of the loop as a function of the counter.
\<close>

section \<open>Calls on the context\<close>

datatype canvas_op =
    ClearRect real real real real
  | FillRect real real real real
  | FillText string real real
  | FillStyle string
  | StrokeStyle string
  | LineWidth real
  | Font string
  | TextAlign string
  | BeginPath
  | MoveTo real real
  | LineTo real real
  | Fill
  | Stroke

section \<open>The cat\<close>

definition runAnim :: "nat \<Rightarrow> nat" where
  "runAnim fr = (fr div 6) mod 2"

definition Cat_draw :: "bool \<Rightarrow> nat \<Rightarrow> Cat \<Rightarrow> canvas_op list" where
  "Cat_draw cx fr c =
     (if \<not> cx then []
      else
        [FillStyle ''#333'',
         FillRect (cat_x c) (cat_y c) (cat_w c) (cat_h c)] @
        (if \<not> isCrouching c then
           [BeginPath, MoveTo (cat_x c + 5) (cat_y c), LineTo (cat_x c + 10) (cat_y c - 8),
            LineTo (cat_x c + 15) (cat_y c), Fill,
            BeginPath, MoveTo (cat_x c + cat_w c - 15) (cat_y c),
            LineTo (cat_x c + cat_w c - 10) (cat_y c - 8),
            LineTo (cat_x c + cat_w c - 5) (cat_y c), Fill]
         else
           [FillRect (cat_x c + 5) (cat_y c - 3) 8 3,
            FillRect (cat_x c + cat_w c - 13) (cat_y c - 3) 8 3]) @
        [FillRect (cat_x c - 5) (cat_y c + 10) 5 5,
         FillRect (cat_x c - 8) (cat_y c + 5) 5 5,
         FillStyle ''#FFD700''] @
        (if \<not> isCrouching c then
           [FillRect (cat_x c + cat_w c - 12) (cat_y c + 10) 3 3,
            FillRect (cat_x c + cat_w c - 22) (cat_y c + 10) 3 3]
         else
           [FillRect (cat_x c + cat_w c - 12) (cat_y c + 5) 3 3,
            FillRect (cat_x c + cat_w c - 22) (cat_y c + 5) 3 3]) @
        [FillStyle ''#333''] @
        (if isGrounded c then
           (if runAnim fr = 0 then
              [FillRect (cat_x c + 5) (cat_y c + cat_h c) 6 4,
               FillRect (cat_x c + cat_w c - 11) (cat_y c + cat_h c) 6 4]
            else
              [FillRect (cat_x c) (cat_y c + cat_h c) 6 4,
               FillRect (cat_x c + cat_w c - 6) (cat_y c + cat_h c) 6 4])
         else
           [FillRect (cat_x c + 10) (cat_y c + cat_h c - 5) 5 5,
            FillRect (cat_x c + cat_w c - 15) (cat_y c + cat_h c - 5) 5 5]))"

section \<open>The obstacles\<close>

text \<open>
  \<^verbatim>\<open>singleW\<close> is the width of one unit of a group, \<^verbatim>\<open>this.w / this.groupSize\<close>.
  For a group size of 0 the quotient is \<^verbatim>\<open>Infinity\<close> or \<^verbatim>\<open>NaN\<close> in JavaScript and
  0 in the model; the value is read only in the body of the loop over the
  units, which is not entered for a size below 1, so the two agree on what is
  drawn. The constructor gives every group a size of at least 1.
\<close>

definition singleW :: "Obstacle \<Rightarrow> real" where
  "singleW ob = obs_w ob / of_int (groupSize ob)"

definition offsetX :: "Obstacle \<Rightarrow> int \<Rightarrow> real" where
  "offsetX ob i = obs_x ob + of_int i * singleW ob"

definition cactus_unit :: "Obstacle \<Rightarrow> int \<Rightarrow> canvas_op list" where
  "cactus_unit ob i =
     (let currentH = obs_h ob in
      [FillRect (offsetX ob i + singleW ob / 3) (obs_y ob) (singleW ob / 3) currentH,
       FillRect (offsetX ob i) (obs_y ob + 10) (singleW ob / 3) 5,
       FillRect (offsetX ob i) (obs_y ob + 5) 5 10,
       FillRect (offsetX ob i + (singleW ob / 3) * 2) (obs_y ob + 15) (singleW ob / 3) 5,
       FillRect (offsetX ob i + singleW ob - 5) (obs_y ob + 8) 5 12])"

definition drawCactus :: "Obstacle \<Rightarrow> canvas_op list" where
  "drawCactus ob = FillStyle ''#2E8B57'' # for_loop 0 (groupSize ob) (cactus_unit ob)"

definition can_unit :: "Obstacle \<Rightarrow> int \<Rightarrow> canvas_op list" where
  "can_unit ob i =
     (let drawW = singleW ob - 2 in
      [FillRect (offsetX ob i) (obs_y ob + 5) drawW (obs_h ob - 5),
       FillStyle ''#666'',
       FillRect (offsetX ob i - 2) (obs_y ob) (drawW + 4) 5,
       FillStyle ''#555'',
       FillRect (offsetX ob i + 5) (obs_y ob + 10) (drawW - 10) 2,
       FillRect (offsetX ob i + 5) (obs_y ob + 18) (drawW - 10) 2,
       FillStyle ''#778899''])"

definition drawTrashCan :: "Obstacle \<Rightarrow> canvas_op list" where
  "drawTrashCan ob = FillStyle ''#778899'' # for_loop 0 (groupSize ob) (can_unit ob)"

definition flap :: "nat \<Rightarrow> nat" where
  "flap fr = (fr div 10) mod 2"

definition drawBird :: "nat \<Rightarrow> Obstacle \<Rightarrow> canvas_op list" where
  "drawBird fr ob =
     [FillStyle ''#444'',
      FillRect (obs_x ob) (obs_y ob + 10) (obs_w ob) 10,
      FillRect (obs_x ob) (obs_y ob + 5) 10 10,
      FillStyle ''#FFA500'',
      FillRect (obs_x ob - 5) (obs_y ob + 8) 5 4,
      FillStyle ''#444''] @
     (if flap fr = 0 then
        [BeginPath, MoveTo (obs_x ob + 15) (obs_y ob + 10), LineTo (obs_x ob + 25) (obs_y ob - 5),
         LineTo (obs_x ob + 35) (obs_y ob + 10), Fill]
      else
        [BeginPath, MoveTo (obs_x ob + 15) (obs_y ob + 15), LineTo (obs_x ob + 25) (obs_y ob + 25),
         LineTo (obs_x ob + 35) (obs_y ob + 15), Fill])"

definition Obstacle_draw :: "bool \<Rightarrow> nat \<Rightarrow> Obstacle \<Rightarrow> canvas_op list" where
  "Obstacle_draw cx fr ob =
     (if \<not> cx then []
      else if obs_type ob = BIRD then drawBird fr ob
      else if obs_type ob = TRASH_CAN then drawTrashCan ob
      else drawCactus ob)"

section \<open>Text\<close>

definition courier :: string where
  "courier = '' '' @ [CHR 0x22] @ ''Courier New'' @ [CHR 0x22]"

definition drawText ::
  "bool \<Rightarrow> string \<Rightarrow> real \<Rightarrow> real \<Rightarrow> string option \<Rightarrow> string option \<Rightarrow> string option \<Rightarrow>
   canvas_op list"
where
  "drawText cx text x y sz align color =
     (if \<not> cx then []
      else
        [FillStyle (case color of None \<Rightarrow> ''#535353'' | Some c \<Rightarrow> c),
         Font ((case sz of None \<Rightarrow> ''20px'' | Some s \<Rightarrow> s) @ courier),
         TextAlign (case align of None \<Rightarrow> ''center'' | Some a \<Rightarrow> a),
         FillText text x y])"

section \<open>Well-formed drawings\<close>

text \<open>
  The discipline a drawing is checked against. A rectangle has a width and a
  height that are not negative. A figure with an outline is drawn on a path of
  its own: \<^verbatim>\<open>beginPath\<close>, one \<^verbatim>\<open>moveTo\<close>, at least one \<^verbatim>\<open>lineTo\<close>, then \<^verbatim>\<open>fill\<close>
  or \<^verbatim>\<open>stroke\<close>, so that nothing of an earlier figure is painted again. \<open>pen\<close> is
  the state of the current path, \<open>op_ok\<close> says which call is allowed in which
  state and \<open>pen_after\<close> is the state after it. A list of calls is \<open>neat\<close> when
  every call is allowed, starting and ending with no path under way.

  \<open>op_within\<close> says that a call stays inside a rectangle of the canvas, given as
  left, top, right and bottom edge; \<open>cat_extent\<close> and \<open>obs_extent\<close> are the
  rectangles the figures of a cat and of an obstacle stay in.
\<close>

datatype pen = NoPath | Begun | AtPoint | Outline

fun pen_after :: "pen \<Rightarrow> canvas_op \<Rightarrow> pen" where
  "pen_after p BeginPath = Begun"
| "pen_after p (MoveTo x y) = AtPoint"
| "pen_after p (LineTo x y) = Outline"
| "pen_after p Fill = NoPath"
| "pen_after p Stroke = NoPath"
| "pen_after p c = p"

fun op_ok :: "pen \<Rightarrow> canvas_op \<Rightarrow> bool" where
  "op_ok p (FillRect x y w h) \<longleftrightarrow> 0 \<le> w \<and> 0 \<le> h"
| "op_ok p (ClearRect x y w h) \<longleftrightarrow> 0 \<le> w \<and> 0 \<le> h"
| "op_ok p (MoveTo x y) \<longleftrightarrow> p = Begun"
| "op_ok p (LineTo x y) \<longleftrightarrow> p = AtPoint \<or> p = Outline"
| "op_ok p Fill \<longleftrightarrow> p = Outline"
| "op_ok p Stroke \<longleftrightarrow> p = Outline"
| "op_ok p c \<longleftrightarrow> True"

fun ops_ok :: "pen \<Rightarrow> canvas_op list \<Rightarrow> bool" where
  "ops_ok p [] \<longleftrightarrow> True"
| "ops_ok p (c # cs) \<longleftrightarrow> op_ok p c \<and> ops_ok (pen_after p c) cs"

definition neat :: "canvas_op list \<Rightarrow> bool" where
  "neat cs \<longleftrightarrow> ops_ok NoPath cs \<and> foldl pen_after NoPath cs = NoPath"

fun op_within :: "real \<times> real \<times> real \<times> real \<Rightarrow> canvas_op \<Rightarrow> bool" where
  "op_within (l, t, r, b) (FillRect x y w h) \<longleftrightarrow> l \<le> x \<and> x + w \<le> r \<and> t \<le> y \<and> y + h \<le> b"
| "op_within (l, t, r, b) (ClearRect x y w h) \<longleftrightarrow> l \<le> x \<and> x + w \<le> r \<and> t \<le> y \<and> y + h \<le> b"
| "op_within (l, t, r, b) (MoveTo x y) \<longleftrightarrow> l \<le> x \<and> x \<le> r \<and> t \<le> y \<and> y \<le> b"
| "op_within (l, t, r, b) (LineTo x y) \<longleftrightarrow> l \<le> x \<and> x \<le> r \<and> t \<le> y \<and> y \<le> b"
| "op_within (l, t, r, b) (FillText s x y) \<longleftrightarrow> l \<le> x \<and> x \<le> r \<and> t \<le> y \<and> y \<le> b"
| "op_within (l, t, r, b) c \<longleftrightarrow> True"

definition cat_extent :: "Cat \<Rightarrow> real \<times> real \<times> real \<times> real" where
  "cat_extent c = (cat_x c - 8, cat_y c - 8, cat_x c + cat_w c, cat_y c + cat_h c + 4)"

definition obs_extent :: "Obstacle \<Rightarrow> real \<times> real \<times> real \<times> real" where
  "obs_extent ob = (obs_x ob - 5, obs_y ob - 5, obs_x ob + obs_w ob, obs_y ob + obs_h ob)"

lemma ops_ok_append:
  "ops_ok p (xs @ ys) \<longleftrightarrow> ops_ok p xs \<and> ops_ok (foldl pen_after p xs) ys"
  by (induction xs arbitrary: p) simp_all

lemma neat_Nil [simp]: "neat []"
  by (simp add: neat_def)

lemma neat_append: "neat xs \<Longrightarrow> neat ys \<Longrightarrow> neat (xs @ ys)"
  by (simp add: neat_def ops_ok_append)

lemma neat_concat: "(\<And>xs. xs \<in> set xss \<Longrightarrow> neat xs) \<Longrightarrow> neat (concat xss)"
  by (induction xss) (simp_all add: neat_append)

lemma neat_for_loop: "(\<And>j. i \<le> j \<Longrightarrow> j < n \<Longrightarrow> neat (body j)) \<Longrightarrow> neat (for_loop i n body)"
  unfolding for_loop_upto by (rule neat_concat) auto

lemma neat_style [simp]:
  "neat (FillStyle s # cs) = neat cs" "neat (StrokeStyle s # cs) = neat cs"
  "neat (Font s # cs) = neat cs" "neat (TextAlign s # cs) = neat cs"
  "neat (LineWidth v # cs) = neat cs" "neat (FillText s x y # cs) = neat cs"
  by (simp_all add: neat_def)

lemma neat_rect [simp]:
  "neat (FillRect x y w h # cs) \<longleftrightarrow> 0 \<le> w \<and> 0 \<le> h \<and> neat cs"
  "neat (ClearRect x y w h # cs) \<longleftrightarrow> 0 \<le> w \<and> 0 \<le> h \<and> neat cs"
  by (auto simp: neat_def)

lemma neat_triangle [simp]:
  "neat (BeginPath # MoveTo x1 y1 # LineTo x2 y2 # LineTo x3 y3 # Fill # cs) = neat cs"
  by (simp add: neat_def)

section \<open>The figures are well formed and stay in their extents\<close>

lemma singleW_wf:
  assumes "obs_wf ob"
  shows "singleW ob = (if obs_type ob = CACTUS then 20 else if obs_type ob = TRASH_CAN then 30 else 40)"
    and "1 \<le> groupSize ob" and "obs_w ob = singleW ob * of_int (groupSize ob)"
  using assms by (cases "obs_type ob"; auto simp: obs_wf_def singleW_def)+

lemma offsetX_range:
  assumes "obs_wf ob" "0 \<le> j" "j < groupSize ob"
  shows "obs_x ob \<le> offsetX ob j" "offsetX ob j + singleW ob \<le> obs_x ob + obs_w ob"
proof -
  from assms(1) have s: "0 \<le> singleW ob" by (simp add: singleW_wf)
  with assms(2) show "obs_x ob \<le> offsetX ob j" by (simp add: offsetX_def)
  from assms(3) have "of_int j + 1 \<le> (of_int (groupSize ob) :: real)"
    by (metis of_int_1 of_int_add of_int_le_iff zless_imp_add1_zle)
  with s have "singleW ob * (of_int j + 1) \<le> singleW ob * of_int (groupSize ob)"
    by (rule mult_left_mono [rotated])
  then show "offsetX ob j + singleW ob \<le> obs_x ob + obs_w ob"
    by (simp add: offsetX_def singleW_wf(3) [OF assms(1), symmetric] algebra_simps)
qed

lemma Cat_draw_neat: "cat_wf c \<Longrightarrow> neat (Cat_draw cx fr c)"
  by (simp add: Cat_draw_def cat_wf_def cat_height_def game_consts)

lemma Cat_draw_within: "cat_wf c \<Longrightarrow> list_all (op_within (cat_extent c)) (Cat_draw cx fr c)"
  by (simp add: Cat_draw_def cat_extent_def cat_wf_def cat_height_def game_consts)

lemma Obstacle_draw_neat:
  assumes "obs_wf ob"
  shows "neat (Obstacle_draw cx fr ob)"
proof (cases "obs_type ob")
  case CACTUS
  with assms show ?thesis
    by (auto simp: Obstacle_draw_def drawCactus_def cactus_unit_def singleW_wf obs_wf_def
        intro!: neat_for_loop)
next
  case TRASH_CAN
  with assms show ?thesis
    by (auto simp: Obstacle_draw_def drawTrashCan_def can_unit_def singleW_wf obs_wf_def
        intro!: neat_for_loop)
next
  case BIRD
  with assms show ?thesis
    by (simp add: Obstacle_draw_def drawBird_def obs_wf_def)
qed

lemma cactus_unit_within:
  assumes "obs_wf ob" "obs_type ob = CACTUS" "0 \<le> j" "j < groupSize ob"
  shows "list_all (op_within (obs_extent ob)) (cactus_unit ob j)"
  using offsetX_range [OF assms(1,3,4)] assms(1,2)
  by (simp add: cactus_unit_def obs_extent_def singleW_wf obs_wf_def)

lemma can_unit_within:
  assumes "obs_wf ob" "obs_type ob = TRASH_CAN" "0 \<le> j" "j < groupSize ob"
  shows "list_all (op_within (obs_extent ob)) (can_unit ob j)"
  using offsetX_range [OF assms(1,3,4)] assms(1,2)
  by (simp add: can_unit_def obs_extent_def singleW_wf obs_wf_def)

lemma Obstacle_draw_within:
  assumes "obs_wf ob"
  shows "list_all (op_within (obs_extent ob)) (Obstacle_draw cx fr ob)"
proof (cases "obs_type ob")
  case CACTUS
  with assms show ?thesis
    by (simp add: Obstacle_draw_def drawCactus_def for_loop_all cactus_unit_within)
       (simp add: obs_extent_def)
next
  case TRASH_CAN
  with assms show ?thesis
    by (simp add: Obstacle_draw_def drawTrashCan_def for_loop_all can_unit_within)
       (simp add: obs_extent_def)
next
  case BIRD
  with assms show ?thesis
    by (simp add: Obstacle_draw_def drawBird_def obs_extent_def obs_wf_def)
qed

lemma drawText_neat [simp]: "neat (drawText cx text x y sz align color)"
  by (simp add: drawText_def)

section \<open>Properties of the figures\<close>

text \<open>
  \<^bold>\<open>C25.\<close> The figures stay near their boxes. Everything \<^verbatim>\<open>draw\<close> paints for a
  well-formed cat lies in the cat's box widened by 8 pixels to the left and to
  the top (tail and ears) and by 4 to the bottom (legs); everything it paints
  for a well-formed obstacle lies in the obstacle's box widened by 5 pixels to
  the left and to the top (the beak and the raised wings of a bird, the lid of
  a trash can). Nothing is painted right of the box.
\<close>

theorem figures_stay_in_extent:
  assumes "cat_wf c" and "obs_wf ob"
  shows "list_all (op_within (cat_extent c)) (Cat_draw cx fr c) \<and>
         list_all (op_within (obs_extent ob)) (Obstacle_draw cx fr ob) \<and>
         neat (Cat_draw cx fr c) \<and> neat (Obstacle_draw cx fr ob)"
  using assms by (simp add: Cat_draw_within Obstacle_draw_within Cat_draw_neat Obstacle_draw_neat)

theorem figures_stay_in_extent_witness:
  "cat_wf Cat_new \<and> obs_wf (fst (Obstacle_new 300 BIRD (sconst 0))) \<and>
   obs_extent (fst (Obstacle_new 300 BIRD (sconst 0))) = (295, 120, 340, 150) \<and>
   list_all (op_within (295, 120, 340, 150))
     (Obstacle_draw True 0 (fst (Obstacle_new 300 BIRD (sconst 0)))) \<and>
   LineTo 325 120 \<in> set (Obstacle_draw True 0 (fst (Obstacle_new 300 BIRD (sconst 0))))"
proof -
  have wf: "obs_wf (fst (Obstacle_new 300 BIRD (sconst 0)))" by (rule Obstacle_new_wf) simp
  have e: "obs_extent (fst (Obstacle_new 300 BIRD (sconst 0))) = (295, 120, 340, 150)"
    by (simp add: obs_extent_def Obstacle_new_eqs game_consts)
  from figures_stay_in_extent [OF cat_wf_new wf, where cx = True and fr = 0] cat_wf_new wf e
  show ?thesis
    by (simp add: Obstacle_draw_def drawBird_def flap_def Obstacle_new_eqs game_consts)
qed

end
