(* ===== verification/Rendering.thy ===== *)
theory Rendering
  imports Session Canvas JS_Strings
begin

text \<open>
  The picture of a frame: the calls on the canvas that \<^verbatim>\<open>gameLoop\<close> (lines 403
  to 456 of \<^verbatim>\<open>src/index.tsx\<close>) and \<^verbatim>\<open>init\<close> (lines 458 to 480) make, in their
  order, as a function of the world they start in. The canvas is never read,
  so the state after the call is the one \<open>gameLoop\<close> and \<open>init\<close> of \<open>Game_Loop\<close>
  compute; \<open>gameLoop_draws\<close> and \<open>init_draws\<close> add what the call shows. They go
  through the same stages: the obstacles are drawn inside the \<^verbatim>\<open>forEach\<close>, each
  right after its own update and before the list is filtered and the frame
  counter is incremented; the cat and the score line are drawn after the
  counters are updated and before the high score is.

  \<open>event_draws\<close> is the picture an event of the host produces: that of the
  callback an animation frame runs, and nothing for the other events.
\<close>

section \<open>The pictures\<close>

definition draw_ground :: "canvas_op list" where
  "draw_ground =
     [BeginPath, MoveTo 0 GROUND_Y, LineTo GAME_WIDTH GROUND_Y,
      StrokeStyle ''#535353'', LineWidth 2, Stroke]"

definition hud_text :: "nat \<Rightarrow> nat \<Rightarrow> string" where
  "hud_text hi sc =
     ''HI '' @ padStart 5 (CHR ''0'') (String_nat hi) @ ''  '' @
     padStart 5 (CHR ''0'') (String_nat sc)"

fun forEach_draws :: "bool \<Rightarrow> nat \<Rightarrow> real \<Rightarrow> Obstacle list \<Rightarrow> canvas_op list" where
  "forEach_draws cx fr s [] = []"
| "forEach_draws cx fr s (ob # obs) =
     Obstacle_draw cx fr (Obstacle_update s ob) @ forEach_draws cx fr s obs"

definition game_over_texts :: "bool \<Rightarrow> canvas_op list" where
  "game_over_texts cx =
     drawText cx ''GAME OVER'' (GAME_WIDTH / 2) (GAME_HEIGHT / 2) None None None @
     drawText cx ''Press Space to Restart'' (GAME_WIDTH / 2) (GAME_HEIGHT / 2 + 30)
       (Some ''16px'') (Some ''center'') (Some ''#888'')"

definition gameLoop_draws :: "world \<Rightarrow> canvas_op list" where
  "gameLoop_draws w =
     (if \<not> ctx w then []
      else
        ClearRect 0 0 GAME_WIDTH GAME_HEIGHT # draw_ground @
        (if \<not> isPlaying w then
           Cat_draw (ctx w) (frame w) (cat w) @
           drawText (ctx w) ''Press Space to Start'' (GAME_WIDTH / 2) (GAME_HEIGHT / 2 - 10)
             None None None
         else
           (let w1 = stage_spawn (stage_cat w);
                w2 = stage_counters (stage_filter (stage_obstacles w1))
            in forEach_draws (ctx w1) (frame w1) (gameSpeed w1) (obstacles w1) @
               Cat_draw (ctx w2) (frame w2) (cat w2) @
               drawText (ctx w2) (hud_text (highScore w2) (score w2)) (GAME_WIDTH - 20) 30
                 (Some ''20px'') (Some ''right'') None @
               (if isGameOver w2 then game_over_texts (ctx w2) else []))))"

definition init_draws :: "world \<Rightarrow> canvas_op list" where
  "init_draws w =
     (if canvasPresent w then
        (let w1 = init w
         in ClearRect 0 0 GAME_WIDTH GAME_HEIGHT # draw_ground @
            Cat_draw (ctx w1) (frame w1) (cat w1) @
            drawText (ctx w1) ''Press Space to Start'' (GAME_WIDTH / 2) (GAME_HEIGHT / 2)
              None None None)
      else [])"

definition callback_draws :: "callback \<Rightarrow> world \<Rightarrow> canvas_op list" where
  "callback_draws cb w = (case cb of CB_init \<Rightarrow> init_draws w | CB_gameLoop \<Rightarrow> gameLoop_draws w)"

fun event_draws :: "event \<Rightarrow> world \<Rightarrow> canvas_op list" where
  "event_draws AnimationFrame w =
     (case scheduled w of
        [] \<Rightarrow> []
      | p # rest \<Rightarrow> callback_draws (snd p) (w\<lparr>scheduled := rest\<rparr>))"
| "event_draws e w = []"

text \<open>
  A sample world for the examples: \<open>world1\<close> in its 36th frame with a score of
  7 and a cactus standing in the cat's columns.
\<close>

definition crash :: world where
  "crash = world1\<lparr>score := 7, frame := 35, obstacles :=
     [\<lparr>obs_x = 60, obs_y = 130, obs_w = 40, obs_h = 45, obs_type = CACTUS,
       markedForDeletion = False, groupSize = 2\<rparr>]\<rparr>"

lemmas event_draws_AnimationFrame = event_draws.simps(1)

declare event_draws.simps(1) [simp del]

section \<open>The picture of a frame in terms of the components\<close>

lemma forEach_draws_eq:
  "forEach_draws cx fr s obs = concat (map (Obstacle_draw cx fr) (map (Obstacle_update s) obs))"
  by (induction obs) simp_all

lemma gameLoop_draws_playing:
  assumes "ctx w" "isPlaying w"
  shows "gameLoop_draws w =
     ClearRect 0 0 GAME_WIDTH GAME_HEIGHT # draw_ground @
     concat (map (Obstacle_draw True (frame w)) (moved_obstacles w)) @
     Cat_draw True (Suc (frame w)) (next_cat w) @
     drawText True (hud_text (highScore w) (score (simulate w))) (GAME_WIDTH - 20) 30
       (Some ''20px'') (Some ''right'') None @
     (if isGameOver w \<or> collides w then game_over_texts True else [])"
proof -
  have "stage_counters (stage_filter (stage_obstacles (stage_spawn (stage_cat w)))) = simulate w"
    by (simp add: simulate_def)
  moreover have "obstacles (stage_spawn (stage_cat w)) =
      fst (spawnObstacle (gameSpeed w) (obstacles w) (rng w))"
    "frame (stage_spawn (stage_cat w)) = frame w" "ctx (stage_spawn (stage_cat w)) = ctx w"
    "gameSpeed (stage_spawn (stage_cat w)) = gameSpeed w"
    by (simp_all add: stage_spawn_def stage_cat_def split_beta)
  ultimately show ?thesis
    using assms by (simp add: gameLoop_draws_def Let_def forEach_draws_eq moved_obstacles_def)
qed

lemma init_draws_eq:
  "init_draws w =
     (if canvasPresent w then
        ClearRect 0 0 GAME_WIDTH GAME_HEIGHT # draw_ground @ Cat_draw True (frame w) Cat_new @
        drawText True ''Press Space to Start'' (GAME_WIDTH / 2) (GAME_HEIGHT / 2) None None None
      else [])"
  by (simp add: init_draws_def init_eq Let_def)

lemma event_draws_frame:
  assumes "sched_inv w"
  shows "event_draws AnimationFrame w =
     (if \<not> listening w then init_draws (w\<lparr>scheduled := []\<rparr>)
      else if isPlaying w \<and> \<not> isGameOver w then gameLoop_draws (w\<lparr>scheduled := []\<rparr>)
      else [])"
  using assms by (simp add: event_draws_AnimationFrame sched_inv_def callback_draws_def)

section \<open>Every picture is well formed\<close>

lemma draw_ground_neat [simp]: "neat (draw_ground @ cs) = neat cs"
  by (simp add: draw_ground_def neat_def game_consts)

lemma game_over_texts_neat [simp]: "neat (game_over_texts cx)"
  by (simp add: game_over_texts_def neat_append)

lemma neat_figures:
  assumes "list_all obs_wf obs"
  shows "neat (concat (map (Obstacle_draw cx fr) obs))"
  using assms by (intro neat_concat) (auto simp: list_all_iff Obstacle_draw_neat)

lemma gameLoop_draws_neat:
  assumes "entities_inv w"
  shows "neat (gameLoop_draws w)"
proof (cases "ctx w \<and> isPlaying w")
  case True
  from assms have "cat_wf (next_cat w)"
    by (simp add: entities_inv_def next_cat_def cat_reach_wf cat_reach.cat_step)
  with True moved_obstacles_wf [OF assms] show ?thesis
    by (simp add: gameLoop_draws_playing game_consts neat_append neat_figures Cat_draw_neat)
next
  case False
  from assms have "cat_wf (cat w)" by (simp add: entities_inv_def cat_reach_wf)
  with False show ?thesis
    by (auto simp: gameLoop_draws_def game_consts neat_append Cat_draw_neat)
qed

lemma init_draws_neat: "neat (init_draws w)"
  by (simp add: init_draws_eq game_consts neat_append Cat_draw_neat cat_wf_new)

lemma rest_draws_nothing:
  assumes "sched_inv w" "listening w" "phase w \<noteq> Playing"
  shows "event_draws e w = []"
  using assms by (cases e) (auto simp: event_draws_frame)

lemma hud_text_eq:
  "hud_text hi sc =
     ''HI '' @ replicate (5 - length (String_nat hi)) (CHR ''0'') @ String_nat hi @ ''  '' @
     replicate (5 - length (String_nat sc)) (CHR ''0'') @ String_nat sc"
  by (simp add: hud_text_def padStart_def)

lemma padStart5_length:
  "n < 100000 \<Longrightarrow> length (padStart 5 (CHR ''0'') (String_nat n)) = 5"
  using String_nat_length [of n 5] by (simp add: padStart_length max_def)

lemma frame_picture:
  assumes "sched_inv w" and "phase w = Playing"
  shows "event_draws AnimationFrame w =
     ClearRect 0 0 GAME_WIDTH GAME_HEIGHT # draw_ground @
     concat (map (Obstacle_draw True (frame w)) (moved_obstacles w)) @
     Cat_draw True (frame w + 1) (Cat_update (keys w) (cat w)) @
     drawText True (hud_text (highScore w) (score (dispatch AnimationFrame w)))
       (GAME_WIDTH - 20) 30 (Some ''20px'') (Some ''right'') None @
     (if collides w then game_over_texts True else [])"
proof -
  from assms have "ctx w" "isPlaying w" "\<not> isGameOver w" "listening w"
    by (auto simp: sched_inv_def)
  then show ?thesis
    by (simp add: event_draws_frame [OF assms(1)] dispatch_frame_playing [OF assms]
        gameLoop_draws_playing moved_obstacles_def next_cat_def collides_def)
qed

lemma sched_inv_world1: "sched_inv world1"
  using reachable_inv [OF reachable_world1] by (simp add: world_inv_def)

section \<open>What is on the screen\<close>

text \<open>
  \<^bold>\<open>C17.\<close> The picture of a frame of a running round. The frame clears the
  canvas and draws the ground line; then every obstacle of the list after the
  spawn, each after its update, those that this frame retires included, with
  the frame number of before the increment; then the updated cat, with the
  incremented frame number; then the score line with the high score of before
  the frame and the score of after it; and, when the frame ends the round, the
  two lines of the game-over message.
\<close>

theorem playing_frame_picture:
  assumes "reachable w" and "phase w = Playing"
  shows "event_draws AnimationFrame w =
     ClearRect 0 0 GAME_WIDTH GAME_HEIGHT # draw_ground @
     concat (map (Obstacle_draw True (frame w)) (moved_obstacles w)) @
     Cat_draw True (frame w + 1) (Cat_update (keys w) (cat w)) @
     drawText True (hud_text (highScore w) (score (dispatch AnimationFrame w)))
       (GAME_WIDTH - 20) 30 (Some ''20px'') (Some ''right'') None @
     (if collides w then game_over_texts True else [])"
proof -
  from reachable_inv [OF assms(1)] have "sched_inv w" by (simp add: world_inv_def)
  then show ?thesis using assms(2) by (rule frame_picture)
qed

theorem playing_frame_picture_witness:
  "reachable world1 \<and> phase world1 = Playing \<and>
   take 8 (event_draws AnimationFrame world1) =
     [ClearRect 0 0 800 200, BeginPath, MoveTo 0 175, LineTo 800 175, StrokeStyle ''#535353'',
      LineWidth 2, Stroke, FillStyle ''#2E8B57''] \<and>
   FillText ''HI 00000  00000'' 780 30 \<in> set (event_draws AnimationFrame world1)"
proof -
  have p: "phase world1 = Playing" by simp
  have n: "score (dispatch AnimationFrame world1) = 0"
    using reachable_inv [OF reachable_world1] p
    by (simp add: dispatch_frame_playing world_inv_def)
  have h: "hud_text 0 0 = ''HI 00000  00000''" by code_simp
  from playing_frame_picture [OF reachable_world1 p] reachable_world1 p show ?thesis
    by (simp add: n h collides_world1 moved_obstacles_world1 draw_ground_def Obstacle_draw_def
        drawCactus_def drawText_def game_consts)
qed

text \<open>
  \<^bold>\<open>C18.\<close> Every picture is well formed. Whatever event reaches a reachable
  world, the calls it makes on the canvas are \<open>neat\<close>: no rectangle has a
  negative width or height, and every call of \<^verbatim>\<open>fill\<close> or \<^verbatim>\<open>stroke\<close> paints one
  outline that was begun with \<^verbatim>\<open>beginPath\<close> after the previous figure.
\<close>

theorem pictures_are_neat:
  assumes "reachable w"
  shows "neat (event_draws e w)"
proof (cases e)
  case AnimationFrame
  from reachable_inv [OF assms] have "entities_inv (w\<lparr>scheduled := []\<rparr>)" and s: "sched_inv w"
    by (simp_all add: world_inv_def entities_inv_def)
  with AnimationFrame show ?thesis
    by (simp add: event_draws_frame [OF s] gameLoop_draws_neat init_draws_neat)
qed simp_all

theorem pictures_are_neat_witness:
  "reachable world1 \<and> neat (event_draws AnimationFrame world1) \<and>
   length (event_draws AnimationFrame world1) = 42"
proof -
  have p: "phase world1 = Playing" by simp
  have "length (event_draws AnimationFrame world1) = 42"
    unfolding frame_picture [OF sched_inv_world1 p]
    by (simp add: collides_world1 moved_obstacles_world1 draw_ground_def Obstacle_draw_def
        drawCactus_def for_loop_upto upto_rec1 cactus_unit_def Cat_draw_def drawText_def
        next_cat_world1 [unfolded next_cat_def] Cat_new_def)
  with pictures_are_neat [OF reachable_world1, of AnimationFrame] reachable_world1
  show ?thesis by simp
qed

text \<open>
  \<^bold>\<open>C26.\<close> The score line can be read back. While both numbers are below
  100000 the line has 15 characters, the five after \<^verbatim>\<open>HI\<close> and a blank read as
  the high score and the last five as the score; \<^verbatim>\<open>padStart\<close> never cuts a
  digit, so longer numbers make the line longer.
\<close>

theorem hud_roundtrip:
  assumes "hi < 100000" and "sc < 100000"
  shows "length (hud_text hi sc) = 15 \<and>
         Number_digits (take 5 (drop 3 (hud_text hi sc))) = Some hi \<and>
         Number_digits (drop 10 (hud_text hi sc)) = Some sc"
  using padStart5_length [OF assms(1)] padStart5_length [OF assms(2)]
  by (simp add: hud_text_def)

theorem hud_roundtrip_witness:
  "hud_text 7 123 = ''HI 00007  00123'' \<and>
   Number_digits (take 5 (drop 3 (hud_text 7 123))) = Some 7 \<and>
   Number_digits (drop 10 (hud_text 7 123)) = Some 123"
proof -
  have "hud_text 7 123 = ''HI 00007  00123''" by code_simp
  with hud_roundtrip [of 7 123] show ?thesis by simp
qed

text \<open>
  \<^bold>\<open>C24.\<close> The game-over screen. In every world in which the loop is
  scheduled as the session keeps it (\<open>sched_inv\<close>, which holds in every reachable
  world), the calls of the frame of the collision include the score line with
  the high score the round started with and the game-over message; the world
  the frame leaves has the high score raised to the score of the round; and
  the event that follows, whichever it is, draws nothing. So a round that
  beats the high score ends on a screen that still shows the old one, and
  the next event does not repaint it.
\<close>

theorem game_over_screen_keeps_old_high_score:
  assumes "sched_inv w" and "phase w = Playing" and "collides w"
  shows "FillText (hud_text (highScore w) (score (dispatch AnimationFrame w))) (GAME_WIDTH - 20) 30
           \<in> set (event_draws AnimationFrame w) \<and>
         FillText ''GAME OVER'' (GAME_WIDTH / 2) (GAME_HEIGHT / 2)
           \<in> set (event_draws AnimationFrame w) \<and>
         highScore (dispatch AnimationFrame w) =
           max (score (dispatch AnimationFrame w)) (highScore w) \<and>
         event_draws e (dispatch AnimationFrame w) = []"
proof -
  have d: "dispatch AnimationFrame w = stage_finish (simulate (w\<lparr>scheduled := []\<rparr>))"
    using assms(1,2) by (rule dispatch_frame_playing)
  from assms(1) have "sched_inv (dispatch AnimationFrame w)" by (rule sched_inv_dispatch)
  moreover from assms have "listening (dispatch AnimationFrame w)"
    "phase (dispatch AnimationFrame w) \<noteq> Playing"
    by (simp_all add: d sched_inv_def)
  ultimately have "event_draws e (dispatch AnimationFrame w) = []" by (rule rest_draws_nothing)
  moreover from assms(3) have "highScore (dispatch AnimationFrame w) =
      max (score (dispatch AnimationFrame w)) (highScore w)"
    by (simp add: d)
  ultimately show ?thesis
    using assms(3) unfolding frame_picture [OF assms(1,2)]
    by (simp add: drawText_def game_over_texts_def)
qed

theorem game_over_screen_keeps_old_high_score_witness:
  "sched_inv crash \<and> phase crash = Playing \<and> collides crash \<and>
   FillText ''HI 00000  00007'' 780 30 \<in> set (event_draws AnimationFrame crash) \<and>
   FillText ''GAME OVER'' 400 100 \<in> set (event_draws AnimationFrame crash) \<and>
   highScore (dispatch AnimationFrame crash) = 7 \<and>
   event_draws AnimationFrame (dispatch AnimationFrame crash) = []"
proof -
  have s: "sched_inv crash" using sched_inv_world1 by (simp add: crash_def sched_inv_def)
  have p: "phase crash = Playing" by (simp add: crash_def phase_def)
  have c: "collides crash"
    by (simp add: collides_def moved_obstacles_def next_cat_def crash_def world1_eq world0_eq
        spawnObstacle_eq spawns_def Obstacle_update_eq speedMultiplier_def checkCollision_def
        cat_eval jumpHeld_def game_consts)
  have n: "score (dispatch AnimationFrame crash) = 7" "highScore crash = 0"
    by (simp_all add: dispatch_frame_playing [OF s p]) (simp_all add: crash_def)
  have h: "hud_text 0 7 = ''HI 00000  00007''" by code_simp
  from game_over_screen_keeps_old_high_score [OF s p c, of AnimationFrame] s p c show ?thesis
    by (simp add: n h game_consts)
qed

end
