(* ===== verification/Persistence.thy ===== *)
theory Persistence
  imports Idle_Round
begin

text \<open>
  The high score in \<^verbatim>\<open>localStorage\<close> over a session and across loads of the
  page. The program reads the item \<^verbatim>\<open>dinoHighScore\<close> once, when the module is
  loaded (\<open>loadHighScore\<close>, line 22), and writes it in the frame that ends a
  round with a new high score (\<open>stage_finish\<close>, line 448), as the decimal
  numeral \<^verbatim>\<open>String(highScore)\<close>.

  \<open>wrote st\<close> says what a session that started with the store \<open>st\<close> has done to
  it: every other key is as it was, and the item of the high score is as it
  was or is the numeral of the high score in memory. Together with the
  invariant of theory \<open>Session\<close>, that the high score in memory is what the
  item reads as, this gives what the next load of the page finds.
\<close>

section \<open>Definitions\<close>

definition wrote :: "(string \<rightharpoonup> string) \<Rightarrow> world \<Rightarrow> bool" where
  "wrote st w \<longleftrightarrow>
     (\<forall>k. k \<noteq> ''dinoHighScore'' \<longrightarrow> storage w k = st k) \<and>
     (storage w ''dinoHighScore'' = st ''dinoHighScore'' \<or>
      storage w ''dinoHighScore'' = Some (String_nat (highScore w)))"

section \<open>What a session does to the store\<close>

lemma wrote_gameLoop: "wrote st w \<Longrightarrow> wrote st (gameLoop w)"
  by (erule gameLoop_preserves) (auto simp: wrote_def)

lemma wrote_dispatch: "wrote st w \<Longrightarrow> wrote st (dispatch e w)"
  by (erule dispatch_preserves)
     (simp_all add: wrote_gameLoop, auto simp: wrote_def keydown_eq resetGame_eq init_eq)

lemma wrote_run: "wrote st w \<Longrightarrow> wrote st (run es w)"
  by (induction es arbitrary: w) (simp_all add: wrote_dispatch)

lemma store_ok_written [simp]: "store_ok (st(''dinoHighScore'' \<mapsto> String_nat n))"
  by (simp add: store_ok_def String_nat_digits)

lemma store_ok_gameLoop: "store_ok (storage w) \<Longrightarrow> store_ok (storage (gameLoop w))"
  by (erule gameLoop_preserves) simp

lemma store_ok_dispatch: "store_ok (storage w) \<Longrightarrow> store_ok (storage (dispatch e w))"
  by (erule dispatch_preserves)
     (simp_all add: store_ok_gameLoop, simp_all add: keydown_eq resetGame_eq init_eq)

lemma reachable_store_ok: "reachable w \<Longrightarrow> store_ok (storage w)"
  by (induction rule: reachable.induct) (simp_all add: store_ok_dispatch)

lemma idle_round_high_score:
  assumes "reachable w" "listening w" "phase w \<noteq> Playing" "\<not> ArrowUp (keys w)"
  shows "highScore (run (idle_round 144) w) = max 28 (highScore w)"
proof -
  from assms have "idle_inv 0 (run [KeyDown ''Space'', KeyUp ''Space''] w)"
    by (rule idle_start [THEN conjunct1])
  from idle_round_over [OF this, of 144] assms(2) show ?thesis
    by (simp add: idle_round_run keydown_eq resetGame_eq)
qed

section \<open>Across loads\<close>

text \<open>
  \<^bold>\<open>C20.\<close> The high score survives a reload. Whatever events a session
  has seen, the store it leaves is one the page can be loaded from again, and
  that load starts with the high score the session had in memory. The session
  has touched no key of the store but \<^verbatim>\<open>dinoHighScore\<close>, and the item under
  that key is the one the session found or the decimal numeral of its high
  score.
\<close>

theorem high_score_survives_reload:
  assumes "reachable w" and "rng_ok g"
  shows "reachable (boot (storage (run es w)) present g) \<and>
         highScore (boot (storage (run es w)) present g) = highScore (run es w) \<and>
         (\<forall>k. k \<noteq> ''dinoHighScore'' \<longrightarrow> storage (run es w) k = storage w k) \<and>
         (storage (run es w) ''dinoHighScore'' = storage w ''dinoHighScore'' \<or>
          storage (run es w) ''dinoHighScore'' = Some (String_nat (highScore (run es w))))"
proof -
  from assms(1) have r: "reachable (run es w)" by (rule reachable_run)
  with assms(2) have "reachable (boot (storage (run es w)) present g)"
    by (intro reachable.boot reachable_store_ok)
  moreover from reachable_inv [OF r]
  have "highScore (boot (storage (run es w)) present g) = highScore (run es w)"
    by (simp add: world_inv_def score_inv_def)
  moreover have "wrote (storage w) (run es w)" by (rule wrote_run) (simp add: wrote_def)
  ultimately show ?thesis by (simp add: wrote_def)
qed

theorem high_score_survives_reload_witness:
  "reachable (boot [''dinoHighScore'' \<mapsto> ''n/a'', ''theme'' \<mapsto> ''dark''] True (sconst (1 / 2))) \<and>
   rng_ok (sconst 0) \<and>
   storage (run (idle_round 144)
     (boot [''dinoHighScore'' \<mapsto> ''n/a'', ''theme'' \<mapsto> ''dark''] True (sconst (1 / 2))))
     ''dinoHighScore'' = Some ''28'' \<and>
   storage (run (idle_round 144)
     (boot [''dinoHighScore'' \<mapsto> ''n/a'', ''theme'' \<mapsto> ''dark''] True (sconst (1 / 2))))
     ''theme'' = Some ''dark'' \<and>
   highScore (boot (storage (run (idle_round 144)
     (boot [''dinoHighScore'' \<mapsto> ''n/a'', ''theme'' \<mapsto> ''dark''] True (sconst (1 / 2)))))
     True (sconst 0)) = 28"
proof -
  let ?w = "boot [''dinoHighScore'' \<mapsto> ''n/a'', ''theme'' \<mapsto> ''dark''] True (sconst (1 / 2))"
  have n: "Number_digits ''n/a'' = None" "list_ex (\<lambda>c. \<not> literal_char c) ''n/a''"
    "String_nat 28 = ''28''"
    by code_simp+
  then have r: "reachable ?w" by (simp add: reachable.boot store_ok_def)
  have w: "listening ?w" "phase ?w \<noteq> Playing" "\<not> ArrowUp (keys ?w)" "highScore ?w = 0"
    by (simp_all add: boot_eq loadHighScore_def n(1))
  from idle_round_high_score [OF r w(1-3)] w(4)
  have h: "highScore (run (idle_round 144) ?w) = 28" by simp
  have g: "rng_ok (sconst 0)" by simp
  from high_score_survives_reload [OF r g, of "idle_round 144" True] r g h show ?thesis
    by (auto simp: loadHighScore_def n split: option.splits)
qed

end
