(* ===== verification/Spec2Isabelle.thy ===== *)
theory Spec2Isabelle
  imports Strategy Rendering Persistence
begin

text \<open>
  \<^bold>\<open>Cat-Jump: a verification development for \<^verbatim>\<open>src/index.tsx\<close>.\<close>

  \<^bold>\<open>The program.\<close> Cat-Jump is a browser game in one file. A cat stands at a
  fixed column of an 800 by 200 field; obstacles (cacti, trash cans, birds)
  enter at the right edge and scroll to the left; the player makes the cat
  jump or crouch; the round ends at the first contact and a start key begins
  the next one. The file has these parts:

  \<^item> the constants, the module's variables and the \<^verbatim>\<open>keys\<close> object (lines 2
    to 35), among them \<^verbatim>\<open>highScore\<close>, read from \<^verbatim>\<open>localStorage\<close>;
  \<^item> class \<^verbatim>\<open>Cat\<close>: the constructor, \<^verbatim>\<open>update\<close>, which reads the keys and
    applies crouch, jump and gravity in this order, and \<^verbatim>\<open>draw\<close> (lines 37 to
    153);
  \<^item> class \<^verbatim>\<open>Obstacle\<close>: the constructor, which draws the measures of the
    obstacle from \<^verbatim>\<open>Math.random\<close>, \<^verbatim>\<open>update\<close>, which moves it and marks it
    once it has left the field, and \<^verbatim>\<open>draw\<close> with one method for each type
    (lines 155 to 307);
  \<^item> \<^verbatim>\<open>spawnObstacle\<close>, \<^verbatim>\<open>checkCollision\<close> and \<^verbatim>\<open>drawText\<close> (lines 311 to 341,
    370 to 382, 384 to 390);
  \<^item> the session: \<^verbatim>\<open>handleInput\<close> with the two key listeners, \<^verbatim>\<open>resetGame\<close>,
    \<^verbatim>\<open>gameLoop\<close> and \<^verbatim>\<open>init\<close> (lines 343 to 368 and 392 to 480), which the
    browser calls on key events and animation frames. \<^verbatim>\<open>gameLoop\<close> steps the
    simulation and draws the frame in one pass.

  \<^bold>\<open>The theories.\<close> Each theory models one part, with one definition per
  function or block and the names of the source.

  \<^item> \<open>CatJump_Prelude\<close>: the fact collections (\<open>game_consts\<close>, \<open>cat_defs\<close>,
    \<open>obs_defs\<close>, \<open>loop_defs\<close>, \<open>inv_defs\<close>), the random source \<open>Math_random\<close>
    with its contract \<open>rng_ok\<close>, the counting loop \<open>for_loop\<close> with its
    termination proof, lemmas on scaled draws and iteration.
  \<^item> \<open>Config\<close>: the constants, \<open>ObstacleType\<close>, the record \<open>keys\<close>.
  \<^item> \<open>Cat_Player\<close>: the record \<open>Cat\<close>, \<open>Cat_new\<close>, and \<open>Cat_update\<close> as the
    composition of \<open>crouch_logic\<close>, \<open>jump_logic\<close> and \<open>physics\<close>. Lemmas: the
    fields after each block; the four branches of an update; the invariant
    \<open>cat_wf\<close>, which every update establishes; the closed form of a standing
    jump (\<open>flight\<close>, 37 frames from take-off to landing); the quantity
    \<open>jump_energy\<close>, which an update in the air conserves and which bounds the
    height of every cat reachable from the constructor.
  \<^item> \<open>Obstacles\<close>: the record \<open>Obstacle\<close>, \<open>Obstacle_new\<close> and \<open>Obstacle_update\<close>.
    Lemmas: the geometry of each type (\<open>obs_wf\<close>), established by the
    constructor for every random source within contract and kept by the
    update; the number of draws the constructor takes; the position after
    \<open>n\<close> updates; every obstacle is retired after finitely many updates and
    stays retired.
  \<^item> \<open>Collision\<close>: \<open>checkCollision\<close> with its two margins. Lemmas: it is the
    overlap test of the two shrunk boxes, symmetric, equivalent to the
    existence of a common interior point; what it decides for a cat on the
    ground; an obstacle that has left the field hits nothing.
  \<^item> \<open>Spawner\<close>: \<open>spawnObstacle\<close> with \<open>lastObs\<close>, \<open>chooseType\<close> and
    \<open>spawn_emit\<close>. Lemmas: at most one obstacle is appended, at the right edge
    and well formed; nothing is spawned within the minimal gap of the last
    obstacle; no bird is chosen at a speed of 5.2 or less.
  \<^item> \<open>Game_Loop\<close>: the record \<open>world\<close> of the module's variables and the part
    of the browser the program reaches; \<open>keydown\<close>, \<open>keyup\<close>, \<open>handleInput\<close>,
    \<open>resetGame\<close>, \<open>init\<close>, and \<open>gameLoop\<close> as the composition of its six
    stages; the load of the page as \<open>initial_world\<close> (the initialisers of
    lines 19 to 35, with \<open>loadHighScore\<close> for line 22) followed by \<open>init\<close>
    (\<open>boot\<close>, line 482). Lemmas: each function as an update of the fields it
    changes; the frame in terms of the components (\<open>simulate\<close>).
  \<^item> \<open>Session\<close>: the events of the browser, \<open>dispatch\<close> and \<open>run\<close>, the
    worlds \<open>reachable\<close> from a boot, the invariants \<open>sched_inv\<close>,
    \<open>counters_inv\<close>, \<open>entities_inv\<close>, \<open>score_inv\<close> and \<open>early_inv\<close> (no bird
    during the first 500 frames of a round), each kept by every event, the
    lifecycle of the game as the refinement of the three-phase machine
    \<open>phase_next\<close>, and the page that waits for its canvas.
  \<^item> \<open>Spacing\<close>: the invariant of the obstacle list (\<open>round_inv\<close>): the
    obstacles are inside the field and in the order of their spawning, with
    gaps that a bird, which is 1.2 times as fast, cannot close before it
    leaves the field. Consequences: at most four obstacles are alive, at
    most one is in the columns of the cat.
  \<^item> \<open>Playability\<close>: the cat under a sequence of key states (\<open>cats\<close>) against
    an obstacle under repeated updates (\<open>moved\<close>). Lemmas: the window of
    positions from which a standing jump clears a cactus or a trash can, its
    width against the step of the obstacle, and the speed below which an
    obstacle cannot step over a cat that stays on the ground.
  \<^item> \<open>Idle_Round\<close>: the components put together over a whole round. The
    invariant \<open>first_inv\<close> of the first 164 frames of a round, in which only
    the first obstacle can reach the cat; the round of a player who starts
    the game and touches no key (\<open>idle_round\<close>), which ends in its 144th
    frame for every random source.
  \<^item> \<open>Timed_Round\<close>: the round of a player who taps the space key once
    (\<open>timed_round\<close>): for a tap after 127 to 139 frames the cat flies over the
    first obstacle, by the lemmas of \<open>Playability\<close>.
  \<^item> \<open>Strategy\<close>: a player who decides before each frame, from the
    positions of the obstacles, whether to tap (\<open>player\<close>, \<open>play\<close>), and the
    invariant \<open>play_inv\<close> by which this player is never hit during the 500
    frames in which the speed is 5.
  \<^item> \<open>JS_Strings\<close>: the three string functions of the host the program
    calls, on the values it passes: \<open>String_nat\<close> (decimal printing),
    \<open>padStart\<close> and \<open>Number_digits\<close> (reading a string of digits), and the
    characters a numeric literal can contain (\<open>literal_char\<close>). Lemmas:
    reading undoes printing, also behind a padding of zeros; the length of a
    numeral.
  \<^item> \<open>Canvas\<close>: the calls on the drawing context as the datatype
    \<open>canvas_op\<close>; \<open>Cat_draw\<close>, \<open>Obstacle_draw\<close> with \<open>drawCactus\<close>,
    \<open>drawTrashCan\<close>, \<open>drawBird\<close>, and \<open>drawText\<close>, each as the list of the
    calls it makes. Lemmas: the lists are \<open>neat\<close> (the discipline of paths
    and rectangles) and stay within an extent around the box of the figure.
  \<^item> \<open>Rendering\<close>: the calls \<open>gameLoop\<close> and \<open>init\<close> make on the canvas
    (\<open>gameLoop_draws\<close>, \<open>init_draws\<close>) and the picture of an event
    (\<open>event_draws\<close>). Lemmas: the picture of a frame in terms of the
    components, its well-formedness, the score line and the game-over screen.
  \<^item> \<open>Persistence\<close>: what a session does to \<^verbatim>\<open>localStorage\<close>. Lemmas: the
    only key written is \<^verbatim>\<open>dinoHighScore\<close>, the item written is the numeral
    of the high score, the store stays one the initialiser reads as the code
    does (\<open>store_ok\<close>), and a load of the page on the store a session
    leaves starts with the high score the session ended with.
  \<^item> this theory: properties of whole sequences of events.

  \<^bold>\<open>How the model corresponds to the code.\<close>
  \<^item> A class is a record and a method a function from the old object to the
    new one; the module's variables are the fields of \<open>world\<close>; a function
    that assigns to them is a function from world to world. The field names
    of the two classes carry the prefix \<open>cat_\<close> and \<open>obs_\<close> (\<^verbatim>\<open>x\<close>, \<^verbatim>\<open>y\<close>, \<^verbatim>\<open>w\<close>,
    \<^verbatim>\<open>h\<close>, \<^verbatim>\<open>dy\<close>, \<^verbatim>\<open>type\<close>), every other name is the source's.
  \<^item> Numbers that can be fractional are reals, the counters \<^verbatim>\<open>frame\<close>,
    \<^verbatim>\<open>score\<close> and \<^verbatim>\<open>highScore\<close> natural numbers, \<^verbatim>\<open>groupSize\<close> an integer.
    The program's numbers stay far below \<open>2\<^sup>5\<^sup>3\<close>, so no overflow is modelled;
    the rounding of doubles is not modelled (see \<open>CatJump_Prelude\<close>).
  \<^item> \<^verbatim>\<open>Math.random\<close> is a stream of reals threaded through the functions that
    draw. Theorems about drawing functions assume \<open>rng_ok\<close>, that every draw
    lies in \<open>[0, 1)\<close>, and nothing else about the stream.
  \<^item> The browser is a queue of animation-frame callbacks, a flag for the
    canvas element, a flag for the registered listeners and \<^verbatim>\<open>localStorage\<close>
    as a map from keys to strings, which the program reads once, at the
    load, and writes under the key \<^verbatim>\<open>dinoHighScore\<close>. An event is a key going
    down or up, a due animation frame or the arrival of the canvas element.
    \<^verbatim>\<open>cancelAnimationFrame\<close> removes a callback from the queue.
  \<^item> The canvas is written and never read. A function that draws is
    therefore modelled twice: by the state it leaves (\<open>gameLoop\<close>, \<open>init\<close>) and
    by the list of canvas calls it makes (\<open>gameLoop_draws\<close>, \<open>init_draws\<close>),
    both staged as the code is, so that each call sees the variables as they
    are when the code makes it. The argument \<open>cx\<close> of the draw functions is
    the test \<^verbatim>\<open>if (!ctx) return\<close>.
  \<^item> Every function of the model is total and needs no fuel. The loops of
    the program are the \<^verbatim>\<open>forEach\<close> over the obstacle list, a structural
    recursion, and the two \<^verbatim>\<open>for\<close> loops over the units of a group, which
    are \<open>for_loop\<close>, a recursion on the distance of the counter to its bound;
    the repetition of \<^verbatim>\<open>gameLoop\<close> is the sequence of animation frames the
    host delivers.
  \<^item> The bounds in the theorems are those of the code: the margins 5 and
    4 of the collision test; the gap \<open>250 + 15 * gameSpeed\<close> of the spawner,
    at least 325 from speed 5 on, of which more than 218 remain whatever a
    bird gains on the obstacle before it (theory \<open>Spacing\<close>); the score line
    of 15 characters while both numbers are below 100000.

  \<^bold>\<open>What is not modelled.\<close> The pixels: what the host paints for a canvas
  call, fonts and colours included. The call of \<^verbatim>\<open>preventDefault\<close> is the
  predicate \<open>preventsDefault\<close> and has no effect on the world. The grammar
  by which \<^verbatim>\<open>Number\<close> reads numeric literals is not modelled: \<open>loadHighScore\<close>
  reads an absent item as 0, a string of digits as its numeral and every
  other string as 0, which is what line 22 does unless the item is another
  literal (a sign, a fraction, an exponent, blanks), and the sessions of the
  model start from the stores that hold no such item (\<open>store_ok\<close>); the
  program itself writes strings of digits only. \<^verbatim>\<open>String\<close> is modelled on the
  natural numbers, without the exponent notation it uses from \<open>10\<^sup>2\<^sup>1\<close> on.
  That \<^verbatim>\<open>getItem\<close> and \<^verbatim>\<open>setItem\<close> can throw is not modelled. The lookup of
  the canvas element is the flag \<open>canvasPresent\<close>; the element is taken to be
  a canvas whose \<^verbatim>\<open>getContext\<close> returns a context. The \<^verbatim>\<open>default\<close> branch of the constructor of \<^verbatim>\<open>Obstacle\<close>,
  which no value of \<^verbatim>\<open>ObstacleType\<close> reaches, is left out. Rounds are not
  evaluated frame by frame:
  their properties are proved for every reachable world, and the rounds that
  are followed over their frames (\<open>Idle_Round\<close>, \<open>Timed_Round\<close>, \<open>Strategy\<close>)
  are followed by invariants. They end with the frames in which the speed is
  5: from frame 500 on birds appear and the obstacles move at different
  speeds, and no player is given for these frames.

  \<^bold>\<open>Observations.\<close> The model shows where the code differs from its comments
  and from the written description of the game: a bird flies at an altitude
  in \<open>(GROUND_Y - 70, GROUND_Y - 50]\<close>, the lower end included and the upper
  excluded; crouching in the air changes the height of the cat and leaves its
  top where it is; the velocity after the frame of the take-off is
  \<open>GRAVITY - JUMP_FORCE\<close>; birds are chosen above speed 5.2, where a comment
  says above 5.5, and under either test not before frame 501 of a round,
  where the comment says almost at once; until then every draw above 0.5
  gives a trash can; the gap to the last obstacle is measured from where it is, not from
  where it was spawned; in no reachable world is there a callback to cancel
  when \<^verbatim>\<open>gameLoop\<close> calls \<^verbatim>\<open>cancelAnimationFrame\<close>, and neither early return of
  \<^verbatim>\<open>gameLoop\<close> is ever taken once the loop is scheduled; the score line of the
  last frame of a round is drawn before the high score is raised, so the
  game-over screen shows the old high score; the obstacles are drawn in the
  middle of the step, retired ones included; the figures are larger than the
  boxes the collision test compares; a missing canvas makes \<^verbatim>\<open>init\<close> poll for
  it with every animation frame.
\<close>

section \<open>Sequences of events\<close>

text \<open>
  \<open>is_start\<close> holds of the events that start or restart a round once the
  listeners are registered. \<open>round_state\<close> is what a player sees of a world:
  the flags of the lifecycle, the counters, the cat, the obstacles and the
  waiting callbacks.
\<close>

fun is_start :: "event \<Rightarrow> bool" where
  "is_start (KeyDown code) = starts code"
| "is_start e = False"

definition round_state ::
  "world \<Rightarrow> (bool \<times> bool) \<times> (nat \<times> nat \<times> real \<times> nat) \<times> Cat \<times> Obstacle list \<times> (nat \<times> callback) list"
where
  "round_state w =
     ((isPlaying w, isGameOver w), (frame w, score w, gameSpeed w, highScore w),
      cat w, obstacles w, scheduled w)"

lemma highScore_keydown [simp]: "highScore (keydown code w) = highScore w"
  by (simp add: keydown_eq resetGame_eq)

lemma highScore_init [simp]: "highScore (init w) = highScore w"
  by (simp add: init_eq)

lemma highScore_gameLoop: "highScore w \<le> highScore (gameLoop w)"
  by (cases "ctx w \<and> isPlaying w") (auto simp: gameLoop_playing gameLoop_idle)

lemma highScore_dispatch: "h \<le> highScore w \<Longrightarrow> h \<le> highScore (dispatch e w)"
proof (erule dispatch_preserves)
  fix v :: world assume "h \<le> highScore v"
  with highScore_gameLoop [of v] show "h \<le> highScore (gameLoop v)" by simp
qed simp_all

lemma highScore_run: "highScore w \<le> highScore (run es w)"
proof (induction es arbitrary: w)
  case (Cons e es)
  have "highScore w \<le> highScore (dispatch e w)" by (rule highScore_dispatch) simp
  also have "\<dots> \<le> highScore (run es (dispatch e w))" by (rule Cons.IH)
  finally show ?case by simp
qed simp

lemma round_state_phase: "round_state v = round_state w \<Longrightarrow> phase v = phase w"
  by (simp add: round_state_def phase_def)

lemma resting_dispatch:
  assumes "sched_inv w" "listening w" "phase w \<noteq> Playing" "\<not> is_start e"
  shows "round_state (dispatch e w) = round_state w \<and> listening (dispatch e w)"
proof (cases e)
  case (KeyDown code)
  with assms show ?thesis by (simp add: keydown_eq round_state_def)
next
  case (KeyUp code)
  with assms show ?thesis by (simp add: round_state_def)
next
  case AnimationFrame
  with assms show ?thesis by (simp add: dispatch_frame_frozen)
next
  case CanvasAdded
  with assms show ?thesis by (simp add: round_state_def)
qed

lemma resting_run:
  assumes "sched_inv w" "listening w" "phase w \<noteq> Playing" "list_all (\<lambda>e. \<not> is_start e) es"
  shows "round_state (run es w) = round_state w"
  using assms
proof (induction es arbitrary: w)
  case (Cons e es)
  then have d: "round_state (dispatch e w) = round_state w" "listening (dispatch e w)"
    by (simp_all add: resting_dispatch)
  with Cons.prems have "phase (dispatch e w) \<noteq> Playing"
    by (simp only: round_state_phase [OF d(1)]) simp
  with Cons d show ?case by (simp add: sched_inv_dispatch)
qed simp

text \<open>
  \<^bold>\<open>C22.\<close> The high score never falls. Whatever events follow a reachable
  world, in whatever order, the high score in memory and the stored one after
  them are at least what they were before, and they still agree.
\<close>

theorem high_score_never_falls:
  assumes "reachable w"
  shows "highScore w \<le> highScore (run es w) \<and>
         loadHighScore (storage w) \<le> loadHighScore (storage (run es w)) \<and>
         highScore (run es w) = loadHighScore (storage (run es w))"
proof -
  from assms have "world_inv w" "world_inv (run es w)"
    by (simp_all add: reachable_inv reachable_run)
  then have "highScore w = loadHighScore (storage w)"
    "highScore (run es w) = loadHighScore (storage (run es w))"
    by (simp_all add: world_inv_def score_inv_def)
  with highScore_run [of w es] show ?thesis by simp
qed

theorem high_score_never_falls_witness:
  "reachable (boot [''dinoHighScore'' \<mapsto> ''7''] True (sconst 0)) \<and>
   7 \<le> highScore (run [KeyDown ''Space'', AnimationFrame, AnimationFrame]
          (boot [''dinoHighScore'' \<mapsto> ''7''] True (sconst 0)))"
proof -
  have n: "Number_digits ''7'' = Some 7" "list_all is_digit ''7''" by code_simp+
  then have r: "reachable (boot [''dinoHighScore'' \<mapsto> ''7''] True (sconst 0))"
    by (simp add: reachable.boot store_ok_def)
  from high_score_never_falls [OF r, of "[KeyDown ''Space'', AnimationFrame, AnimationFrame]"] r
  show ?thesis by (simp add: loadHighScore_def n(1))
qed

text \<open>
  \<^bold>\<open>C21.\<close> Only a start key ends the rest. Once the listeners are registered
  and while no round is running (before the first round and after a
  collision), every sequence of events without a press of the space key or the
  up arrow leaves the lifecycle flags, the counters, the cat, the obstacles
  and the callback queue exactly as they are: other keys, key releases and
  animation frames change nothing a player sees.
\<close>

theorem only_start_key_ends_rest:
  assumes "reachable w" and "listening w" and "phase w \<noteq> Playing"
    and "list_all (\<lambda>e. \<not> is_start e) es"
  shows "round_state (run es w) = round_state w \<and> phase (run es w) = phase w"
proof -
  from reachable_inv [OF assms(1)] have "sched_inv w" by (simp add: world_inv_def)
  then have "round_state (run es w) = round_state w" using assms(2-4) by (rule resting_run)
  with round_state_phase [of "run es w" w] show ?thesis by simp
qed

theorem only_start_key_ends_rest_witness:
  "reachable world0 \<and> listening world0 \<and> phase world0 = Idle \<and>
   round_state (run [KeyDown ''ArrowDown'', AnimationFrame, KeyUp ''ArrowDown'', KeyDown ''KeyA'']
     world0) = round_state world0"
proof -
  have l: "listening world0" and i: "phase world0 = Idle" by (simp_all add: world0_eq)
  then have p: "phase world0 \<noteq> Playing" by simp
  have e: "list_all (\<lambda>e. \<not> is_start e)
      [KeyDown ''ArrowDown'', AnimationFrame, KeyUp ''ArrowDown'', KeyDown ''KeyA'']"
    by (simp add: starts_def)
  from only_start_key_ends_rest [OF reachable_world0 l p e] reachable_world0 l i
  show ?thesis by blast
qed

end
